(* ===== verification/Prelude.thy ===== *)
theory Prelude
  imports Main "HOL-Library.Word"
begin

text \<open>
  Shared vocabulary of the development: the C integer types as words, the conversions the C
  code performs implicitly (truncation to \<open>uint8_t\<close>, sign extension to \<open>long\<close>), and the
  generic lemmas on lists, options and words that several components use.

  \<^item> \<open>u8\<close> is \<open>uint8_t\<close> / \<open>unsigned char\<close>, \<open>u16\<close> is \<open>ELF_Half\<close> / \<open>short\<close>, \<open>u32\<close> is both
    \<open>int\<close> and \<open>ELF_Word\<close> (read with \<open>sint\<close> or \<open>unat\<close>), \<open>u64\<close> is \<open>long\<close>.
  \<^item> \<open>byte_at k v\<close> is what \<open>o(v >> 8*k)\<close> writes: bits \<open>8*k .. 8*k+7\<close> of \<open>v\<close>.
\<close>

unbundle bit_operations_syntax

type_synonym u8 = "8 word"
type_synonym u16 = "16 word"
type_synonym u32 = "32 word"
type_synonym u64 = "64 word"

named_theorems table_defs \<open>the defining equations of the constant tables\<close>
named_theorems token_defs \<open>the defining equations of the token table\<close>
named_theorems token_rows \<open>row-wise look-up in the token table\<close>

subsection \<open>Lists and association lists\<close>

lemma map_of_all:
  assumes "map_of xs k = Some v" and "list_all (\<lambda>(a, b). P a b) xs"
  shows "P k v"
proof -
  from assms(1) have "(k, v) \<in> set xs" by (rule map_of_SomeD)
  with assms(2) show ?thesis by (auto simp: list_all_iff)
qed

lemma take_append_exact [simp]: "length xs = n \<Longrightarrow> take n (xs @ ys) = xs"
  by simp

lemma drop_append_exact [simp]: "length xs = n \<Longrightarrow> drop n (xs @ ys) = ys"
  by simp

text \<open>Looking up an entry of a table kept as rows of equal length.\<close>

lemma concat_nth_row:
  assumes "list_all (\<lambda>r. length r = k) (butlast rs)" "n < length (concat rs)" "0 < k"
    and "length (last rs) \<le> k"
  shows "concat rs ! n = rs ! (n div k) ! (n mod k)"
  using assms
proof (induction rs arbitrary: n)
  case (Cons r rs)
  show ?case
  proof (cases "rs = []")
    case True
    with Cons.prems show ?thesis by simp
  next
    case False
    with Cons.prems have r: "length r = k" by simp
    show ?thesis
    proof (cases "n < k")
      case True
      with r show ?thesis by (simp add: nth_append)
    next
      case n: False
      with False Cons r have "concat rs ! (n - k) = rs ! ((n - k) div k) ! ((n - k) mod k)"
        by simp
      with n r Cons.prems(3) show ?thesis
        by (simp add: nth_append le_div_geq le_mod_geq)
    qed
  qed
qed simp

subsection \<open>Bytes of an integer\<close>

definition byte_at :: "nat \<Rightarrow> u32 \<Rightarrow> u8" where
  "byte_at k v = ucast (signed_drop_bit (8 * k) v)"

lemma bit_byte_at:
  "k < 4 \<Longrightarrow> bit (byte_at k v) n \<longleftrightarrow> n < 8 \<and> bit v (8 * k + n)"
  by (auto simp: byte_at_def bit_simps)

lemma unat_u8_less: "unat (b :: u8) < 256"
  using unsigned_less [of b] by simp

lemma byte_at_0: "byte_at 0 v = ucast v"
  by (simp add: byte_at_def)

lemma ucast_and_ff: "(ucast (v AND 0xff) :: u8) = ucast (v :: u32)"
proof (rule bit_word_eqI)
  fix n assume n: "n < LENGTH(8)"
  have m: "(0xff :: u32) = mask 8" by (simp add: mask_eq_exp_minus_1)
  show "bit (ucast (v AND 0xff) :: u8) n \<longleftrightarrow> bit (ucast v :: u8) n"
    unfolding m using n by (auto simp: bit_simps simp del: mask_numeral)
qed

text \<open>Reading a little-endian byte list back as an unsigned integer.\<close>

fun le_value :: "u8 list \<Rightarrow> u32" where
  "le_value [] = 0"
| "le_value (b # bs) = ucast b OR push_bit 8 (le_value bs)"

lemma le_value_1: "le_value [byte_at 0 v] = v AND mask 8"
  by (rule bit_word_eqI) (auto simp: bit_simps bit_byte_at)

lemma le_value_2: "le_value [byte_at 0 v, byte_at 1 v] = v AND mask 16"
  by (rule bit_word_eqI) (auto simp: bit_simps bit_byte_at)

lemma le_value_3: "le_value [byte_at 0 v, byte_at 1 v, byte_at 2 v] = v AND mask 24"
proof (rule bit_word_eqI, goal_cases)
  case (1 n)
  then show ?case
    by (auto simp: bit_simps bit_byte_at not_less less_diff_conv2)
      (metis le_add_diff_inverse not_less)
qed

lemma le_value_4: "le_value [byte_at 0 v, byte_at 1 v, byte_at 2 v, byte_at 3 v] = v"
proof (rule bit_word_eqI, goal_cases)
  case (1 n)
  then show ?case
    by (auto simp: bit_simps bit_byte_at not_less less_diff_conv2)
      (metis le_add_diff_inverse not_less)
qed

lemmas le_value_bytes = le_value_1 le_value_2 le_value_3 le_value_4

end
