(* ===== verification/Cpu.thy ===== *)
theory Cpu
  imports Prelude
begin

text \<open>
  The data model shared by the assembler, the code generators and the disassemblers:
  the token enumeration of \<open>shared/include/as_tokens.h\<close>, the addressing modes, modifiers and
  instructions of \<open>shared/include/cpu.h\<close>, their names (\<open>shared/src/cpu.c\<close>), and the tests
  \<open>is_instr\<close> / \<open>is_directive\<close> / \<open>is_asm_keyword\<close> of \<open>as-c/src/scanner.c\<close>.

  A C enumeration is an integer, and the program relies on it: \<open>is_instr\<close> indexes the table
  \<open>flags[]\<close>, filled in the order of the \<open>DEF\<close> lines, with a symbol value. So a \<open>symbol\<close> is a
  natural number and each enumerator abbreviates its position.
\<close>

subsection \<open>Symbols\<close>

type_synonym symbol = nat

abbreviation (input) sREGA :: symbol where "sREGA \<equiv> 0"
abbreviation (input) sADC :: symbol where "sADC \<equiv> 1"
abbreviation (input) sADD :: symbol where "sADD \<equiv> 2"
abbreviation (input) sALIGN :: symbol where "sALIGN \<equiv> 3"
abbreviation (input) sAND :: symbol where "sAND \<equiv> 4"
abbreviation (input) sARRAY :: symbol where "sARRAY \<equiv> 5"
abbreviation (input) sASL :: symbol where "sASL \<equiv> 6"
abbreviation (input) sASR :: symbol where "sASR \<equiv> 7"
abbreviation (input) sBAR :: symbol where "sBAR \<equiv> 8"
abbreviation (input) sBAS :: symbol where "sBAS \<equiv> 9"
abbreviation (input) sBBR :: symbol where "sBBR \<equiv> 10"
abbreviation (input) sBBS :: symbol where "sBBS \<equiv> 11"
abbreviation (input) sBCC :: symbol where "sBCC \<equiv> 12"
abbreviation (input) sBCS :: symbol where "sBCS \<equiv> 13"
abbreviation (input) sBEGIN :: symbol where "sBEGIN \<equiv> 14"
abbreviation (input) sBEQ :: symbol where "sBEQ \<equiv> 15"
abbreviation (input) sBGE :: symbol where "sBGE \<equiv> 16"
abbreviation (input) sBIT :: symbol where "sBIT \<equiv> 17"
abbreviation (input) sBMI :: symbol where "sBMI \<equiv> 18"
abbreviation (input) sBNE :: symbol where "sBNE \<equiv> 19"
abbreviation (input) sBPL :: symbol where "sBPL \<equiv> 20"
abbreviation (input) sBRA :: symbol where "sBRA \<equiv> 21"
abbreviation (input) sBRK :: symbol where "sBRK \<equiv> 22"
abbreviation (input) sBRL :: symbol where "sBRL \<equiv> 23"
abbreviation (input) sBVC :: symbol where "sBVC \<equiv> 24"
abbreviation (input) sBVS :: symbol where "sBVS \<equiv> 25"
abbreviation (input) sBY :: symbol where "sBY \<equiv> 26"
abbreviation (input) sBYTE :: symbol where "sBYTE \<equiv> 27"
abbreviation (input) sCASE :: symbol where "sCASE \<equiv> 28"
abbreviation (input) sCLC :: symbol where "sCLC \<equiv> 29"
abbreviation (input) sCLD :: symbol where "sCLD \<equiv> 30"
abbreviation (input) sCLI :: symbol where "sCLI \<equiv> 31"
abbreviation (input) sCLV :: symbol where "sCLV \<equiv> 32"
abbreviation (input) sCLW :: symbol where "sCLW \<equiv> 33"
abbreviation (input) sCMP :: symbol where "sCMP \<equiv> 34"
abbreviation (input) sCONST :: symbol where "sCONST \<equiv> 35"
abbreviation (input) sCOP :: symbol where "sCOP \<equiv> 36"
abbreviation (input) sCPX :: symbol where "sCPX \<equiv> 37"
abbreviation (input) sCPY :: symbol where "sCPY \<equiv> 38"
abbreviation (input) sDATA :: symbol where "sDATA \<equiv> 39"
abbreviation (input) sDEC :: symbol where "sDEC \<equiv> 40"
abbreviation (input) sDEX :: symbol where "sDEX \<equiv> 41"
abbreviation (input) sDEY :: symbol where "sDEY \<equiv> 42"
abbreviation (input) sDIV :: symbol where "sDIV \<equiv> 43"
abbreviation (input) sDO :: symbol where "sDO \<equiv> 44"
abbreviation (input) sDOUBLE :: symbol where "sDOUBLE \<equiv> 45"
abbreviation (input) sELSE :: symbol where "sELSE \<equiv> 46"
abbreviation (input) sELSIF :: symbol where "sELSIF \<equiv> 47"
abbreviation (input) sEND :: symbol where "sEND \<equiv> 48"
abbreviation (input) sEOR :: symbol where "sEOR \<equiv> 49"
abbreviation (input) sERROR :: symbol where "sERROR \<equiv> 50"
abbreviation (input) sERRORIF :: symbol where "sERRORIF \<equiv> 51"
abbreviation (input) sEXC :: symbol where "sEXC \<equiv> 52"
abbreviation (input) sFALSE :: symbol where "sFALSE \<equiv> 53"
abbreviation (input) sFILL :: symbol where "sFILL \<equiv> 54"
abbreviation (input) sFLOAT :: symbol where "sFLOAT \<equiv> 55"
abbreviation (input) sFOR :: symbol where "sFOR \<equiv> 56"
abbreviation (input) sFUNCTION :: symbol where "sFUNCTION \<equiv> 57"
abbreviation (input) sGLOBAL :: symbol where "sGLOBAL \<equiv> 58"
abbreviation (input) sHEADING :: symbol where "sHEADING \<equiv> 59"
abbreviation (input) sIF :: symbol where "sIF \<equiv> 60"
abbreviation (input) sIMPORT :: symbol where "sIMPORT \<equiv> 61"
abbreviation (input) sIN :: symbol where "sIN \<equiv> 62"
abbreviation (input) sINC :: symbol where "sINC \<equiv> 63"
abbreviation (input) sINCLIST :: symbol where "sINCLIST \<equiv> 64"
abbreviation (input) sINCLUDE :: symbol where "sINCLUDE \<equiv> 65"
abbreviation (input) sINI :: symbol where "sINI \<equiv> 66"
abbreviation (input) sINSERT :: symbol where "sINSERT \<equiv> 67"
abbreviation (input) sINX :: symbol where "sINX \<equiv> 68"
abbreviation (input) sINY :: symbol where "sINY \<equiv> 69"
abbreviation (input) sIS :: symbol where "sIS \<equiv> 70"
abbreviation (input) sJML :: symbol where "sJML \<equiv> 71"
abbreviation (input) sJMP :: symbol where "sJMP \<equiv> 72"
abbreviation (input) sJPI :: symbol where "sJPI \<equiv> 73"
abbreviation (input) sJSB :: symbol where "sJSB \<equiv> 74"
abbreviation (input) sJSL :: symbol where "sJSL \<equiv> 75"
abbreviation (input) sJSR :: symbol where "sJSR \<equiv> 76"
abbreviation (input) sLAB :: symbol where "sLAB \<equiv> 77"
abbreviation (input) sLAI :: symbol where "sLAI \<equiv> 78"
abbreviation (input) sLAN :: symbol where "sLAN \<equiv> 79"
abbreviation (input) sLDA :: symbol where "sLDA \<equiv> 80"
abbreviation (input) sLDX :: symbol where "sLDX \<equiv> 81"
abbreviation (input) sLDY :: symbol where "sLDY \<equiv> 82"
abbreviation (input) sLET :: symbol where "sLET \<equiv> 83"
abbreviation (input) sLII :: symbol where "sLII \<equiv> 84"
abbreviation (input) sLIST :: symbol where "sLIST \<equiv> 85"
abbreviation (input) sLONG :: symbol where "sLONG \<equiv> 86"
abbreviation (input) sLSR :: symbol where "sLSR \<equiv> 87"
abbreviation (input) sMACRO :: symbol where "sMACRO \<equiv> 88"
abbreviation (input) sMESSAGE :: symbol where "sMESSAGE \<equiv> 89"
abbreviation (input) sMESSAGENOW :: symbol where "sMESSAGENOW \<equiv> 90"
abbreviation (input) sMOD :: symbol where "sMOD \<equiv> 91"
abbreviation (input) sMODULE :: symbol where "sMODULE \<equiv> 92"
abbreviation (input) sMPA :: symbol where "sMPA \<equiv> 93"
abbreviation (input) sMPY :: symbol where "sMPY \<equiv> 94"
abbreviation (input) sMVN :: symbol where "sMVN \<equiv> 95"
abbreviation (input) sMVP :: symbol where "sMVP \<equiv> 96"
abbreviation (input) sNEG :: symbol where "sNEG \<equiv> 97"
abbreviation (input) sNIL :: symbol where "sNIL \<equiv> 98"
abbreviation (input) sNOP :: symbol where "sNOP \<equiv> 99"
abbreviation (input) sNULL :: symbol where "sNULL \<equiv> 100"
abbreviation (input) sNXT :: symbol where "sNXT \<equiv> 101"
abbreviation (input) sOF :: symbol where "sOF \<equiv> 102"
abbreviation (input) sOR :: symbol where "sOR \<equiv> 103"
abbreviation (input) sORA :: symbol where "sORA \<equiv> 104"
abbreviation (input) sPAGE :: symbol where "sPAGE \<equiv> 105"
abbreviation (input) sPEA :: symbol where "sPEA \<equiv> 106"
abbreviation (input) sPEI :: symbol where "sPEI \<equiv> 107"
abbreviation (input) sPER :: symbol where "sPER \<equiv> 108"
abbreviation (input) sPHA :: symbol where "sPHA \<equiv> 109"
abbreviation (input) sPHB :: symbol where "sPHB \<equiv> 110"
abbreviation (input) sPHD :: symbol where "sPHD \<equiv> 111"
abbreviation (input) sPHI :: symbol where "sPHI \<equiv> 112"
abbreviation (input) sPHK :: symbol where "sPHK \<equiv> 113"
abbreviation (input) sPHP :: symbol where "sPHP \<equiv> 114"
abbreviation (input) sPHW :: symbol where "sPHW \<equiv> 115"
abbreviation (input) sPHX :: symbol where "sPHX \<equiv> 116"
abbreviation (input) sPHY :: symbol where "sPHY \<equiv> 117"
abbreviation (input) sPIA :: symbol where "sPIA \<equiv> 118"
abbreviation (input) sPL :: symbol where "sPL \<equiv> 119"
abbreviation (input) sPLA :: symbol where "sPLA \<equiv> 120"
abbreviation (input) sPLB :: symbol where "sPLB \<equiv> 121"
abbreviation (input) sPLD :: symbol where "sPLD \<equiv> 122"
abbreviation (input) sPLI :: symbol where "sPLI \<equiv> 123"
abbreviation (input) sPLP :: symbol where "sPLP \<equiv> 124"
abbreviation (input) sPLW :: symbol where "sPLW \<equiv> 125"
abbreviation (input) sPLX :: symbol where "sPLX \<equiv> 126"
abbreviation (input) sPLY :: symbol where "sPLY \<equiv> 127"
abbreviation (input) sPOINTER :: symbol where "sPOINTER \<equiv> 128"
abbreviation (input) sPROCEDURE :: symbol where "sPROCEDURE \<equiv> 129"
abbreviation (input) sPSH :: symbol where "sPSH \<equiv> 130"
abbreviation (input) sPUL :: symbol where "sPUL \<equiv> 131"
abbreviation (input) sPW :: symbol where "sPW \<equiv> 132"
abbreviation (input) sRBA :: symbol where "sRBA \<equiv> 133"
abbreviation (input) sRECORD :: symbol where "sRECORD \<equiv> 134"
abbreviation (input) sREP :: symbol where "sREP \<equiv> 135"
abbreviation (input) sREPEAT :: symbol where "sREPEAT \<equiv> 136"
abbreviation (input) sRETURN :: symbol where "sRETURN \<equiv> 137"
abbreviation (input) sRMB :: symbol where "sRMB \<equiv> 138"
abbreviation (input) sRND :: symbol where "sRND \<equiv> 139"
abbreviation (input) sROL :: symbol where "sROL \<equiv> 140"
abbreviation (input) sROR :: symbol where "sROR \<equiv> 141"
abbreviation (input) sRTI :: symbol where "sRTI \<equiv> 142"
abbreviation (input) sRTL :: symbol where "sRTL \<equiv> 143"
abbreviation (input) sRTS :: symbol where "sRTS \<equiv> 144"
abbreviation (input) sREGS :: symbol where "sREGS \<equiv> 145"
abbreviation (input) sSBA :: symbol where "sSBA \<equiv> 146"
abbreviation (input) sSBC :: symbol where "sSBC \<equiv> 147"
abbreviation (input) sSEC :: symbol where "sSEC \<equiv> 148"
abbreviation (input) sSECTION :: symbol where "sSECTION \<equiv> 149"
abbreviation (input) sSED :: symbol where "sSED \<equiv> 150"
abbreviation (input) sSEGMENT :: symbol where "sSEGMENT \<equiv> 151"
abbreviation (input) sSEI :: symbol where "sSEI \<equiv> 152"
abbreviation (input) sSEP :: symbol where "sSEP \<equiv> 153"
abbreviation (input) sSMB :: symbol where "sSMB \<equiv> 154"
abbreviation (input) sSTA :: symbol where "sSTA \<equiv> 155"
abbreviation (input) sSTI :: symbol where "sSTI \<equiv> 156"
abbreviation (input) sSTP :: symbol where "sSTP \<equiv> 157"
abbreviation (input) sSTX :: symbol where "sSTX \<equiv> 158"
abbreviation (input) sSTY :: symbol where "sSTY \<equiv> 159"
abbreviation (input) sSTZ :: symbol where "sSTZ \<equiv> 160"
abbreviation (input) sSUBHEADING :: symbol where "sSUBHEADING \<equiv> 161"
abbreviation (input) sSWA :: symbol where "sSWA \<equiv> 162"
abbreviation (input) sTAD :: symbol where "sTAD \<equiv> 163"
abbreviation (input) sTAS :: symbol where "sTAS \<equiv> 164"
abbreviation (input) sTAW :: symbol where "sTAW \<equiv> 165"
abbreviation (input) sTAX :: symbol where "sTAX \<equiv> 166"
abbreviation (input) sTAY :: symbol where "sTAY \<equiv> 167"
abbreviation (input) sTCD :: symbol where "sTCD \<equiv> 168"
abbreviation (input) sTCS :: symbol where "sTCS \<equiv> 169"
abbreviation (input) sTDA :: symbol where "sTDA \<equiv> 170"
abbreviation (input) sTDC :: symbol where "sTDC \<equiv> 171"
abbreviation (input) sTEXT :: symbol where "sTEXT \<equiv> 172"
abbreviation (input) sTHEN :: symbol where "sTHEN \<equiv> 173"
abbreviation (input) sTIP :: symbol where "sTIP \<equiv> 174"
abbreviation (input) sTITLE :: symbol where "sTITLE \<equiv> 175"
abbreviation (input) sTO :: symbol where "sTO \<equiv> 176"
abbreviation (input) sTOP :: symbol where "sTOP \<equiv> 177"
abbreviation (input) sTRB :: symbol where "sTRB \<equiv> 178"
abbreviation (input) sTRUE :: symbol where "sTRUE \<equiv> 179"
abbreviation (input) sTSA :: symbol where "sTSA \<equiv> 180"
abbreviation (input) sTSB :: symbol where "sTSB \<equiv> 181"
abbreviation (input) sTSC :: symbol where "sTSC \<equiv> 182"
abbreviation (input) sTSX :: symbol where "sTSX \<equiv> 183"
abbreviation (input) sTWA :: symbol where "sTWA \<equiv> 184"
abbreviation (input) sTXA :: symbol where "sTXA \<equiv> 185"
abbreviation (input) sTXS :: symbol where "sTXS \<equiv> 186"
abbreviation (input) sTXY :: symbol where "sTXY \<equiv> 187"
abbreviation (input) sTYA :: symbol where "sTYA \<equiv> 188"
abbreviation (input) sTYPE :: symbol where "sTYPE \<equiv> 189"
abbreviation (input) sTYX :: symbol where "sTYX \<equiv> 190"
abbreviation (input) sUNTIL :: symbol where "sUNTIL \<equiv> 191"
abbreviation (input) sVAR :: symbol where "sVAR \<equiv> 192"
abbreviation (input) sWAI :: symbol where "sWAI \<equiv> 193"
abbreviation (input) sWDM :: symbol where "sWDM \<equiv> 194"
abbreviation (input) sWHILE :: symbol where "sWHILE \<equiv> 195"
abbreviation (input) sWORD :: symbol where "sWORD \<equiv> 196"
abbreviation (input) sREGX :: symbol where "sREGX \<equiv> 197"
abbreviation (input) sXBA :: symbol where "sXBA \<equiv> 198"
abbreviation (input) sXCE :: symbol where "sXCE \<equiv> 199"
abbreviation (input) sREGY :: symbol where "sREGY \<equiv> 200"
abbreviation (input) sIDENT :: symbol where "sIDENT \<equiv> 201"
abbreviation (input) sSTATESEP :: symbol where "sSTATESEP \<equiv> 202"
abbreviation (input) sBOOLEAN :: symbol where "sBOOLEAN \<equiv> 203"
abbreviation (input) sCHAR :: symbol where "sCHAR \<equiv> 204"
abbreviation (input) sINTEGER :: symbol where "sINTEGER \<equiv> 205"
abbreviation (input) sREAL :: symbol where "sREAL \<equiv> 206"
abbreviation (input) sSTRING :: symbol where "sSTRING \<equiv> 207"
abbreviation (input) sBLOCKSTART :: symbol where "sBLOCKSTART \<equiv> 208"
abbreviation (input) sBLOCKEND :: symbol where "sBLOCKEND \<equiv> 209"
abbreviation (input) sBECOMES :: symbol where "sBECOMES \<equiv> 210"
abbreviation (input) sPLUS :: symbol where "sPLUS \<equiv> 211"
abbreviation (input) sMINUS :: symbol where "sMINUS \<equiv> 212"
abbreviation (input) sLSQ :: symbol where "sLSQ \<equiv> 213"
abbreviation (input) sRSQ :: symbol where "sRSQ \<equiv> 214"
abbreviation (input) sLPAREN :: symbol where "sLPAREN \<equiv> 215"
abbreviation (input) sRPAREN :: symbol where "sRPAREN \<equiv> 216"
abbreviation (input) sTILDE :: symbol where "sTILDE \<equiv> 217"
abbreviation (input) sNOT :: symbol where "sNOT \<equiv> 218"
abbreviation (input) sLAND :: symbol where "sLAND \<equiv> 219"
abbreviation (input) sLOR :: symbol where "sLOR \<equiv> 220"
abbreviation (input) sEQL :: symbol where "sEQL \<equiv> 221"
abbreviation (input) sNEQ :: symbol where "sNEQ \<equiv> 222"
abbreviation (input) sLSS :: symbol where "sLSS \<equiv> 223"
abbreviation (input) sLEQ :: symbol where "sLEQ \<equiv> 224"
abbreviation (input) sGTR :: symbol where "sGTR \<equiv> 225"
abbreviation (input) sGEQ :: symbol where "sGEQ \<equiv> 226"
abbreviation (input) sCARET :: symbol where "sCARET \<equiv> 227"
abbreviation (input) sCOMMA :: symbol where "sCOMMA \<equiv> 228"
abbreviation (input) sAST :: symbol where "sAST \<equiv> 229"
abbreviation (input) sSLASH :: symbol where "sSLASH \<equiv> 230"
abbreviation (input) sAMPERSAND :: symbol where "sAMPERSAND \<equiv> 231"
abbreviation (input) sBARC :: symbol where "sBARC \<equiv> 232"
abbreviation (input) sPERIOD :: symbol where "sPERIOD \<equiv> 233"
abbreviation (input) sDOTDOT :: symbol where "sDOTDOT \<equiv> 234"
abbreviation (input) sELLIPSIS :: symbol where "sELLIPSIS \<equiv> 235"
abbreviation (input) sHASH :: symbol where "sHASH \<equiv> 236"
abbreviation (input) sEOF :: symbol where "sEOF \<equiv> 237"
abbreviation (input) sCOLON :: symbol where "sCOLON \<equiv> 238"
abbreviation (input) sQUESTION :: symbol where "sQUESTION \<equiv> 239"
abbreviation (input) sMUL_ASN :: symbol where "sMUL_ASN \<equiv> 240"
abbreviation (input) sDIV_ASN :: symbol where "sDIV_ASN \<equiv> 241"
abbreviation (input) sMOD_ASN :: symbol where "sMOD_ASN \<equiv> 242"
abbreviation (input) sADD_ASN :: symbol where "sADD_ASN \<equiv> 243"
abbreviation (input) sSUB_ASN :: symbol where "sSUB_ASN \<equiv> 244"
abbreviation (input) sLEFT_ASN :: symbol where "sLEFT_ASN \<equiv> 245"
abbreviation (input) sRIGHT_ASN :: symbol where "sRIGHT_ASN \<equiv> 246"
abbreviation (input) sAND_ASN :: symbol where "sAND_ASN \<equiv> 247"
abbreviation (input) sXOR_ASN :: symbol where "sXOR_ASN \<equiv> 248"
abbreviation (input) sOR_ASN :: symbol where "sOR_ASN \<equiv> 249"
abbreviation (input) sLEFT_SHIFT :: symbol where "sLEFT_SHIFT \<equiv> 250"
abbreviation (input) sRIGHT_SHIFT :: symbol where "sRIGHT_SHIFT \<equiv> 251"
abbreviation (input) sINCOP :: symbol where "sINCOP \<equiv> 252"
abbreviation (input) sDECOP :: symbol where "sDECOP \<equiv> 253"
abbreviation (input) sPERCENT :: symbol where "sPERCENT \<equiv> 254"

subsection \<open>Keyword flags\<close>

definition F_AKEYWORD :: u8 where [table_defs]: "F_AKEYWORD = 0x01"
definition F_OKEYWORD :: u8 where [table_defs]: "F_OKEYWORD = 0x02"
definition F_INSTR :: u8 where [table_defs]: "F_INSTR = 0x04"
definition F_DIRECTIVE :: u8 where [table_defs]: "F_DIRECTIVE = 0x08"

text \<open>The \<open>DEF\<close> lines: keyword text and flags; their order is the enumeration's.\<close>

definition as_tokens_r0 :: "(string \<times> u8) list" where [token_defs, token_rows]:
  "as_tokens_r0 =
   [(''a'', F_AKEYWORD), (''adc'', F_INSTR), (''add'', F_INSTR), (''align'', F_DIRECTIVE),
    (''and'', F_INSTR), (''array'', F_OKEYWORD), (''asl'', F_INSTR), (''asr'', F_INSTR),
    (''bar'', F_INSTR), (''bas'', F_INSTR), (''bbr'', F_INSTR), (''bbs'', F_INSTR),
    (''bcc'', F_INSTR), (''bcs'', F_INSTR), (''begin'', F_OKEYWORD), (''beq'', F_INSTR)]"

definition as_tokens_r1 :: "(string \<times> u8) list" where [token_defs, token_rows]:
  "as_tokens_r1 =
   [(''bge'', F_INSTR), (''bit'', F_INSTR), (''bmi'', F_INSTR), (''bne'', F_INSTR),
    (''bpl'', F_INSTR), (''bra'', F_INSTR), (''brk'', F_INSTR), (''brl'', F_INSTR),
    (''bvc'', F_INSTR), (''bvs'', F_INSTR), (''by'', F_OKEYWORD), (''byte'', F_DIRECTIVE),
    (''case'', F_OKEYWORD), (''clc'', F_INSTR), (''cld'', F_INSTR), (''cli'', F_INSTR)]"

definition as_tokens_r2 :: "(string \<times> u8) list" where [token_defs, token_rows]:
  "as_tokens_r2 =
   [(''clv'', F_INSTR), (''clw'', F_INSTR), (''cmp'', F_INSTR), (''const'', F_OKEYWORD),
    (''cop'', F_INSTR), (''cpx'', F_INSTR), (''cpy'', F_INSTR), (''data'', F_DIRECTIVE),
    (''dec'', F_INSTR), (''dex'', F_INSTR), (''dey'', F_INSTR), (''div'', F_AKEYWORD OR F_OKEYWORD),
    (''do'', F_OKEYWORD), (''double'', F_DIRECTIVE), (''else'', F_AKEYWORD OR F_OKEYWORD), (''elsif'', F_OKEYWORD)]"

definition as_tokens_r3 :: "(string \<times> u8) list" where [token_defs, token_rows]:
  "as_tokens_r3 =
   [(''end'', F_AKEYWORD OR F_OKEYWORD), (''eor'', F_INSTR), (''error'', F_DIRECTIVE), (''errorif'', F_DIRECTIVE),
    (''exc'', F_INSTR), (''false'', F_OKEYWORD), (''fill'', F_DIRECTIVE), (''float'', F_DIRECTIVE),
    (''for'', F_AKEYWORD OR F_OKEYWORD), (''function'', F_DIRECTIVE), (''global'', F_DIRECTIVE), (''heading'', F_DIRECTIVE),
    (''if'', F_AKEYWORD OR F_OKEYWORD), (''import'', F_DIRECTIVE OR F_OKEYWORD), (''in'', F_OKEYWORD), (''inc'', F_INSTR)]"

definition as_tokens_r4 :: "(string \<times> u8) list" where [token_defs, token_rows]:
  "as_tokens_r4 =
   [(''inclist'', F_DIRECTIVE), (''include'', F_DIRECTIVE), (''ini'', F_INSTR), (''insert'', F_DIRECTIVE),
    (''inx'', F_INSTR), (''iny'', F_INSTR), (''is'', F_OKEYWORD), (''jml'', F_INSTR),
    (''jmp'', F_INSTR), (''jpi'', F_INSTR), (''jsb'', F_INSTR), (''jsl'', F_INSTR),
    (''jsr'', F_INSTR), (''lab'', F_INSTR), (''lai'', F_INSTR), (''lan'', F_INSTR)]"

definition as_tokens_r5 :: "(string \<times> u8) list" where [token_defs, token_rows]:
  "as_tokens_r5 =
   [(''lda'', F_INSTR), (''ldx'', F_INSTR), (''ldy'', F_INSTR), (''let'', F_AKEYWORD),
    (''lii'', F_INSTR), (''list'', F_DIRECTIVE), (''long'', F_DIRECTIVE), (''lsr'', F_INSTR),
    (''macro'', F_AKEYWORD), (''message'', F_DIRECTIVE), (''messagenow'', F_DIRECTIVE), (''mod'', F_AKEYWORD OR F_OKEYWORD),
    (''module'', F_OKEYWORD), (''mpa'', F_INSTR), (''mpy'', F_INSTR), (''mvn'', F_INSTR)]"

definition as_tokens_r6 :: "(string \<times> u8) list" where [token_defs, token_rows]:
  "as_tokens_r6 =
   [(''mvp'', F_INSTR), (''neg'', F_INSTR), (''nil'', F_OKEYWORD), (''nop'', F_INSTR),
    (''null'', F_AKEYWORD), (''nxt'', F_INSTR), (''of'', F_OKEYWORD), (''or'', F_OKEYWORD),
    (''ora'', F_INSTR), (''page'', F_DIRECTIVE), (''pea'', F_INSTR), (''pei'', F_INSTR),
    (''per'', F_INSTR), (''pha'', F_INSTR), (''phb'', F_INSTR), (''phd'', F_INSTR)]"

definition as_tokens_r7 :: "(string \<times> u8) list" where [token_defs, token_rows]:
  "as_tokens_r7 =
   [(''phi'', F_INSTR), (''phk'', F_INSTR), (''php'', F_INSTR), (''phw'', F_INSTR),
    (''phx'', F_INSTR), (''phy'', F_INSTR), (''pia'', F_INSTR), (''pl'', F_DIRECTIVE),
    (''pla'', F_INSTR), (''plb'', F_INSTR), (''pld'', F_INSTR), (''pli'', F_INSTR),
    (''plp'', F_INSTR), (''plw'', F_INSTR), (''plx'', F_INSTR), (''ply'', F_INSTR)]"

definition as_tokens_r8 :: "(string \<times> u8) list" where [token_defs, token_rows]:
  "as_tokens_r8 =
   [(''pointer'', F_OKEYWORD), (''procedure'', F_OKEYWORD), (''psh'', F_INSTR), (''pul'', F_INSTR),
    (''pw'', F_DIRECTIVE), (''rba'', F_INSTR), (''record'', F_OKEYWORD), (''rep'', F_INSTR),
    (''repeat'', F_AKEYWORD OR F_OKEYWORD), (''return'', F_OKEYWORD), (''rmb'', F_INSTR), (''rnd'', F_INSTR),
    (''rol'', F_INSTR), (''ror'', F_INSTR), (''rti'', F_INSTR), (''rtl'', F_INSTR)]"

definition as_tokens_r9 :: "(string \<times> u8) list" where [token_defs, token_rows]:
  "as_tokens_r9 =
   [(''rts'', F_INSTR), (''s'', F_AKEYWORD), (''sba'', F_INSTR), (''sbc'', F_INSTR),
    (''sec'', F_INSTR), (''section'', F_DIRECTIVE), (''sed'', F_INSTR), (''segment'', F_DIRECTIVE),
    (''sei'', F_INSTR), (''sep'', F_INSTR), (''smb'', F_INSTR), (''sta'', F_INSTR),
    (''sti'', F_INSTR), (''stp'', F_INSTR), (''stx'', F_INSTR), (''sty'', F_INSTR)]"

definition as_tokens_r10 :: "(string \<times> u8) list" where [token_defs, token_rows]:
  "as_tokens_r10 =
   [(''stz'', F_INSTR), (''subheading'', F_DIRECTIVE), (''swa'', F_INSTR), (''tad'', F_INSTR),
    (''tas'', F_INSTR), (''taw'', F_INSTR), (''tax'', F_INSTR), (''tay'', F_INSTR),
    (''tcd'', F_INSTR), (''tcs'', F_INSTR), (''tda'', F_INSTR), (''tdc'', F_INSTR),
    (''text'', F_DIRECTIVE), (''then'', F_OKEYWORD), (''tip'', F_INSTR), (''title'', F_DIRECTIVE)]"

definition as_tokens_r11 :: "(string \<times> u8) list" where [token_defs, token_rows]:
  "as_tokens_r11 =
   [(''to'', F_OKEYWORD), (''top'', F_DIRECTIVE), (''trb'', F_INSTR), (''true'', F_OKEYWORD),
    (''tsa'', F_INSTR), (''tsb'', F_INSTR), (''tsc'', F_INSTR), (''tsx'', F_INSTR),
    (''twa'', F_INSTR), (''txa'', F_INSTR), (''txs'', F_INSTR), (''txy'', F_INSTR),
    (''tya'', F_INSTR), (''type'', F_OKEYWORD), (''tyx'', F_INSTR), (''until'', F_AKEYWORD OR F_OKEYWORD)]"

definition as_tokens_r12 :: "(string \<times> u8) list" where [token_defs, token_rows]:
  "as_tokens_r12 =
   [(''var'', F_AKEYWORD OR F_OKEYWORD), (''wai'', F_INSTR), (''wdm'', F_INSTR), (''while'', F_AKEYWORD OR F_OKEYWORD),
    (''word'', F_DIRECTIVE), (''x'', F_AKEYWORD), (''xba'', F_INSTR), (''xce'', F_INSTR),
    (''y'', F_AKEYWORD)]"

definition as_tokens_rows :: "(string \<times> u8) list list" where [token_defs]:
  "as_tokens_rows =
   [as_tokens_r0, as_tokens_r1, as_tokens_r2, as_tokens_r3, as_tokens_r4, as_tokens_r5,
    as_tokens_r6, as_tokens_r7, as_tokens_r8, as_tokens_r9, as_tokens_r10, as_tokens_r11,
    as_tokens_r12]"

definition as_tokens :: "(string \<times> u8) list" where [token_defs]:
  "as_tokens = concat as_tokens_rows"

text \<open>The \<open>TOK\<close> lines: tokens without a keyword text, named by the token itself.\<close>

definition other_tokens :: "string list" where [table_defs]:
  "other_tokens =
   [
''IDENT'', ''STATESEP'', ''BOOLEAN'', ''CHAR'', ''INTEGER'', ''REAL'',
    ''STRING'', ''BLOCKSTART'', ''BLOCKEND'', ''BECOMES'', ''PLUS'', ''MINUS'',
    ''LSQ'', ''RSQ'', ''LPAREN'', ''RPAREN'', ''TILDE'', ''NOT'',
    ''LAND'', ''LOR'', ''EQL'', ''NEQ'', ''LSS'', ''LEQ'',
    ''GTR'', ''GEQ'', ''CARET'', ''COMMA'', ''AST'', ''SLASH'',
    ''AMPERSAND'', ''BARC'', ''PERIOD'', ''DOTDOT'', ''ELLIPSIS'', ''HASH'',
    ''EOF'', ''COLON'', ''QUESTION'', ''MUL_ASN'', ''DIV_ASN'', ''MOD_ASN'',
    ''ADD_ASN'', ''SUB_ASN'', ''LEFT_ASN'', ''RIGHT_ASN'', ''AND_ASN'', ''XOR_ASN'',
    ''OR_ASN'', ''LEFT_SHIFT'', ''RIGHT_SHIFT'', ''INCOP'', ''DECOP'', ''PERCENT'']"

definition token_to_string :: "symbol \<Rightarrow> string" where
  "token_to_string v =
     (if v < length as_tokens then fst (as_tokens ! v)
      else if v < length as_tokens + length other_tokens
        then other_tokens ! (v - length as_tokens)
      else ''Unknown token'')"

text \<open>Look-up in the keyword table, one row of sixteen at a time.\<close>

lemma length_as_tokens: "length as_tokens = 201"
  by (simp add: token_defs)

lemma as_tokens_rows_nth [token_rows]:

  "as_tokens_rows ! 0 = as_tokens_r0"
  "as_tokens_rows ! Suc 0 = as_tokens_r1"
  "as_tokens_rows ! 2 = as_tokens_r2"
  "as_tokens_rows ! 3 = as_tokens_r3"
  "as_tokens_rows ! 4 = as_tokens_r4"
  "as_tokens_rows ! 5 = as_tokens_r5"
  "as_tokens_rows ! 6 = as_tokens_r6"
  "as_tokens_rows ! 7 = as_tokens_r7"
  "as_tokens_rows ! 8 = as_tokens_r8"
  "as_tokens_rows ! 9 = as_tokens_r9"
  "as_tokens_rows ! 10 = as_tokens_r10"
  "as_tokens_rows ! 11 = as_tokens_r11"
  "as_tokens_rows ! 12 = as_tokens_r12"
  by (simp_all add: as_tokens_rows_def)

lemma as_tokens_nth:
  assumes "n < 201" shows "as_tokens ! n = as_tokens_rows ! (n div 16) ! (n mod 16)"
proof -
  have "list_all (\<lambda>r. length r = 16) (butlast as_tokens_rows)" "length (last as_tokens_rows) \<le> 16"
    by (simp_all add: token_defs)
  with assms length_as_tokens show ?thesis
    unfolding as_tokens_def by (intro concat_nth_row) simp_all
qed

lemma token_to_string_row [token_rows]:
  "token_to_string v =
     (if v < 201 then fst (as_tokens_rows ! (v div 16) ! (v mod 16))
      else if v < 255 then other_tokens ! (v - 201) else ''Unknown token'')"
  by (simp add: token_to_string_def length_as_tokens as_tokens_nth other_tokens_def)

text \<open>
  The scanner's keyword tables after \<open>scanner_init\<close>: \<open>key[]\<close> holds the keywords and the
  sentinel \<open>"~"\<close>, \<open>symno[]\<close> the symbol of each, \<open>flags[]\<close> its flags (the sentinel's entry is
  the zero of the static array), and \<open>K\<close> counts the entries.
\<close>

definition key :: "string list" where
  "key = map fst as_tokens @ [''~'']"

definition symno :: "symbol list" where
  "symno = [0..<length as_tokens] @ [0]"

definition flags :: "u8 list" where
  "flags = map snd as_tokens @ [0]"

definition K :: nat where
  "K = length key"

definition NofKeys :: nat where
  "NofKeys = 202"

definition is_instr :: "symbol \<Rightarrow> bool" where
  "is_instr v = (v < K \<and> flags ! v AND F_INSTR \<noteq> 0)"

definition is_directive :: "symbol \<Rightarrow> bool" where
  "is_directive v = (v < K \<and> flags ! v AND F_DIRECTIVE \<noteq> 0)"

definition is_asm_keyword :: "symbol \<Rightarrow> bool" where
  "is_asm_keyword v = (v < K \<and> flags ! v AND F_AKEYWORD \<noteq> 0)"

lemma K_NofKeys: "K = NofKeys"
  by (simp add: K_def key_def NofKeys_def token_defs)

subsection \<open>Addressing modes, modifiers, instructions\<close>

datatype addr_mode =
    Absolute
  | Accumulator
  | AbsoluteIndexedX
  | AbsoluteIndexedY
  | AbsoluteLong
  | AbsoluteLongIndexedX
  | AbsoluteIndirect
  | AbsoluteIndexedIndirect
  | DirectPage
  | StackDirectPageIndirect
  | DirectPageIndexedX
  | DirectPageIndexedY
  | DirectPageIndirect
  | DirectPageIndirectLong
  | Implied
  | ProgramCounterRelative
  | ProgramCounterRelativeLong
  | AbsoluteIndirectLong
  | BlockMove
  | DirectPageIndexedIndirectX
  | DirectPageIndirectIndexedY
  | DirectPageIndirectLongIndexedY
  | Immediate
  | StackRelative
  | StackRelativeIndirectIndexedY
  | BitZeroPageRelative
  | BitZeroPage
  | BitAbsoluteRelative
  | BitAbsolute
  | ImmediateZeroPage

datatype modifier =
  MByte | MDirect | MAbsolute | MWord | MLong | MFloat | MDouble | MZero | MBit7 | MNone

record instr =
  opcode :: symbol
  mode :: addr_mode
  modifier :: modifier

fun mode_to_string :: "addr_mode \<Rightarrow> string" where
  "mode_to_string Absolute = ''Absolute''"
| "mode_to_string Accumulator = ''Accumulator''"
| "mode_to_string AbsoluteIndexedX = ''Absolute Indexed X''"
| "mode_to_string AbsoluteIndexedY = ''Absolute Indexed Y''"
| "mode_to_string AbsoluteLong = ''Absolute Long''"
| "mode_to_string AbsoluteLongIndexedX = ''Absolute Long Indexed X''"
| "mode_to_string AbsoluteIndirect = ''Absolute Indirect''"
| "mode_to_string AbsoluteIndirectLong = ''Absolute Indirect Long''"
| "mode_to_string AbsoluteIndexedIndirect = ''Absolute Indexed Indirect''"
| "mode_to_string BitAbsolute = ''Bit Absolute''"
| "mode_to_string BitAbsoluteRelative = ''Bit Absolute Relative''"
| "mode_to_string BitZeroPage = ''Bit Zero Page''"
| "mode_to_string BitZeroPageRelative = ''Bit Zero Page Relative''"
| "mode_to_string DirectPage = ''Direct Page''"
| "mode_to_string StackDirectPageIndirect = ''Stack Direct Page Indirect''"
| "mode_to_string DirectPageIndexedX = ''Direct Page Indexed X''"
| "mode_to_string DirectPageIndexedY = ''Direct Page Indexed Y''"
| "mode_to_string DirectPageIndirect = ''Direct Page Indirect''"
| "mode_to_string DirectPageIndirectLong = ''Direct Page Indirect Long''"
| "mode_to_string Implied = ''Implied''"
| "mode_to_string ImmediateZeroPage = ''ImmediateZeroPage''"
| "mode_to_string ProgramCounterRelative = ''Program Counter Relative''"
| "mode_to_string ProgramCounterRelativeLong = ''Program Counter Relative Long''"
| "mode_to_string BlockMove = ''Block Move''"
| "mode_to_string DirectPageIndexedIndirectX = ''Direct Page Indexed Indirect X''"
| "mode_to_string DirectPageIndirectIndexedY = ''Direct Page Indirect Indexed Y''"
| "mode_to_string DirectPageIndirectLongIndexedY = ''Direct Page Indirect Long Indexed Y''"
| "mode_to_string Immediate = ''Immediate''"
| "mode_to_string StackRelative = ''Stack Relative''"
| "mode_to_string StackRelativeIndirectIndexedY = ''Stack Relative Indirect IndexedY''"

text \<open>How many values the interpreter pops for an instruction (\<open>codegen_params\<close>).\<close>

fun mode_params :: "addr_mode \<Rightarrow> nat" where
  "mode_params Absolute = 1"
| "mode_params Accumulator = 0"
| "mode_params AbsoluteIndexedX = 1"
| "mode_params AbsoluteIndexedY = 1"
| "mode_params AbsoluteLong = 1"
| "mode_params AbsoluteLongIndexedX = 1"
| "mode_params AbsoluteIndirect = 1"
| "mode_params AbsoluteIndirectLong = 1"
| "mode_params AbsoluteIndexedIndirect = 1"
| "mode_params DirectPage = 1"
| "mode_params StackDirectPageIndirect = 1"
| "mode_params DirectPageIndexedX = 1"
| "mode_params DirectPageIndexedY = 1"
| "mode_params DirectPageIndirect = 1"
| "mode_params DirectPageIndirectLong = 1"
| "mode_params Implied = 0"
| "mode_params ProgramCounterRelative = 1"
| "mode_params ProgramCounterRelativeLong = 1"
| "mode_params BlockMove = 2"
| "mode_params DirectPageIndexedIndirectX = 1"
| "mode_params DirectPageIndirectIndexedY = 1"
| "mode_params DirectPageIndirectLongIndexedY = 1"
| "mode_params Immediate = 1"
| "mode_params StackRelative = 1"
| "mode_params StackRelativeIndirectIndexedY = 1"
| "mode_params BitZeroPageRelative = 3"
| "mode_params BitZeroPage = 2"
| "mode_params BitAbsoluteRelative = 3"
| "mode_params BitAbsolute = 2"
| "mode_params ImmediateZeroPage = 2"

definition codegen_params :: "instr \<Rightarrow> nat" where
  "codegen_params i = mode_params (mode i)"

end
