(* ===== verification/Vec.thy ===== *)
theory Vec
  imports Prelude
begin

text \<open>
  The growable arrays of the program. \<open>buf_add\<close> (shared/src/elf_file.c) and \<open>list_add\<close> /
  \<open>object_list_add\<close> (as-c/src/value.c) keep only a pointer and a count: the capacity is never
  stored, it is re-derived from the count, by doubling whenever the count is a power of two.

  The model makes the allocation explicit: \<open>cap\<close> is the size of the block \<open>as_realloc\<close> last
  returned, \<open>items\<close> the elements in use (their number is the C count), and \<open>oob\<close> records that a
  store went past the end of the block, which is undefined behaviour in C. \<open>as_realloc\<close> itself
  is taken to succeed.
\<close>

record 'a vec =
  cap :: nat
  items :: "'a list"
  oob :: bool

definition vec_empty :: "'a vec" where
  "vec_empty = \<lparr>cap = 0, items = [], oob = False\<rparr>"

subsection \<open>The operations\<close>

text \<open>The test \<open>(num & (num - 1)) == 0\<close>.\<close>

definition doubles :: "nat \<Rightarrow> bool" where
  "doubles num = (int num AND (int num - 1) = 0)"

text \<open>
  \<open>while (num_alloc < num + size) num_alloc = num_alloc * 2\<close>. The loop starts from 1 or from
  \<open>num * 2\<close> with \<open>num\<close> not 0, so the test \<open>0 < a\<close>, needed for termination only, always holds.
\<close>

function grow :: "nat \<Rightarrow> nat \<Rightarrow> nat" where
  "grow a wanted = (if a < wanted \<and> 0 < a then grow (a * 2) wanted else a)"
  by pat_completeness auto
termination
  by (relation "measure (\<lambda>(a, wanted). wanted - a)") auto

declare grow.simps [simp del]

definition buf_add :: "'a list \<Rightarrow> 'a vec \<Rightarrow> 'a vec" where
  "buf_add data b =
     (let num = length (items b);
          room = (if doubles num
                  then grow (if num \<noteq> 0 then num * 2 else 1) (num + length data)
                  else cap b)
      in \<lparr>cap = room, items = items b @ data,
          oob = (oob b \<or> room < num + length data)\<rparr>)"

text \<open>
  The typed entry points copy the object representation, which is little-endian on the hosts
  the tools run on (the code relies on it when it writes ELF headers with \<open>write\<close>).
\<close>

definition buf_add_char :: "u8 \<Rightarrow> u8 vec \<Rightarrow> u8 vec" where
  "buf_add_char c b = buf_add [c] b"

definition buf_add_short :: "u16 \<Rightarrow> u8 vec \<Rightarrow> u8 vec" where
  "buf_add_short v b = buf_add [ucast v, ucast (drop_bit 8 v)] b"

definition buf_add_int :: "u32 \<Rightarrow> u8 vec \<Rightarrow> u8 vec" where
  "buf_add_int v b = buf_add [byte_at 0 v, byte_at 1 v, byte_at 2 v, byte_at 3 v] b"

definition buf_reset :: "u8 vec \<Rightarrow> u8 vec" where
  "buf_reset b = vec_empty\<lparr>oob := oob b\<rparr>"

text \<open>\<open>list_add\<close> and \<open>object_list_add\<close>: the same scheme, one pointer at a time.\<close>

definition list_add :: "'a \<Rightarrow> 'a vec \<Rightarrow> 'a vec" where
  "list_add x b =
     (let num = length (items b);
          room = (if doubles num then (if num \<noteq> 0 then num * 2 else 1) else cap b)
      in \<lparr>cap = room, items = items b @ [x], oob = (oob b \<or> room < num + 1)\<rparr>)"

subsection \<open>Powers of two\<close>

lemma doubles_power: "doubles (2 ^ k)"
proof -
  have "int (2 ^ k) AND (int (2 ^ k) - 1) = (2 ^ k) AND mask k"
    by (simp add: mask_eq_exp_minus_1)
  also have "\<dots> = take_bit k (2 ^ k)" by (simp add: take_bit_eq_mask)
  also have "\<dots> = 0" by simp
  finally show ?thesis by (simp add: doubles_def)
qed

lemma doubles_0 [simp]: "doubles 0"
  by (simp add: doubles_def)

lemma doubles_half:
  assumes "doubles (2 * m)" and "0 < m" shows "doubles m"
proof -
  have "(2 * int m - 1) div 2 = int m - 1" by presburger
  then have "(2 * int m) AND (2 * int m - 1) = 2 * (int m AND (int m - 1))"
    by (subst and_int_rec) simp
  then show ?thesis using assms by (simp add: doubles_def)
qed

lemma doubles_odd:
  assumes "doubles (2 * m + 1)" shows "m = 0"
proof -
  have "(2 * int m + 1) AND (2 * int m) = 2 * (int m AND int m)"
    by (subst and_int_rec) simp
  moreover have "int (2 * m + 1) - 1 = 2 * int m" by simp
  ultimately show ?thesis using assms unfolding doubles_def
    by (metis and.idem mult_eq_0_iff of_nat_0_eq_iff of_nat_Suc of_nat_add of_nat_mult
        of_nat_numeral of_nat_1 zero_neq_numeral)
qed

lemma doubles_imp_power: "doubles n \<Longrightarrow> 0 < n \<Longrightarrow> \<exists>k. n = 2 ^ k"
proof (induction n rule: less_induct)
  case (less n)
  show ?case
  proof (cases "even n")
    case True
    then obtain m where m: "n = 2 * m" by blast
    with less.prems have "doubles m" "0 < m" "m < n" by (auto intro: doubles_half)
    with less.IH obtain k where "m = 2 ^ k" by blast
    with m have "n = 2 ^ Suc k" by simp
    then show ?thesis by blast
  next
    case False
    then obtain m where "n = 2 * m + 1" using oddE by blast
    with less.prems have "n = 2 ^ 0" using doubles_odd by auto
    then show ?thesis by blast
  qed
qed

lemma grow_ge: "0 < a \<Longrightarrow> wanted \<le> grow a wanted"
  by (induction a wanted rule: grow.induct) (subst grow.simps, auto)

lemma grow_power: "\<exists>k. a = 2 ^ k \<Longrightarrow> \<exists>k. grow a wanted = 2 ^ k"
proof (induction a wanted rule: grow.induct)
  case (1 a wanted)
  have "\<exists>k. a * 2 = 2 ^ k" using 1(2) by (metis power_Suc2)
  with 1 show ?case by (subst grow.simps) auto
qed

subsection \<open>The invariant of a growable array\<close>

definition vec_ok :: "'a vec \<Rightarrow> bool" where
  "vec_ok b \<longleftrightarrow> \<not> oob b \<and> length (items b) \<le> cap b \<and> (cap b = 0 \<or> (\<exists>k. cap b = 2 ^ k))"

lemma vec_ok_empty: "vec_ok vec_empty"
  by (simp add: vec_ok_def vec_empty_def)

lemma vec_ok_not_oob: "vec_ok b \<Longrightarrow> \<not> oob b"
  by (simp add: vec_ok_def)

lemma vec_ok_reset: "vec_ok b \<Longrightarrow> vec_ok (buf_reset b)"
  by (simp add: vec_ok_def buf_reset_def vec_empty_def)

lemma room_at_double:
  assumes "doubles n"
  shows "\<exists>k. (if n \<noteq> 0 then n * 2 else 1) = 2 ^ (k :: nat)"
  using doubles_imp_power [OF assms] power_0 [of "2::nat"]
  by (metis gr0I power_Suc2)

lemma full_doubles:
  assumes "vec_ok b" and "length (items b) = cap b" shows "doubles (cap b)"
  using assms doubles_power by (auto simp: vec_ok_def)

lemma items_list_add [simp]: "items (list_add x b) = items b @ [x]"
  by (simp add: list_add_def Let_def)

lemma vec_ok_list_add: "vec_ok b \<Longrightarrow> vec_ok (list_add x b)"
proof -
  assume ok: "vec_ok b"
  let ?n = "length (items b)"
  show ?thesis
  proof (cases "doubles ?n")
    case True
    then show ?thesis
      using ok room_at_double [OF True]
      by (auto simp: vec_ok_def list_add_def Let_def Suc_le_eq)
  next
    case False
    with ok full_doubles [OF ok] have "?n < cap b"
      by (cases "?n = cap b") (auto simp: vec_ok_def)
    with False ok show ?thesis by (auto simp: vec_ok_def list_add_def Let_def)
  qed
qed

lemma items_buf_add [simp]: "items (buf_add data b) = items b @ data"
  by (simp add: buf_add_def Let_def)

lemma grow_one: "0 < a \<Longrightarrow> wanted \<le> a \<Longrightarrow> grow a wanted = a"
  by (subst grow.simps) simp

lemma buf_add_char_list_add: "buf_add_char c b = list_add c b"
  by (cases "items b") (auto simp: buf_add_char_def buf_add_def list_add_def Let_def grow_one)

text \<open>
  The interface the users of these arrays rely on: what a push does to the contents, and that
  an array that has only ever been pushed to one element at a time stays within its block.
\<close>

locale growable =
  fixes push :: "'a \<Rightarrow> 'v \<Rightarrow> 'v"
    and contents :: "'v \<Rightarrow> 'a list"
    and within :: "'v \<Rightarrow> bool"
  assumes contents_push: "within v \<Longrightarrow> contents (push x v) = contents v @ [x]"
    and within_push: "within v \<Longrightarrow> within (push x v)"
begin

lemma within_fold: "within v \<Longrightarrow> within (fold push xs v)"
  by (induction xs arbitrary: v) (simp_all add: within_push)

lemma contents_fold: "within v \<Longrightarrow> contents (fold push xs v) = contents v @ xs"
  by (induction xs arbitrary: v) (simp_all add: contents_push within_push)

lemma length_fold:
  "within v \<Longrightarrow> length (contents (fold push xs v)) = length (contents v) + length xs"
  by (simp add: contents_fold)

end

interpretation ptrs: growable list_add items vec_ok
  by unfold_locales (auto intro: vec_ok_list_add)

interpretation bytes: growable buf_add_char items vec_ok
  by unfold_locales (auto simp: buf_add_char_list_add intro: vec_ok_list_add)

end
