(* ===== verification/Codegen.thy ===== *)
theory Codegen
  imports Cpu Vec
begin

text \<open>
  \<open>shared/src/codegen.c\<close>: the code generator's state and its byte emitters.

  The C file keeps its state in globals (\<open>addr\<close>, \<open>longa\<close>, \<open>longi\<close>, \<open>relocC\<close>/\<open>reloc[]\<close>,
  \<open>codegen_current_pass\<close>), in the current \<open>section\<close> and in the ELF header's \<open>e_machine\<close>; all of
  them are fields of the record \<open>cg\<close>, which every operation takes and returns. The array
  \<open>reloc[]\<close> and its count are one list. The messages of \<open>as_gen_error\<close> and \<open>as_gen_warn\<close>, which
  go to the terminal, are the list \<open>log\<close>, oldest first.
\<close>

subsection \<open>Sections\<close>

record elf_section =
  sh_type :: u32
  sh_flags :: u32
  sh_addr :: u32
  data :: "u8 vec"

definition SHT_PROGBITS :: u32 where "SHT_PROGBITS = 1"
definition SHT_NOBITS :: u32 where "SHT_NOBITS = 8"
definition SHF_WRITE :: u32 where "SHF_WRITE = 1"
definition SHF_ALLOC :: u32 where "SHF_ALLOC = 2"
definition SHF_EXECINSTR :: u32 where "SHF_EXECINSTR = 4"

definition section_is_text :: "elf_section \<Rightarrow> bool" where
  "section_is_text s = (sh_type s AND SHT_PROGBITS \<noteq> 0)"

definition section_is_code :: "elf_section \<Rightarrow> bool" where
  "section_is_code s = (section_is_text s \<and> sh_flags s AND SHF_EXECINSTR \<noteq> 0)"

definition section_is_rodata :: "elf_section \<Rightarrow> bool" where
  "section_is_rodata s = (section_is_text s \<and> sh_flags s AND SHF_WRITE = 0)"

definition section_is_data :: "elf_section \<Rightarrow> bool" where
  "section_is_data s = (section_is_text s \<and> sh_flags s AND SHF_WRITE \<noteq> 0)"

definition section_is_bss :: "elf_section \<Rightarrow> bool" where
  "section_is_bss s = (sh_type s AND SHT_NOBITS \<noteq> 0)"

definition sh_size :: "elf_section \<Rightarrow> nat" where
  "sh_size s = length (items (data s))"

subsection \<open>State\<close>

datatype diag =
    BranchOutOfRange
  | LongBranchOutOfRange
  | BraPromoted u32
  | BrlDemoted u32
  | NotSupported string string string

definition diag_is_error :: "diag \<Rightarrow> bool" where
  "diag_is_error d = (case d of BraPromoted _ \<Rightarrow> False | BrlDemoted _ \<Rightarrow> False | _ \<Rightarrow> True)"

record cg =
  addr :: u64
  longa :: bool
  longi :: bool
  reloc :: "u16 list"
  current_pass :: int
  e_machine :: u16
  sec :: elf_section
  log :: "diag list"

definition maxReloc :: nat where "maxReloc = 1024"

definition report :: "diag \<Rightarrow> cg \<Rightarrow> cg" where
  "report d s = s\<lparr>log := log s @ [d]\<rparr>"

definition codegen_here :: "cg \<Rightarrow> u64" where
  "codegen_here s = addr s"

definition codegen_addr :: "u64 \<Rightarrow> cg \<Rightarrow> cg" where
  "codegen_addr a s = s\<lparr>addr := a, sec := (sec s)\<lparr>sh_addr := ucast a\<rparr>, reloc := []\<rparr>"

definition codegen_setlonga :: "bool \<Rightarrow> cg \<Rightarrow> cg" where
  "codegen_setlonga l s = s\<lparr>longa := l\<rparr>"

definition codegen_setlongi :: "bool \<Rightarrow> cg \<Rightarrow> cg" where
  "codegen_setlongi l s = s\<lparr>longi := l\<rparr>"

subsection \<open>Reading and patching emitted code\<close>

text \<open>
  \<open>section->data[addr - section->shdr->sh_addr]\<close>; an index outside the bytes in use reads or
  writes memory the section does not own, which is \<open>None\<close> here.
\<close>

definition data_index :: "u64 \<Rightarrow> cg \<Rightarrow> nat" where
  "data_index a s = unat (a - ucast (sh_addr (sec s)))"

definition get_data :: "nat \<Rightarrow> cg \<Rightarrow> u8 option" where
  "get_data i s =
     (if i < sh_size (sec s) then Some (items (data (sec s)) ! i) else None)"

definition put_data :: "nat \<Rightarrow> u8 \<Rightarrow> cg \<Rightarrow> cg option" where
  "put_data i b s =
     (if i < sh_size (sec s)
      then Some (s\<lparr>sec := (sec s)\<lparr>data := (data (sec s))\<lparr>items := (items (data (sec s)))[i := b]\<rparr>\<rparr>\<rparr>)
      else None)"

definition codegen_getb :: "u64 \<Rightarrow> cg \<Rightarrow> u32 option" where
  "codegen_getb a s =
     (if \<not> section_is_bss (sec s) then map_option ucast (get_data (data_index a s) s)
      else Some 0)"

definition codegen_getw :: "u64 \<Rightarrow> cg \<Rightarrow> u32 option" where
  "codegen_getw a s =
     (if \<not> section_is_bss (sec s)
      then (case (get_data (data_index a s) s, get_data (data_index a s + 1) s) of
              (Some l, Some h) \<Rightarrow> Some (ucast l + push_bit 8 (ucast h))
            | _ \<Rightarrow> None)
      else Some 0)"

definition codegen_updateb :: "u64 \<Rightarrow> u32 \<Rightarrow> cg \<Rightarrow> cg option" where
  "codegen_updateb a b s =
     (if \<not> section_is_bss (sec s) then put_data (data_index a s) (ucast b) s else Some s)"

text \<open>The low byte is \<open>w && 0xff\<close>, a logical and: 1 or 0, not the low eight bits.\<close>

definition codegen_updatew :: "u64 \<Rightarrow> u32 \<Rightarrow> cg \<Rightarrow> cg option" where
  "codegen_updatew a w s =
     (if \<not> section_is_bss (sec s)
      then Option.bind (put_data (data_index a s) (if w \<noteq> 0 then 1 else 0) s)
             (put_data (data_index a s + 1) (byte_at 1 w))
      else Some s)"

subsection \<open>The emitters\<close>

text \<open>\<open>o\<close> is infix syntax in HOL, so the C function \<open>o\<close> is \<open>o_byte\<close>, and \<open>or\<close> is \<open>orel\<close>.\<close>

definition o_byte :: "u8 \<Rightarrow> cg \<Rightarrow> cg" where
  "o_byte b s =
     s\<lparr>sec := (if \<not> section_is_bss (sec s)
               then (sec s)\<lparr>data := buf_add_char b (data (sec s))\<rparr> else sec s),
       addr := addr s + 1\<rparr>"

definition ob :: "u8 \<Rightarrow> u32 \<Rightarrow> cg \<Rightarrow> cg" where
  "ob op v s = o_byte (ucast (v AND 0xff)) (o_byte op s)"

definition odp :: "u8 \<Rightarrow> u32 \<Rightarrow> cg \<Rightarrow> cg" where
  "odp op v s = ob op v s"

definition ow :: "u8 \<Rightarrow> u32 \<Rightarrow> cg \<Rightarrow> cg" where
  "ow op v s = o_byte (byte_at 1 v) (o_byte (ucast (v AND 0xff)) (o_byte op s))"

definition oabs :: "u8 \<Rightarrow> u32 \<Rightarrow> cg \<Rightarrow> cg" where
  "oabs op v s = ow op v s"

definition ol :: "u8 \<Rightarrow> u32 \<Rightarrow> cg \<Rightarrow> cg" where
  "ol op v s =
     o_byte (byte_at 2 v) (o_byte (byte_at 1 v) (o_byte (ucast (v AND 0xff)) (o_byte op s)))"

definition olong :: "u8 \<Rightarrow> u32 \<Rightarrow> cg \<Rightarrow> cg" where
  "olong op v s = ol op v s"

definition om :: "u8 \<Rightarrow> u32 \<Rightarrow> bool \<Rightarrow> cg \<Rightarrow> cg" where
  "om op v b s =
     (let s1 = o_byte (ucast (v AND 0xff)) (o_byte op s)
      in if b then o_byte (byte_at 1 v) s1 else s1)"

text \<open>\<open>int r = v - (addr + k)\<close>: a \<open>long\<close> subtraction truncated to \<open>int\<close>.\<close>

definition displacement :: "nat \<Rightarrow> u32 \<Rightarrow> u64 \<Rightarrow> u32" where
  "displacement k v a = ucast (scast v - (a + of_nat k))"

definition out_of_range8 :: "u32 \<Rightarrow> bool" where
  "out_of_range8 r = (sint r > 127 \<or> sint r < - 128)"

definition out_of_range16 :: "u32 \<Rightarrow> bool" where
  "out_of_range16 r = (sint r > 32767 \<or> sint r < - 32768)"

definition range_error :: "bool \<Rightarrow> diag \<Rightarrow> cg \<Rightarrow> cg" where
  "range_error bad d s = (if bad then (if current_pass s \<le> 0 then report d s else s) else s)"

definition orel :: "u8 \<Rightarrow> u32 \<Rightarrow> cg \<Rightarrow> cg" where
  "orel op v s =
     (let s1 = o_byte op s;
          r = displacement 1 v (addr s1);
          s2 = range_error (out_of_range8 r) BranchOutOfRange s1
      in o_byte (ucast (r AND 0xff)) s2)"

definition orl :: "u8 \<Rightarrow> u32 \<Rightarrow> cg \<Rightarrow> cg" where
  "orl op v s =
     (let s1 = o_byte op s;
          r = displacement 2 v (addr s1);
          s2 = range_error (out_of_range16 r) LongBranchOutOfRange s1
      in o_byte (byte_at 1 r) (o_byte (ucast (r AND 0xff)) s2))"

definition omove :: "u8 \<Rightarrow> u32 \<Rightarrow> u32 \<Rightarrow> cg \<Rightarrow> cg" where
  "omove op src dst s = o_byte (byte_at 2 src) (o_byte (byte_at 2 dst) (o_byte op s))"

definition obita :: "u8 \<Rightarrow> u32 \<Rightarrow> u32 \<Rightarrow> cg \<Rightarrow> cg" where
  "obita op msk ad s =
     o_byte (byte_at 1 ad) (o_byte (ucast (ad AND 0xff)) (o_byte (ucast msk) (o_byte op s)))"

definition obitar :: "u8 \<Rightarrow> u32 \<Rightarrow> u32 \<Rightarrow> u32 \<Rightarrow> cg \<Rightarrow> cg" where
  "obitar op m msk v s =
     (let s1 = o_byte (byte_at 1 m) (o_byte (ucast (m AND 0xff)) (o_byte (ucast msk) (o_byte op s)));
          r = displacement 1 v (addr s1);
          s2 = range_error (out_of_range8 r) BranchOutOfRange s1
      in o_byte (ucast (r AND 0xff)) s2)"

definition oiz :: "u8 \<Rightarrow> u32 \<Rightarrow> u32 \<Rightarrow> cg \<Rightarrow> cg" where
  "oiz op imm m s = o_byte (ucast (m AND 0xff)) (o_byte (ucast (imm AND 0xff)) (o_byte op s))"

text \<open>\<open>op | bit << 4\<close>, truncated by the \<open>uint8_t\<close> parameter of \<open>o\<close>.\<close>

definition op_bit :: "u8 \<Rightarrow> u32 \<Rightarrow> u8" where
  "op_bit op bt = ucast (ucast op OR push_bit 4 bt)"

definition obitzr :: "u8 \<Rightarrow> u32 \<Rightarrow> u32 \<Rightarrow> u32 \<Rightarrow> cg \<Rightarrow> cg" where
  "obitzr op bt m v s =
     (let s1 = o_byte (ucast (m AND 0xff)) (o_byte (op_bit op bt) s);
          r = displacement 1 v (addr s1);
          s2 = range_error (out_of_range8 r) BranchOutOfRange s1
      in o_byte (ucast (r AND 0xff)) s2)"

definition codegen_byte :: "u32 \<Rightarrow> cg \<Rightarrow> cg" where
  "codegen_byte b s = o_byte (ucast (b AND 0xff)) s"

definition codegen_word :: "u32 \<Rightarrow> cg \<Rightarrow> cg" where
  "codegen_word w s = o_byte (byte_at 1 w) (o_byte (ucast (w AND 0xff)) s)"

definition codegen_long :: "u32 \<Rightarrow> cg \<Rightarrow> cg" where
  "codegen_long l s =
     o_byte (ucast (signed_drop_bit 24 l AND 0xff))
       (o_byte (ucast (signed_drop_bit 16 l AND 0xff))
         (o_byte (ucast (signed_drop_bit 8 l AND 0xff)) (o_byte (ucast (l AND 0xff)) s)))"

end
