(* ===== verification/Emit.thy ===== *)
theory Emit
  imports Codegen
begin

text \<open>
  How a \<open>gen_*\<close> function of \<open>shared/src\<close> is modelled, and what every emitter does.

  Each of these functions is a switch over the opcode of switches over the mode, whose arms are
  single calls of an emitter with constant opcode byte. The model keeps the two switches as
  a \<open>switch_table\<close>: for every \<open>case s...:\<close> block its arms \<open>(mode, call)\<close> in the source's order,
  and how the block ends. A \<open>call\<close> names the emitter of \<open>Codegen\<close> that the arm calls and its
  opcode byte; \<open>run_call\<close> performs it. The table form keeps the model executable and lets a
  property of all instructions of a processor be checked arm by arm.
\<close>

subsection \<open>Emitter calls\<close>

datatype call =
    OBYTE u8      \<comment> \<open>\<open>o(op)\<close>\<close>
  | OBits u8    \<comment> \<open>\<open>o(op | value1 << 4)\<close>\<close>
  | OB u8       \<comment> \<open>\<open>ob(op, value1)\<close>\<close>
  | OBBits u8   \<comment> \<open>\<open>ob(op | value2 << 4, value1)\<close>\<close>
  | ODP u8      \<comment> \<open>\<open>odp(op, value1)\<close>\<close>
  | OW u8       \<comment> \<open>\<open>ow(op, value1)\<close>\<close>
  | OABS u8     \<comment> \<open>\<open>oabs(op, value1)\<close>\<close>
  | OL u8       \<comment> \<open>\<open>ol(op, value1)\<close>\<close>
  | OLONG u8    \<comment> \<open>\<open>olong(op, value1)\<close>\<close>
  | OMA u8      \<comment> \<open>\<open>om(op, value1, longa)\<close>\<close>
  | OMI u8      \<comment> \<open>\<open>om(op, value1, longi)\<close>\<close>
  | OREL u8      \<comment> \<open>\<open>or(filename, line_num, op, value1)\<close>\<close>
  | ORL u8      \<comment> \<open>\<open>orl(filename, line_num, op, value1)\<close>\<close>
  | OMOVE u8    \<comment> \<open>\<open>omove(op, value2, value1)\<close>\<close>
  | OBITA u8    \<comment> \<open>\<open>obita(filename, line_num, op, value2, value1)\<close>\<close>
  | OBITAR u8   \<comment> \<open>\<open>obitar(filename, line_num, op, value3, value2, value1)\<close>\<close>
  | OBITZR u8   \<comment> \<open>\<open>obitzr(filename, line_num, op, value3, value2, value1)\<close>\<close>
  | OIZ u8      \<comment> \<open>\<open>oiz(op, value2, value1)\<close>\<close>
  | OL_RELOC u8 \<comment> \<open>\<open>if (relocC < maxReloc) reloc[relocC++] = addr; ol(op, value1)\<close>\<close>
  | OW_RELOC u8 \<comment> \<open>\<open>if (relocC < maxReloc) reloc[relocC++] = addr; ow(op, value1)\<close>\<close>
  | BRA_816     \<comment> \<open>the body of the 65C816 \<open>BRA\<close> arm\<close>
  | BRL_816     \<comment> \<open>the body of the 65C816 \<open>BRL\<close> arm\<close>

definition add_reloc :: "cg \<Rightarrow> cg" where
  "add_reloc s =
     (if length (reloc s) < maxReloc then s\<lparr>reloc := reloc s @ [ucast (addr s)]\<rparr> else s)"

definition bra_816 :: "u32 \<Rightarrow> cg \<Rightarrow> cg" where
  "bra_816 v s =
     (let r = displacement 1 v (addr s)
      in if out_of_range8 r then orl 0x82 v (report (BraPromoted v) s) else orel 0x80 v s)"

definition brl_816 :: "u32 \<Rightarrow> cg \<Rightarrow> cg" where
  "brl_816 v s =
     (let r = displacement 1 v (addr s)
      in if out_of_range8 r then orl 0x82 v s else orel 0x80 v (report (BrlDemoted v) s))"

fun run_call :: "call \<Rightarrow> u32 \<Rightarrow> u32 \<Rightarrow> u32 \<Rightarrow> cg \<Rightarrow> cg" where
  "run_call (OBYTE op) v1 v2 v3 s = o_byte op s"
| "run_call (OBits op) v1 v2 v3 s = o_byte (op_bit op v1) s"
| "run_call (OB op) v1 v2 v3 s = ob op v1 s"
| "run_call (OBBits op) v1 v2 v3 s = ob (op_bit op v2) v1 s"
| "run_call (ODP op) v1 v2 v3 s = odp op v1 s"
| "run_call (OW op) v1 v2 v3 s = ow op v1 s"
| "run_call (OABS op) v1 v2 v3 s = oabs op v1 s"
| "run_call (OL op) v1 v2 v3 s = ol op v1 s"
| "run_call (OLONG op) v1 v2 v3 s = olong op v1 s"
| "run_call (OMA op) v1 v2 v3 s = om op v1 (longa s) s"
| "run_call (OMI op) v1 v2 v3 s = om op v1 (longi s) s"
| "run_call (OREL op) v1 v2 v3 s = orel op v1 s"
| "run_call (ORL op) v1 v2 v3 s = orl op v1 s"
| "run_call (OMOVE op) v1 v2 v3 s = omove op v2 v1 s"
| "run_call (OBITA op) v1 v2 v3 s = obita op v2 v1 s"
| "run_call (OBITAR op) v1 v2 v3 s = obitar op v3 v2 v1 s"
| "run_call (OBITZR op) v1 v2 v3 s = obitzr op v3 v2 v1 s"
| "run_call (OIZ op) v1 v2 v3 s = oiz op v2 v1 s"
| "run_call (OL_RELOC op) v1 v2 v3 s = ol op v1 (add_reloc s)"
| "run_call (OW_RELOC op) v1 v2 v3 s = ow op v1 (add_reloc s)"
| "run_call BRA_816 v1 v2 v3 s = bra_816 v1 s"
| "run_call BRL_816 v1 v2 v3 s = brl_816 v1 s"

subsection \<open>Switch tables\<close>

text \<open>
  \<open>Sw arms\<close> is a block ending in \<open>default: break\<close>, which leads to the "not supported" error
  after the switch; \<open>SwRet arms\<close> ends in \<open>default: return\<close> and says nothing; \<open>SwNZ arms\<close>
  starts with \<open>if (value1 == 0) return;\<close> and otherwise is like \<open>Sw\<close>.
\<close>

datatype block =
    Sw (arms: "(addr_mode \<times> call) list")
  | SwRet (arms: "(addr_mode \<times> call) list")
  | SwNZ (arms: "(addr_mode \<times> call) list")

type_synonym switch_table = "(symbol \<times> block) list"

datatype outcome = Emit call | Quiet | Unsupported

definition select_arm :: "(addr_mode \<times> call) list \<Rightarrow> addr_mode \<Rightarrow> outcome \<Rightarrow> outcome" where
  "select_arm cs m dflt = (case map_of cs m of Some c \<Rightarrow> Emit c | None \<Rightarrow> dflt)"

fun select_block :: "block \<Rightarrow> addr_mode \<Rightarrow> u32 \<Rightarrow> outcome" where
  "select_block (Sw cs) m v1 = select_arm cs m Unsupported"
| "select_block (SwRet cs) m v1 = select_arm cs m Quiet"
| "select_block (SwNZ cs) m v1 = (if v1 = 0 then Quiet else select_arm cs m Unsupported)"

definition select :: "switch_table \<Rightarrow> symbol \<Rightarrow> addr_mode \<Rightarrow> u32 \<Rightarrow> outcome" where
  "select t op m v1 =
     (case map_of t op of None \<Rightarrow> Unsupported | Some b \<Rightarrow> select_block b m v1)"

definition run_table ::
    "string \<Rightarrow> switch_table \<Rightarrow> instr \<Rightarrow> addr_mode \<Rightarrow> u32 \<Rightarrow> u32 \<Rightarrow> u32 \<Rightarrow> cg \<Rightarrow> cg" where
  "run_table cpu t i m v1 v2 v3 s =
     (case select t (opcode i) m v1 of
        Emit c \<Rightarrow> run_call c v1 v2 v3 s
      | Quiet \<Rightarrow> s
      | Unsupported \<Rightarrow>
          report (NotSupported (token_to_string (opcode i)) (mode_to_string m) cpu) s)"

text \<open>A property of every call of a table, checked arm by arm.\<close>

definition all_calls :: "(symbol \<Rightarrow> addr_mode \<Rightarrow> call \<Rightarrow> bool) \<Rightarrow> switch_table \<Rightarrow> bool" where
  "all_calls P t = list_all (\<lambda>(op, b). list_all (\<lambda>(m, c). P op m c) (arms b)) t"

lemma select_all_calls:
  assumes "select t op m v1 = Emit c" and "all_calls P t"
  shows "P op m c"
proof -
  from assms(1) obtain b where b: "map_of t op = Some b" and c: "map_of (arms b) m = Some c"
    by (auto simp: select_def select_arm_def split: option.splits if_splits
        elim!: select_block.elims)
  from assms(2) have "list_all (\<lambda>(op, b). list_all (\<lambda>(m, c). P op m c) (arms b)) t"
    by (simp add: all_calls_def)
  with b have "list_all (\<lambda>(m, c). P op m c) (arms b)" by (rule map_of_all)
  with c show ?thesis by (rule map_of_all)
qed

end
