(* ===== verification/Emission.thy ===== *)
theory Emission
  imports Emit
begin

text \<open>
  What the emitters do to the code generator's state, stated once. \<open>call_bytes\<close> is the byte
  string an arm's call writes and \<open>note_call\<close> what it records besides (messages, relocations);
  \<open>run_call_bytes\<close> shows that performing the call is exactly recording and then writing that
  string. The locale \<open>byte_sink\<close> is the interface the rest relies on: a sink of bytes with a
  position counter.
\<close>

subsection \<open>The state as a byte sink\<close>

locale byte_sink = growable put out live
  for put :: "u8 \<Rightarrow> 's \<Rightarrow> 's" and out :: "'s \<Rightarrow> u8 list" and live :: "'s \<Rightarrow> bool" +
  fixes pos :: "'s \<Rightarrow> u64"
  assumes pos_put: "pos (put b s) = pos s + 1"
begin

lemma pos_fold: "pos (fold put bs s) = pos s + of_nat (length bs)"
  by (induction bs arbitrary: s) (simp_all add: pos_put)

text \<open>In a live sink the position moves with the output.\<close>

lemma pos_out:
  assumes "live s"
  shows "pos (fold put bs s) - of_nat (length (out (fold put bs s))) =
         pos s - of_nat (length (out s))"
  using assms by (simp add: pos_fold length_fold)

end

definition code_of :: "cg \<Rightarrow> u8 list" where
  "code_of s = items (data (sec s))"

text \<open>Bytes are stored when the section is not \<open>bss\<close>, into an array still within its block.\<close>

definition storing :: "cg \<Rightarrow> bool" where
  "storing s \<longleftrightarrow> \<not> section_is_bss (sec s) \<and> vec_ok (data (sec s))"

lemma o_byte_fields [simp]:
  "addr (o_byte b s) = addr s + 1"
  "longa (o_byte b s) = longa s"
  "longi (o_byte b s) = longi s"
  "reloc (o_byte b s) = reloc s"
  "current_pass (o_byte b s) = current_pass s"
  "e_machine (o_byte b s) = e_machine s"
  "log (o_byte b s) = log s"
  "section_is_bss (sec (o_byte b s)) = section_is_bss (sec s)"
  "sh_addr (sec (o_byte b s)) = sh_addr (sec s)"
  "sh_type (sec (o_byte b s)) = sh_type (sec s)"
  "sh_flags (sec (o_byte b s)) = sh_flags (sec s)"
  by (simp_all add: o_byte_def section_is_bss_def)

interpretation sink: byte_sink o_byte code_of storing addr
proof unfold_locales
  show "code_of (o_byte b s) = code_of s @ [b]" if "storing s" for b s
    using that by (simp add: o_byte_def code_of_def storing_def buf_add_char_list_add)
  show "storing (o_byte b s)" if "storing s" for b s
    using that
    by (auto simp: o_byte_def storing_def section_is_bss_def buf_add_char_list_add
        intro: vec_ok_list_add)
  show "addr (o_byte b s) = addr s + 1" for b s by simp
qed

lemma fold_o_byte_fields [simp]:
  "longa (fold o_byte bs s) = longa s"
  "longi (fold o_byte bs s) = longi s"
  "reloc (fold o_byte bs s) = reloc s"
  "current_pass (fold o_byte bs s) = current_pass s"
  "e_machine (fold o_byte bs s) = e_machine s"
  "log (fold o_byte bs s) = log s"
  "section_is_bss (sec (fold o_byte bs s)) = section_is_bss (sec s)"
  "sh_addr (sec (fold o_byte bs s)) = sh_addr (sec s)"
  by (induction bs arbitrary: s) simp_all

text \<open>A \<open>bss\<close> section only moves its address.\<close>

lemma bss_no_code: "section_is_bss (sec s) \<Longrightarrow> code_of (fold o_byte bs s) = code_of s"
  by (induction bs arbitrary: s) (simp_all add: o_byte_def code_of_def section_is_bss_def)

subsection \<open>What a call writes and records\<close>

definition rel8 :: "u32 \<Rightarrow> u64 \<Rightarrow> u8" where
  "rel8 v a = ucast (displacement 1 v a)"

definition rel16 :: "u32 \<Rightarrow> u64 \<Rightarrow> u8 list" where
  "rel16 v a = [byte_at 0 (displacement 2 v a), byte_at 1 (displacement 2 v a)]"

text \<open>Does the \<open>BRA\<close>/\<open>BRL\<close> arm of the 65C816 choose the long form?\<close>

definition goes_long :: "u32 \<Rightarrow> u64 \<Rightarrow> bool" where
  "goes_long v a = out_of_range8 (displacement 1 v a)"

definition branch_816_bytes :: "u32 \<Rightarrow> u64 \<Rightarrow> u8 list" where
  "branch_816_bytes v a =
     (if goes_long v a then 0x82 # rel16 v (a + 1) else [0x80, rel8 v (a + 1)])"

fun call_bytes :: "call \<Rightarrow> u32 \<Rightarrow> u32 \<Rightarrow> u32 \<Rightarrow> cg \<Rightarrow> u8 list" where
  "call_bytes (OBYTE op) v1 v2 v3 s = [op]"
| "call_bytes (OBits op) v1 v2 v3 s = [op_bit op v1]"
| "call_bytes (OB op) v1 v2 v3 s = [op, byte_at 0 v1]"
| "call_bytes (OBBits op) v1 v2 v3 s = [op_bit op v2, byte_at 0 v1]"
| "call_bytes (ODP op) v1 v2 v3 s = [op, byte_at 0 v1]"
| "call_bytes (OW op) v1 v2 v3 s = [op, byte_at 0 v1, byte_at 1 v1]"
| "call_bytes (OABS op) v1 v2 v3 s = [op, byte_at 0 v1, byte_at 1 v1]"
| "call_bytes (OL op) v1 v2 v3 s = [op, byte_at 0 v1, byte_at 1 v1, byte_at 2 v1]"
| "call_bytes (OLONG op) v1 v2 v3 s = [op, byte_at 0 v1, byte_at 1 v1, byte_at 2 v1]"
| "call_bytes (OMA op) v1 v2 v3 s = op # byte_at 0 v1 # (if longa s then [byte_at 1 v1] else [])"
| "call_bytes (OMI op) v1 v2 v3 s = op # byte_at 0 v1 # (if longi s then [byte_at 1 v1] else [])"
| "call_bytes (OREL op) v1 v2 v3 s = [op, rel8 v1 (addr s + 1)]"
| "call_bytes (ORL op) v1 v2 v3 s = op # rel16 v1 (addr s + 1)"
| "call_bytes (OMOVE op) v1 v2 v3 s = [op, byte_at 2 v1, byte_at 2 v2]"
| "call_bytes (OBITA op) v1 v2 v3 s = [op, ucast v2, byte_at 0 v1, byte_at 1 v1]"
| "call_bytes (OBITAR op) v1 v2 v3 s =
     [op, ucast v2, byte_at 0 v3, byte_at 1 v3, rel8 v1 (addr s + 4)]"
| "call_bytes (OBITZR op) v1 v2 v3 s = [op_bit op v3, byte_at 0 v2, rel8 v1 (addr s + 2)]"
| "call_bytes (OIZ op) v1 v2 v3 s = [op, byte_at 0 v2, byte_at 0 v1]"
| "call_bytes (OL_RELOC op) v1 v2 v3 s = [op, byte_at 0 v1, byte_at 1 v1, byte_at 2 v1]"
| "call_bytes (OW_RELOC op) v1 v2 v3 s = [op, byte_at 0 v1, byte_at 1 v1]"
| "call_bytes BRA_816 v1 v2 v3 s = branch_816_bytes v1 (addr s)"
| "call_bytes BRL_816 v1 v2 v3 s = branch_816_bytes v1 (addr s)"

definition note_branch8 :: "u32 \<Rightarrow> u64 \<Rightarrow> cg \<Rightarrow> cg" where
  "note_branch8 v a s = range_error (out_of_range8 (displacement 1 v a)) BranchOutOfRange s"

definition note_branch16 :: "u32 \<Rightarrow> u64 \<Rightarrow> cg \<Rightarrow> cg" where
  "note_branch16 v a s = range_error (out_of_range16 (displacement 2 v a)) LongBranchOutOfRange s"

fun note_call :: "call \<Rightarrow> u32 \<Rightarrow> cg \<Rightarrow> cg" where
  "note_call (OREL op) v1 s = note_branch8 v1 (addr s + 1) s"
| "note_call (ORL op) v1 s = note_branch16 v1 (addr s + 1) s"
| "note_call (OBITAR op) v1 s = note_branch8 v1 (addr s + 4) s"
| "note_call (OBITZR op) v1 s = note_branch8 v1 (addr s + 2) s"
| "note_call (OL_RELOC op) v1 s = add_reloc s"
| "note_call (OW_RELOC op) v1 s = add_reloc s"
| "note_call BRA_816 v1 s =
     (if goes_long v1 (addr s) then note_branch16 v1 (addr s + 1) (report (BraPromoted v1) s)
      else note_branch8 v1 (addr s + 1) s)"
| "note_call BRL_816 v1 s =
     (if goes_long v1 (addr s) then note_branch16 v1 (addr s + 1) s
      else note_branch8 v1 (addr s + 1) (report (BrlDemoted v1) s))"
| "note_call _ v1 s = s"

lemma o_byte_report: "o_byte b (report d s) = report d (o_byte b s)"
  by (simp add: o_byte_def report_def)

lemma o_byte_range_error: "o_byte b (range_error bad d s) = range_error bad d (o_byte b s)"
  by (simp add: range_error_def o_byte_report)

lemma report_fields [simp]:
  "addr (report d s) = addr s" "longa (report d s) = longa s" "longi (report d s) = longi s"
  "reloc (report d s) = reloc s" "current_pass (report d s) = current_pass s"
  "e_machine (report d s) = e_machine s" "sec (report d s) = sec s"
  "log (report d s) = log s @ [d]"
  by (simp_all add: report_def)

lemma range_error_fields [simp]:
  "addr (range_error bad d s) = addr s" "longa (range_error bad d s) = longa s"
  "longi (range_error bad d s) = longi s" "reloc (range_error bad d s) = reloc s"
  "current_pass (range_error bad d s) = current_pass s"
  "e_machine (range_error bad d s) = e_machine s" "sec (range_error bad d s) = sec s"
  by (simp_all add: range_error_def)

lemma add_reloc_fields [simp]:
  "addr (add_reloc s) = addr s" "longa (add_reloc s) = longa s" "longi (add_reloc s) = longi s"
  "current_pass (add_reloc s) = current_pass s" "e_machine (add_reloc s) = e_machine s"
  "sec (add_reloc s) = sec s" "log (add_reloc s) = log s"
  by (simp_all add: add_reloc_def)

lemma note_call_fields [simp]:
  "addr (note_call c v s) = addr s" "longa (note_call c v s) = longa s"
  "longi (note_call c v s) = longi s" "current_pass (note_call c v s) = current_pass s"
  "e_machine (note_call c v s) = e_machine s" "sec (note_call c v s) = sec s"
  by (cases "(c, v, s)" rule: note_call.cases; simp add: note_branch8_def note_branch16_def)+

lemmas emitter_defs =
  ob_def odp_def ow_def oabs_def ol_def olong_def om_def orel_def orl_def omove_def obita_def
  obitar_def oiz_def obitzr_def bra_816_def brl_816_def Let_def

lemma add_1_more: "(a :: u64) + 1 + 1 = a + 2" "(a :: u64) + 2 + 1 = a + 3"
  "(a :: u64) + 3 + 1 = a + 4"
  by simp_all

theorem run_call_bytes:
  "run_call c v1 v2 v3 s = fold o_byte (call_bytes c v1 v2 v3 s) (note_call c v1 s)"
  by (cases c)
    (simp_all add: emitter_defs ucast_and_ff byte_at_0 rel8_def rel16_def branch_816_bytes_def
      goes_long_def note_branch8_def note_branch16_def o_byte_range_error o_byte_report add.assoc)

subsection \<open>Opcode byte and length of a call\<close>

fun call_op :: "call \<Rightarrow> u8" where
  "call_op (OBYTE op) = op"
| "call_op (OBits op) = op"
| "call_op (OB op) = op"
| "call_op (OBBits op) = op"
| "call_op (ODP op) = op"
| "call_op (OW op) = op"
| "call_op (OABS op) = op"
| "call_op (OL op) = op"
| "call_op (OLONG op) = op"
| "call_op (OMA op) = op"
| "call_op (OMI op) = op"
| "call_op (OREL op) = op"
| "call_op (ORL op) = op"
| "call_op (OMOVE op) = op"
| "call_op (OBITA op) = op"
| "call_op (OBITAR op) = op"
| "call_op (OBITZR op) = op"
| "call_op (OIZ op) = op"
| "call_op (OL_RELOC op) = op"
| "call_op (OW_RELOC op) = op"
| "call_op BRA_816 = 0x80"
| "call_op BRL_816 = 0x82"

text \<open>The length under given register widths; the two promoting arms have none of their own.\<close>

fun call_len :: "call \<Rightarrow> bool \<Rightarrow> bool \<Rightarrow> nat" where
  "call_len (OBYTE op) a x = 1"
| "call_len (OBits op) a x = 1"
| "call_len (OB op) a x = 2"
| "call_len (OBBits op) a x = 2"
| "call_len (ODP op) a x = 2"
| "call_len (OW op) a x = 3"
| "call_len (OABS op) a x = 3"
| "call_len (OL op) a x = 4"
| "call_len (OLONG op) a x = 4"
| "call_len (OMA op) a x = (if a then 3 else 2)"
| "call_len (OMI op) a x = (if x then 3 else 2)"
| "call_len (OREL op) a x = 2"
| "call_len (ORL op) a x = 3"
| "call_len (OMOVE op) a x = 3"
| "call_len (OBITA op) a x = 4"
| "call_len (OBITAR op) a x = 5"
| "call_len (OBITZR op) a x = 3"
| "call_len (OIZ op) a x = 3"
| "call_len (OL_RELOC op) a x = 4"
| "call_len (OW_RELOC op) a x = 3"
| "call_len BRA_816 a x = 2"
| "call_len BRL_816 a x = 3"

definition promoting :: "call \<Rightarrow> bool" where
  "promoting c \<longleftrightarrow> c = BRA_816 \<or> c = BRL_816"

lemma length_call_bytes:
  "\<not> promoting c \<Longrightarrow> length (call_bytes c v1 v2 v3 s) = call_len c (longa s) (longi s)"
  by (cases c) (simp_all add: promoting_def rel16_def)

lemma length_branch_816: "length (branch_816_bytes v a) = (if goes_long v a then 3 else 2)"
  by (simp add: branch_816_bytes_def rel16_def)

lemma length_call_bytes_range: "length (call_bytes c v1 v2 v3 s) \<in> {1..5}"
  by (cases c) (simp_all add: rel16_def length_branch_816)

end
