(* ===== verification/Gen_02.thy ===== *)
theory Gen_02
  imports Emit
begin

text \<open>
  \<open>shared/src/gen_02.c\<close>: the NMOS 6502 instruction set, as a switch table. Every \<open>case s...:\<close> block of
  the outer switch is one entry, in the source's order; \<open>case\<close> labels that share a body repeat it.
  The table is cut into parts only to keep the definitions readable.
\<close>

definition gen_02_part1 :: switch_table where [table_defs]:
  "gen_02_part1 =
   [(sADC, Sw [(Immediate, OB 0x69), (Absolute, OW 0x6d), (DirectPage, OB 0x65),
        (AbsoluteIndexedX, OW 0x7d), (AbsoluteIndexedY, OW 0x79),
        (DirectPageIndexedX, OB 0x75), (DirectPageIndexedIndirectX, OB 0x61),
        (DirectPageIndirectIndexedY, OB 0x71)]),
    (sAND, Sw [(Immediate, OB 0x29), (Absolute, OW 0x2d), (DirectPage, OB 0x25),
        (AbsoluteIndexedX, OW 0x3d), (AbsoluteIndexedY, OW 0x39),
        (DirectPageIndexedX, OB 0x35), (DirectPageIndexedIndirectX, OB 0x21),
        (DirectPageIndirectIndexedY, OB 0x31)]),
    (sASL, Sw [(Implied, OBYTE 0x0a), (Accumulator, OBYTE 0x0a), (Absolute, OW 0x0e),
        (DirectPage, OB 0x06), (AbsoluteIndexedX, OW 0x1e),
        (DirectPageIndexedX, OB 0x16)]),
    (sBCC, Sw [(Absolute, OREL 0x90), (DirectPage, OREL 0x90),
        (ProgramCounterRelative, OREL 0x90)]),
    (sBCS, Sw [(Absolute, OREL 0xb0), (DirectPage, OREL 0xb0),
        (ProgramCounterRelative, OREL 0xb0)]),
    (sBEQ, Sw [(Absolute, OREL 0xf0), (DirectPage, OREL 0xf0),
        (ProgramCounterRelative, OREL 0xf0)]),
    (sBIT, Sw [(Absolute, OW 0x2c), (DirectPage, OB 0x24)]),
    (sBMI, Sw [(DirectPage, OREL 0x30), (Absolute, OREL 0x30),
        (ProgramCounterRelative, OREL 0x30)]),
    (sBNE, Sw [(Absolute, OREL 0xd0), (DirectPage, OREL 0xd0),
        (ProgramCounterRelative, OREL 0xd0)]),
    (sBPL, Sw [(Absolute, OREL 0x10), (DirectPage, OREL 0x10),
        (ProgramCounterRelative, OREL 0x10)]),
    (sBRK, Sw [(Implied, OBYTE 0x00), (Immediate, OB 0x00)]),
    (sBVC, Sw [(Absolute, OREL 0x50), (DirectPage, OREL 0x50),
        (ProgramCounterRelative, OREL 0x50)]),
    (sBVS, Sw [(Absolute, OREL 0x70), (DirectPage, OREL 0x70),
        (ProgramCounterRelative, OREL 0x70)]),
    (sCLC, Sw [(Implied, OBYTE 0x18)]),
    (sCLD, Sw [(Implied, OBYTE 0xd8)]),
    (sCLI, Sw [(Implied, OBYTE 0x58)]),
    (sCLV, Sw [(Implied, OBYTE 0xb8)])]"

definition gen_02_part2 :: switch_table where [table_defs]:
  "gen_02_part2 =
   [(sCMP, Sw [(Immediate, OB 0xc9), (Absolute, OW 0xcd), (DirectPage, OB 0xc5),
        (AbsoluteIndexedX, OW 0xdd), (AbsoluteIndexedY, OW 0xd9),
        (DirectPageIndexedX, OB 0xd5), (DirectPageIndexedIndirectX, OB 0xc1),
        (DirectPageIndirectIndexedY, OB 0xd1)]),
    (sCPX, Sw [(Immediate, OB 0xe0), (Absolute, OW 0xec), (DirectPage, OB 0xe4)]),
    (sCPY, Sw [(Immediate, OB 0xc0), (Absolute, OW 0xcc), (DirectPage, OB 0xc4)]),
    (sDEC, Sw [(Absolute, OW 0xce), (DirectPage, OB 0xc6), (AbsoluteIndexedX, OW 0xde),
        (DirectPageIndexedX, OB 0xd6)]),
    (sDEX, Sw [(Implied, OBYTE 0xca)]),
    (sDEY, Sw [(Implied, OBYTE 0x88)]),
    (sEOR, Sw [(Immediate, OB 0x49), (Absolute, OW 0x4d), (DirectPage, OB 0x45),
        (AbsoluteIndexedX, OW 0x5d), (AbsoluteIndexedY, OW 0x59),
        (DirectPageIndexedX, OB 0x55), (DirectPageIndexedIndirectX, OB 0x41),
        (DirectPageIndirectIndexedY, OB 0x51)]),
    (sINC, Sw [(Absolute, OW 0xee), (DirectPage, OB 0xe6), (AbsoluteIndexedX, OW 0xfe),
        (DirectPageIndexedX, OB 0xf6)]),
    (sINX, Sw [(Implied, OBYTE 0xe8)]),
    (sINY, Sw [(Implied, OBYTE 0xc8)]),
    (sJMP, Sw [(DirectPage, OW 0x4c), (Absolute, OW 0x4c), (AbsoluteIndirect, OW 0x6c)]),
    (sJSR, Sw [(DirectPage, OW 0x20), (Absolute, OW 0x20)]),
    (sLDA, SwRet [(Immediate, OB 0xa9), (Absolute, OW 0xad), (DirectPage, OB 0xa5),
        (AbsoluteIndexedX, OW 0xbd), (AbsoluteIndexedY, OW 0xb9),
        (DirectPageIndexedX, OB 0xb5), (DirectPageIndexedIndirectX, OB 0xa1),
        (DirectPageIndirectIndexedY, OB 0xb1)]),
    (sLDX, Sw [(Immediate, OB 0xa2), (Absolute, OW 0xae), (DirectPage, OB 0xa6),
        (AbsoluteIndexedY, OW 0xbe), (DirectPageIndexedY, OB 0xb6)]),
    (sLDY, Sw [(Immediate, OB 0xa0), (Absolute, OW 0xac), (DirectPage, OB 0xa4),
        (AbsoluteIndexedX, OW 0xbc), (DirectPageIndexedX, OB 0xb4)])]"

definition gen_02_part3 :: switch_table where [table_defs]:
  "gen_02_part3 =
   [(sLSR, Sw [(Accumulator, OBYTE 0x4a), (Implied, OBYTE 0x4a), (Absolute, OW 0x4e),
        (DirectPage, OB 0x46), (AbsoluteIndexedX, OW 0x5e),
        (DirectPageIndexedX, OB 0x56)]),
    (sNOP, Sw [(Implied, OBYTE 0xea)]),
    (sORA, Sw [(Immediate, OB 0x09), (Absolute, OW 0x0d), (DirectPage, OB 0x05),
        (AbsoluteIndexedX, OW 0x1d), (AbsoluteIndexedY, OW 0x19),
        (DirectPageIndexedX, OB 0x15), (DirectPageIndexedIndirectX, OB 0x01),
        (DirectPageIndirectIndexedY, OB 0x11)]),
    (sPHA, Sw [(Implied, OBYTE 0x48)]),
    (sPHP, Sw [(Implied, OBYTE 0x08)]),
    (sPLA, Sw [(Implied, OBYTE 0x68)]),
    (sPLP, Sw [(Implied, OBYTE 0x28)]),
    (sROL, Sw [(Accumulator, OBYTE 0x2a), (Implied, OBYTE 0x2a), (Absolute, OW 0x2e),
        (DirectPage, OB 0x26), (AbsoluteIndexedX, OW 0x3e),
        (DirectPageIndexedX, OB 0x36)]),
    (sROR, Sw [(Implied, OBYTE 0x6a), (Accumulator, OBYTE 0x6a), (Absolute, OW 0x6e),
        (DirectPage, OB 0x66), (AbsoluteIndexedX, OW 0x7e),
        (DirectPageIndexedX, OB 0x76)]),
    (sRTI, Sw [(Implied, OBYTE 0x40)]),
    (sRTS, Sw [(Implied, OBYTE 0x60)]),
    (sSBC, Sw [(Immediate, OB 0xe9), (Absolute, OW 0xed), (DirectPage, OB 0xe5),
        (AbsoluteIndexedX, OW 0xfd), (AbsoluteIndexedY, OW 0xf9),
        (DirectPageIndexedX, OB 0xf5), (DirectPageIndexedIndirectX, OB 0xe1),
        (DirectPageIndirectIndexedY, OB 0xf1)]),
    (sSEC, Sw [(Implied, OBYTE 0x38)]),
    (sSED, Sw [(Implied, OBYTE 0xf8)]),
    (sSEI, Sw [(Implied, OBYTE 0x78)]),
    (sSTA, Sw [(Absolute, OW 0x8d), (DirectPage, OB 0x85), (AbsoluteIndexedX, OW 0x9d),
        (AbsoluteIndexedY, OW 0x99), (DirectPageIndexedX, OB 0x95),
        (DirectPageIndexedIndirectX, OB 0x81), (DirectPageIndirectIndexedY, OB 0x91)]),
    (sSTX, Sw [(Absolute, OW 0x8e), (DirectPage, OB 0x86), (DirectPageIndexedY, OW 0x96)])]"

definition gen_02_part4 :: switch_table where [table_defs]:
  "gen_02_part4 =
   [(sSTY, Sw [(Absolute, OW 0x8c), (DirectPage, OB 0x84), (DirectPageIndexedX, OB 0x94)]),
    (sTAX, Sw [(Implied, OBYTE 0xaa)]),
    (sTAY, Sw [(Implied, OBYTE 0xa8)]),
    (sTSX, Sw [(Implied, OBYTE 0xba)]),
    (sTXA, Sw [(Implied, OBYTE 0x8a)]),
    (sTXS, Sw [(Implied, OBYTE 0x9a)]),
    (sTYA, Sw [(Implied, OBYTE 0x98)])]"

definition gen_02_table :: switch_table where
  "gen_02_table = gen_02_part1 @ gen_02_part2 @ gen_02_part3 @ gen_02_part4"

definition gen_02 :: "instr \<Rightarrow> addr_mode \<Rightarrow> u32 \<Rightarrow> u32 \<Rightarrow> cg \<Rightarrow> cg" where
  "gen_02 i m v1 v2 s = run_table ''6502'' gen_02_table i m v1 v2 0 s"

end
