(* ===== verification/Gen_RC02.thy ===== *)
theory Gen_RC02
  imports Emit
begin

text \<open>
  \<open>shared/src/gen_RC02.c\<close>: the Rockwell R65C02 instruction set, as a switch table. Every \<open>case s...:\<close> block of
  the outer switch is one entry, in the source's order; \<open>case\<close> labels that share a body repeat it.
  The table is cut into parts only to keep the definitions readable.
\<close>

definition gen_RC02_part1 :: switch_table where [table_defs]:
  "gen_RC02_part1 =
   [(sADC, Sw [(Immediate, OB 0x69), (Absolute, OW 0x6d), (DirectPage, OB 0x65),
        (DirectPageIndexedIndirectX, OB 0x61), (DirectPageIndirectIndexedY, OB 0x71),
        (DirectPageIndexedX, OB 0x75), (AbsoluteIndexedX, OW 0x7d),
        (AbsoluteIndexedY, OW 0x79), (DirectPageIndirect, OB 0x72)]),
    (sAND, Sw [(Immediate, OB 0x29), (Absolute, OW 0x2d), (DirectPage, OB 0x25),
        (DirectPageIndexedIndirectX, OB 0x21), (DirectPageIndirectIndexedY, OB 0x31),
        (DirectPageIndexedX, OB 0x35), (AbsoluteIndexedX, OW 0x3d),
        (AbsoluteIndexedY, OW 0x39), (DirectPageIndirect, OB 0x32)]),
    (sASL, Sw [(Absolute, OW 0x0e), (DirectPage, OB 0x06), (Implied, OBYTE 0x0a),
        (Accumulator, OBYTE 0x0a), (DirectPageIndexedX, OB 0x16),
        (AbsoluteIndexedX, OW 0x1e)]),
    (sBBR, Sw [(BitAbsoluteRelative, OBITZR 0x0f), (BitZeroPageRelative, OBITZR 0x0f)]),
    (sBBS, Sw [(BitAbsoluteRelative, OBITZR 0x8f), (BitZeroPageRelative, OBITZR 0x8f)]),
    (sBCC, Sw [(DirectPage, OREL 0x90), (Absolute, OREL 0x90),
        (ProgramCounterRelative, OREL 0x90)]),
    (sBCS, Sw [(DirectPage, OREL 0xb0), (Absolute, OREL 0xb0),
        (ProgramCounterRelative, OREL 0xb0)]),
    (sBEQ, Sw [(DirectPage, OREL 0xf0), (Absolute, OREL 0xf0),
        (ProgramCounterRelative, OREL 0xf0)]),
    (sBIT, Sw [(Immediate, OB 0x89), (DirectPage, OB 0x24), (Absolute, OW 0x2c)]),
    (sBMI, Sw [(DirectPage, OREL 0x30), (Absolute, OREL 0x30),
        (ProgramCounterRelative, OREL 0x30)]),
    (sBNE, Sw [(DirectPage, OREL 0xd0), (Absolute, OREL 0xd0),
        (ProgramCounterRelative, OREL 0xd0)]),
    (sBPL, Sw [(DirectPage, OREL 0x10), (Absolute, OREL 0x10),
        (ProgramCounterRelative, OREL 0x10)]),
    (sBRA, Sw [(DirectPage, OREL 0x80), (Absolute, OREL 0x80),
        (ProgramCounterRelative, OREL 0x80)]),
    (sBRK, Sw [(Implied, OBYTE 0x00), (Immediate, OB 0x00)]),
    (sBVC, Sw [(DirectPage, OREL 0x50), (Absolute, OREL 0x50),
        (ProgramCounterRelative, OREL 0x50)]),
    (sBVS, Sw [(DirectPage, OREL 0x70), (Absolute, OREL 0x70),
        (ProgramCounterRelative, OREL 0x70)])]"

definition gen_RC02_part2 :: switch_table where [table_defs]:
  "gen_RC02_part2 =
   [(sCLC, Sw [(Implied, OBYTE 0x18)]),
    (sCLD, Sw [(Implied, OBYTE 0xd8)]),
    (sCLI, Sw [(Implied, OBYTE 0x58)]),
    (sCLV, Sw [(Implied, OBYTE 0xb8)]),
    (sCMP, Sw [(Immediate, OB 0xc9), (Absolute, OW 0xcd), (DirectPage, OB 0xc5),
        (DirectPageIndexedIndirectX, OB 0xc1), (DirectPageIndirectIndexedY, OB 0xd1),
        (DirectPageIndexedX, OB 0xd5), (AbsoluteIndexedX, OW 0xdd),
        (AbsoluteIndexedY, OW 0xd9), (AbsoluteIndirect, OB 0xd2)]),
    (sCPX, Sw [(Immediate, OB 0xe0), (Absolute, OW 0xec), (DirectPage, OB 0xe4)]),
    (sCPY, Sw [(Immediate, OB 0xc0), (Absolute, OW 0xcc), (DirectPage, OB 0xc4)]),
    (sDEC, Sw [(Absolute, OW 0xce), (DirectPage, OB 0xc6), (Implied, OBYTE 0x3a),
        (Accumulator, OBYTE 0x3a), (DirectPageIndexedX, OB 0xd6),
        (AbsoluteIndexedX, OW 0xde)]),
    (sDEX, Sw [(Implied, OBYTE 0xca)]),
    (sDEY, Sw [(Implied, OBYTE 0x88)]),
    (sEOR, Sw [(Immediate, OB 0x49), (Absolute, OW 0x4d), (DirectPage, OB 0x45),
        (DirectPageIndirect, OB 0x41), (DirectPageIndirectIndexedY, OB 0x51),
        (DirectPageIndexedX, OB 0x55), (AbsoluteIndexedX, OW 0x5d),
        (AbsoluteIndexedY, OW 0x59)]),
    (sINC, Sw [(Absolute, OW 0xee), (DirectPage, OB 0xe6), (Implied, OBYTE 0x1a),
        (Accumulator, OBYTE 0x1a), (DirectPageIndexedX, OB 0xf6),
        (AbsoluteIndexedX, OW 0xfe)]),
    (sINX, Sw [(Implied, OBYTE 0xe8)]),
    (sINY, Sw [(Implied, OBYTE 0xc8)]),
    (sJMP, Sw [(DirectPage, OW 0x4c), (Absolute, OW 0x4c), (AbsoluteIndirect, OW 0x6c),
        (AbsoluteIndexedIndirect, OW 0x7c)]),
    (sJSR, Sw [(DirectPage, OW 0x20), (Absolute, OW 0x20)])]"

definition gen_RC02_part3 :: switch_table where [table_defs]:
  "gen_RC02_part3 =
   [(sLDA, SwRet [(Immediate, OB 0xa9), (Absolute, OW 0xad), (DirectPage, OB 0xa5),
        (DirectPageIndexedIndirectX, OB 0xa1), (DirectPageIndirectIndexedY, OB 0xb1),
        (DirectPageIndexedX, OB 0xb5), (AbsoluteIndexedX, OW 0xbd),
        (AbsoluteIndexedY, OW 0xb9), (DirectPageIndirect, OB 0xb2)]),
    (sLDX, Sw [(Immediate, OB 0xa2), (Absolute, OW 0xae), (DirectPage, OB 0xa6),
        (AbsoluteIndexedY, OW 0xbe), (DirectPageIndexedY, OB 0xb6)]),
    (sLDY, Sw [(Immediate, OB 0xa0), (Absolute, OW 0xac), (DirectPage, OB 0xa4),
        (DirectPageIndexedX, OB 0xb4), (AbsoluteIndexedX, OW 0xbc)]),
    (sLSR, Sw [(Absolute, OW 0x4e), (DirectPage, OB 0x46), (Implied, OBYTE 0x4a),
        (Accumulator, OBYTE 0x4a), (DirectPageIndexedX, OB 0x56),
        (AbsoluteIndexedX, OW 0x5e)]),
    (sNOP, Sw [(Implied, OBYTE 0xea)]),
    (sORA, Sw [(Immediate, OB 0x09), (Absolute, OW 0x0d), (DirectPage, OB 0x05),
        (DirectPageIndirect, OB 0x01), (DirectPageIndexedIndirectX, OB 0x11),
        (DirectPageIndexedX, OB 0x15), (AbsoluteIndexedX, OW 0x1d),
        (AbsoluteIndexedY, OW 0x19), (AbsoluteIndirect, OW 0x12)]),
    (sPHA, Sw [(Implied, OBYTE 0x48)]),
    (sPHP, Sw [(Implied, OBYTE 0x08)]),
    (sPHX, Sw [(Implied, OBYTE 0xda)]),
    (sPHY, Sw [(Implied, OBYTE 0x5a)]),
    (sPLA, Sw [(Implied, OBYTE 0x68)]),
    (sPLP, Sw [(Implied, OBYTE 0x28)]),
    (sPLX, Sw [(Implied, OBYTE 0xfa)]),
    (sPLY, Sw [(Implied, OBYTE 0x7a)]),
    (sRMB, Sw [(BlockMove, OBBits 0x07), (BitZeroPage, OBBits 0x07)]),
    (sROL, Sw [(Absolute, OW 0x2e), (DirectPage, OB 0x26), (Implied, OBYTE 0x2a),
        (Accumulator, OBYTE 0x2a), (DirectPageIndexedX, OB 0x36),
        (AbsoluteIndexedX, OW 0x3e)])]"

definition gen_RC02_part4 :: switch_table where [table_defs]:
  "gen_RC02_part4 =
   [(sROR, Sw [(Absolute, OW 0x6e), (DirectPage, OB 0x66), (Implied, OBYTE 0x6a),
        (Accumulator, OBYTE 0x6a), (DirectPageIndexedX, OB 0x76),
        (AbsoluteIndexedX, OW 0x7e)]),
    (sRTI, Sw [(Implied, OBYTE 0x40)]),
    (sRTS, Sw [(Implied, OBYTE 0x60)]),
    (sSBC, Sw [(Immediate, OB 0xe9), (Absolute, OW 0xed), (DirectPage, OB 0xe5),
        (DirectPageIndirect, OB 0xe1), (DirectPageIndexedIndirectX, OB 0xf1),
        (DirectPageIndexedX, OB 0xf5), (AbsoluteIndexedX, OW 0xfd),
        (AbsoluteIndexedY, OW 0xf9), (AbsoluteIndirect, OW 0xf2)]),
    (sSEC, Sw [(Implied, OBYTE 0x38)]),
    (sSED, Sw [(Implied, OBYTE 0xf8)]),
    (sSEI, Sw [(Implied, OBYTE 0x78)]),
    (sSMB, Sw [(BlockMove, OBBits 0x87), (BitZeroPage, OBBits 0x87)]),
    (sSTA, Sw [(Absolute, OW 0x8d), (DirectPage, OB 0x85),
        (DirectPageIndexedIndirectX, OB 0x81), (DirectPageIndirectIndexedY, OB 0x91),
        (DirectPageIndexedX, OB 0x95), (AbsoluteIndexedX, OW 0x9d),
        (DirectPageIndexedY, OW 0x99), (AbsoluteIndexedY, OW 0x99),
        (AbsoluteIndirect, OW 0x92)]),
    (sSTX, Sw [(Absolute, OW 0x8e), (DirectPage, OB 0x86), (DirectPageIndexedY, OW 0x96)]),
    (sSTY, Sw [(Absolute, OW 0x8c), (DirectPage, OB 0x84), (DirectPageIndexedX, OB 0x94)]),
    (sSTZ, Sw [(Absolute, OW 0x9c), (DirectPage, OB 0x64), (DirectPageIndexedX, OW 0x74),
        (AbsoluteIndexedX, OW 0x9e)]),
    (sTAX, Sw [(Implied, OBYTE 0xaa)]),
    (sTAY, Sw [(Implied, OBYTE 0xa8)]),
    (sTSX, Sw [(Implied, OBYTE 0xba)]),
    (sTXA, Sw [(Implied, OBYTE 0x8a)]),
    (sTXS, Sw [(Implied, OBYTE 0x9a)]),
    (sTYA, Sw [(Implied, OBYTE 0x98)])]"

definition gen_RC02_table :: switch_table where
  "gen_RC02_table = gen_RC02_part1 @ gen_RC02_part2 @ gen_RC02_part3 @ gen_RC02_part4"

definition gen_RC02 :: "instr \<Rightarrow> addr_mode \<Rightarrow> u32 \<Rightarrow> u32 \<Rightarrow> u32 \<Rightarrow> cg \<Rightarrow> cg" where
  "gen_RC02 i m v1 v2 v3 s = run_table ''RC02'' gen_RC02_table i m v1 v2 v3 s"

end
