(* ===== verification/Gen_816.thy ===== *)
theory Gen_816
  imports Emit
begin

text \<open>
  \<open>shared/src/gen_816.c\<close>: the WDC 65C816 instruction set, as a switch table. Every \<open>case s...:\<close> block of
  the outer switch is one entry, in the source's order; \<open>case\<close> labels that share a body repeat it.
  The table is cut into parts only to keep the definitions readable.
\<close>

definition gen_816_part1 :: switch_table where [table_defs]:
  "gen_816_part1 =
   [(sADC, Sw [(Immediate, OMA 0x69), (Absolute, OABS 0x6d), (AbsoluteLong, OLONG 0x6f),
        (DirectPage, ODP 0x65), (DirectPageIndirect, ODP 0x72),
        (DirectPageIndirectLong, ODP 0x67), (AbsoluteIndexedX, OABS 0x7d),
        (AbsoluteLongIndexedX, OLONG 0x7f), (AbsoluteIndexedY, OABS 0x79),
        (DirectPageIndexedX, ODP 0x75), (DirectPageIndexedIndirectX, ODP 0x61),
        (DirectPageIndirectIndexedY, ODP 0x71),
        (DirectPageIndirectLongIndexedY, ODP 0x77), (StackRelative, OB 0x63),
        (StackRelativeIndirectIndexedY, OB 0x73)]),
    (sAND, Sw [(Immediate, OMA 0x29), (Absolute, OW 0x2d), (AbsoluteLong, OL 0x2f),
        (DirectPage, OB 0x25), (DirectPageIndirect, OB 0x32),
        (DirectPageIndirectLong, OB 0x27), (AbsoluteIndexedX, OW 0x3d),
        (AbsoluteLongIndexedX, OL 0x3f), (AbsoluteIndexedY, OW 0x39),
        (DirectPageIndexedX, OB 0x35), (DirectPageIndexedIndirectX, OB 0x21),
        (DirectPageIndirectIndexedY, OB 0x31), (DirectPageIndirectLongIndexedY, OB 0x37),
        (StackRelative, OB 0x23), (StackRelativeIndirectIndexedY, OB 0x33)]),
    (sASL, Sw [(Implied, OBYTE 0x0a), (Accumulator, OBYTE 0x0a), (Absolute, OW 0x0e),
        (DirectPage, OB 0x06), (AbsoluteIndexedX, OW 0x1e),
        (DirectPageIndexedX, OB 0x16)]),
    (sBCC, SwNZ [(DirectPage, OREL 0x90), (Absolute, OREL 0x90),
        (ProgramCounterRelative, OREL 0x90)]),
    (sBCS, SwNZ [(DirectPage, OREL 0xb0), (Absolute, OREL 0xb0),
        (ProgramCounterRelative, OREL 0xb0)]),
    (sBEQ, SwNZ [(DirectPage, OREL 0xf0), (Absolute, OREL 0xf0),
        (ProgramCounterRelative, OREL 0xf0)]),
    (sBIT, Sw [(Immediate, OMA 0x89), (Absolute, OW 0x2c), (DirectPage, OB 0x24),
        (AbsoluteIndexedX, OW 0x3c), (DirectPageIndexedX, OB 0x34)]),
    (sBMI, SwNZ [(DirectPage, OREL 0x30), (Absolute, OREL 0x30),
        (ProgramCounterRelative, OREL 0x30)]),
    (sBNE, SwNZ [(DirectPage, OREL 0xd0), (Absolute, OREL 0xd0),
        (ProgramCounterRelative, OREL 0xd0)]),
    (sBPL, SwNZ [(DirectPage, OREL 0x10), (Absolute, OREL 0x10),
        (ProgramCounterRelative, OREL 0x10)]),
    (sBRA, SwNZ [(DirectPage, BRA_816), (Absolute, BRA_816), (ProgramCounterRelative, BRA_816)])]"

definition gen_816_part2 :: switch_table where [table_defs]:
  "gen_816_part2 =
   [(sBRK, Sw [(Implied, OBYTE 0x00), (Immediate, OB 0x00)]),
    (sBRL, SwNZ [(DirectPage, BRL_816), (Absolute, BRL_816), (ProgramCounterRelative, BRL_816)]),
    (sBVC, SwNZ [(DirectPage, OREL 0x50), (Absolute, OREL 0x50),
        (ProgramCounterRelative, OREL 0x50)]),
    (sBVS, SwNZ [(DirectPage, OREL 0x70), (Absolute, OREL 0x70),
        (ProgramCounterRelative, OREL 0x70)]),
    (sCLC, Sw [(Implied, OBYTE 0x18)]),
    (sCLD, Sw [(Implied, OBYTE 0xd8)]),
    (sCLI, Sw [(Implied, OBYTE 0x58)]),
    (sCLV, Sw [(Implied, OBYTE 0xb8)]),
    (sCMP, Sw [(Immediate, OMA 0xc9), (Absolute, OW 0xcd), (AbsoluteLong, OL 0xcf),
        (DirectPage, OB 0xc5), (DirectPageIndirect, OB 0xd2),
        (DirectPageIndirectLong, OB 0xc7), (AbsoluteIndexedX, OW 0xdd),
        (AbsoluteLongIndexedX, OL 0xdf), (AbsoluteIndexedY, OW 0xd9),
        (DirectPageIndexedX, OB 0xd5), (DirectPageIndexedIndirectX, OB 0xc1),
        (DirectPageIndirectIndexedY, OB 0xd1), (DirectPageIndirectLongIndexedY, OB 0xd7),
        (StackRelative, OB 0xc3), (StackRelativeIndirectIndexedY, OB 0xd3)]),
    (sCOP, Sw [(Immediate, OB 0x02)]),
    (sCPX, Sw [(Immediate, OMI 0xe0), (Absolute, OW 0xec), (DirectPage, OB 0xe4)]),
    (sCPY, Sw [(Immediate, OMI 0xc0), (Absolute, OW 0xcc), (DirectPage, OB 0xc4)]),
    (sDEC, Sw [(Accumulator, OBYTE 0x3a), (Implied, OBYTE 0x3a), (Absolute, OW 0xce),
        (DirectPage, OB 0xc6), (AbsoluteIndexedX, OW 0xde),
        (DirectPageIndexedX, OB 0xd6)]),
    (sDEX, Sw [(Implied, OBYTE 0xca)]),
    (sDEY, Sw [(Implied, OBYTE 0x88)])]"

definition gen_816_part3 :: switch_table where [table_defs]:
  "gen_816_part3 =
   [(sEOR, Sw [(Immediate, OMA 0x49), (Absolute, OW 0x4d), (AbsoluteLong, OL 0x4f),
        (DirectPage, OB 0x45), (DirectPageIndirect, OB 0x52),
        (DirectPageIndirectLong, OB 0x47), (AbsoluteIndexedX, OW 0x5d),
        (AbsoluteLongIndexedX, OL 0x5f), (AbsoluteIndexedY, OW 0x59),
        (DirectPageIndexedX, OB 0x55), (DirectPageIndexedIndirectX, OB 0x41),
        (DirectPageIndirectIndexedY, OB 0x51), (DirectPageIndirectLongIndexedY, OB 0x57),
        (StackRelative, OB 0x43), (StackRelativeIndirectIndexedY, OB 0x53)]),
    (sINC, Sw [(Accumulator, OBYTE 0x1a), (Implied, OBYTE 0x1a), (Absolute, OW 0xee),
        (DirectPage, OB 0xe6), (AbsoluteIndexedX, OW 0xfe),
        (DirectPageIndexedX, OB 0xf6)]),
    (sINX, Sw [(Implied, OBYTE 0xe8)]),
    (sINY, Sw [(Implied, OBYTE 0xc8)]),
    (sJMP, Sw [(DirectPage, OW 0x4c), (Absolute, OW 0x4c), (AbsoluteIndirect, OW 0x6c),
        (AbsoluteIndexedIndirect, OW 0x7c), (AbsoluteLong, OL 0x5c),
        (AbsoluteIndirectLong, OW 0xdc)]),
    (sJML, Sw [(DirectPage, OL 0x5c), (Absolute, OL 0x5c), (AbsoluteLong, OL 0x5c),
        (AbsoluteIndirect, OW 0xdc), (AbsoluteIndirectLong, OW 0xdc)]),
    (sJSL, Sw [(DirectPage, OL_RELOC 0x22), (Absolute, OL_RELOC 0x22),
        (AbsoluteLong, OL_RELOC 0x22)]),
    (sJSR, Sw [(DirectPage, OW_RELOC 0x20), (Absolute, OW_RELOC 0x20),
        (AbsoluteIndexedIndirect, OW 0xfc), (AbsoluteLong, OL_RELOC 0x22)]),
    (sLDA, SwRet [(Immediate, OMA 0xa9), (Absolute, OW 0xad), (AbsoluteLong, OL 0xaf),
        (DirectPage, OB 0xa5), (AbsoluteIndirect, OB 0xb2),
        (DirectPageIndirect, OB 0xb2), (DirectPageIndirectLong, OB 0xa7),
        (AbsoluteIndexedX, OW 0xbd), (AbsoluteLongIndexedX, OL 0xbf),
        (AbsoluteIndexedY, OW 0xb9), (DirectPageIndexedX, OB 0xb5),
        (DirectPageIndexedIndirectX, OB 0xa1), (DirectPageIndirectIndexedY, OB 0xb1),
        (DirectPageIndirectLongIndexedY, OB 0xb7), (StackRelative, OB 0xa3),
        (StackRelativeIndirectIndexedY, OB 0xb3)]),
    (sLDX, Sw [(Immediate, OMI 0xa2), (Absolute, OW 0xae), (DirectPage, OB 0xa6),
        (AbsoluteIndexedY, OW 0xbe), (DirectPageIndexedY, OB 0xb6)]),
    (sLDY, Sw [(Immediate, OMI 0xa0), (Absolute, OW 0xac), (DirectPage, OB 0xa4),
        (AbsoluteIndexedX, OW 0xbc), (DirectPageIndexedX, OB 0xb4)]),
    (sLSR, Sw [(Accumulator, OBYTE 0x4a), (Implied, OBYTE 0x4a), (Absolute, OW 0x4e),
        (DirectPage, OB 0x46), (AbsoluteIndexedX, OW 0x5e),
        (DirectPageIndexedX, OB 0x56)])]"

definition gen_816_part4 :: switch_table where [table_defs]:
  "gen_816_part4 =
   [(sMVN, Sw [(BlockMove, OMOVE 0x54)]),
    (sMVP, Sw [(BlockMove, OMOVE 0x44)]),
    (sNOP, Sw [(Implied, OBYTE 0xea)]),
    (sORA, Sw [(Immediate, OMA 0x09), (Absolute, OW 0x0d), (AbsoluteLong, OL 0x0f),
        (DirectPage, OB 0x05), (DirectPageIndirect, OB 0x12),
        (DirectPageIndirectLong, OB 0x07), (AbsoluteIndexedX, OW 0x1d),
        (AbsoluteLongIndexedX, OL 0x1f), (AbsoluteIndexedY, OW 0x19),
        (DirectPageIndexedX, OB 0x15), (DirectPageIndexedIndirectX, OB 0x01),
        (DirectPageIndirectIndexedY, OB 0x11), (DirectPageIndirectLongIndexedY, OB 0x17),
        (StackRelative, OB 0x03), (StackRelativeIndirectIndexedY, OB 0x13)]),
    (sPEA, Sw [(Immediate, OW 0xf4), (Absolute, OW 0xf4)]),
    (sPEI, Sw [(DirectPageIndirect, OB 0xd4)]),
    (sPER, Sw [(Immediate, ORL 0x62), (DirectPage, ORL 0x62), (Absolute, ORL 0x62)]),
    (sPHA, Sw [(Implied, OBYTE 0x48)]),
    (sPHB, Sw [(Implied, OBYTE 0x8b)]),
    (sPHD, Sw [(Implied, OBYTE 0x0b)]),
    (sPHK, Sw [(Implied, OBYTE 0x4b)]),
    (sPHP, Sw [(Implied, OBYTE 0x08)]),
    (sPHX, Sw [(Implied, OBYTE 0xda)]),
    (sPHY, Sw [(Implied, OBYTE 0x5a)]),
    (sPLA, Sw [(Implied, OBYTE 0x68)]),
    (sPLB, Sw [(Implied, OBYTE 0xab)]),
    (sPLD, Sw [(Implied, OBYTE 0x2b)]),
    (sPLP, Sw [(Implied, OBYTE 0x28)]),
    (sPLX, Sw [(Implied, OBYTE 0xfa)]),
    (sPLY, Sw [(Implied, OBYTE 0x7a)])]"

definition gen_816_part5 :: switch_table where [table_defs]:
  "gen_816_part5 =
   [(sREP, Sw [(Immediate, OB 0xc2)]),
    (sROL, Sw [(Accumulator, OBYTE 0x2a), (Implied, OBYTE 0x2a), (Absolute, OW 0x2e),
        (DirectPage, OB 0x26), (AbsoluteIndexedX, OW 0x3e),
        (DirectPageIndexedX, OB 0x36)]),
    (sROR, Sw [(Accumulator, OBYTE 0x6a), (Implied, OBYTE 0x6a), (Absolute, OW 0x6e),
        (DirectPage, OB 0x66), (AbsoluteIndexedX, OW 0x7e),
        (DirectPageIndexedX, OB 0x76)]),
    (sRTI, Sw [(Implied, OBYTE 0x40)]),
    (sRTL, Sw [(Implied, OBYTE 0x6b)]),
    (sRTS, Sw [(Implied, OBYTE 0x60)]),
    (sSBC, Sw [(Immediate, OMA 0xe9), (Absolute, OW 0xed), (AbsoluteLong, OL 0xef),
        (DirectPage, OB 0xe5), (DirectPageIndirect, OB 0xf2),
        (DirectPageIndirectLong, OB 0xe7), (AbsoluteIndexedX, OW 0xfd),
        (AbsoluteLongIndexedX, OL 0xff), (AbsoluteIndexedY, OW 0xf9),
        (DirectPageIndexedX, OB 0xf5), (DirectPageIndexedIndirectX, OB 0xe1),
        (DirectPageIndirectIndexedY, OB 0xf1), (DirectPageIndirectLongIndexedY, OB 0xf7),
        (StackRelative, OB 0xe3), (StackRelativeIndirectIndexedY, OB 0xf3)]),
    (sSEC, Sw [(Implied, OBYTE 0x38)]),
    (sSED, Sw [(Implied, OBYTE 0xf8)]),
    (sSEI, Sw [(Implied, OBYTE 0x78)]),
    (sSEP, Sw [(Immediate, OB 0xe2)]),
    (sSTA, Sw [(Absolute, OW 0x8d), (AbsoluteLong, OL 0x8f), (DirectPage, OB 0x85),
        (DirectPageIndirect, OB 0x92), (DirectPageIndirectLong, OB 0x87),
        (AbsoluteIndexedX, OW 0x9d), (AbsoluteLongIndexedX, OL 0x9f),
        (DirectPageIndexedY, OW 0x99), (AbsoluteIndexedY, OW 0x99),
        (DirectPageIndexedX, OB 0x95), (DirectPageIndexedIndirectX, OB 0x81),
        (DirectPageIndirectIndexedY, OB 0x91), (DirectPageIndirectLongIndexedY, OB 0x97),
        (StackRelative, OB 0x83), (StackRelativeIndirectIndexedY, OB 0x93)]),
    (sSTP, Sw [(Implied, OBYTE 0xdb)]),
    (sSTX, Sw [(Absolute, OW 0x8e), (DirectPage, OB 0x86), (DirectPageIndexedY, OW 0x96)]),
    (sSTY, Sw [(Absolute, OW 0x8c), (DirectPage, OB 0x84), (DirectPageIndexedX, OB 0x94)])]"

definition gen_816_part6 :: switch_table where [table_defs]:
  "gen_816_part6 =
   [(sSTZ, Sw [(Absolute, OW 0x9c), (DirectPage, OB 0x64), (AbsoluteIndexedX, OW 0x9e),
        (DirectPageIndexedX, OW 0x74)]),
    (sTAX, Sw [(Implied, OBYTE 0xaa)]),
    (sTAY, Sw [(Implied, OBYTE 0xa8)]),
    (sTAD, Sw [(Implied, OBYTE 0x5b)]),
    (sTCD, Sw [(Implied, OBYTE 0x5b)]),
    (sTAS, Sw [(Implied, OBYTE 0x1b)]),
    (sTCS, Sw [(Implied, OBYTE 0x1b)]),
    (sTDA, Sw [(Implied, OBYTE 0x7b)]),
    (sTDC, Sw [(Implied, OBYTE 0x7b)]),
    (sTRB, Sw [(Absolute, OW 0x1c), (DirectPage, OB 0x14)]),
    (sTSB, Sw [(Absolute, OW 0x0c), (DirectPage, OB 0x04)]),
    (sTSA, Sw [(Implied, OBYTE 0x3b)]),
    (sTSC, Sw [(Implied, OBYTE 0x3b)]),
    (sTSX, Sw [(Implied, OBYTE 0xba)]),
    (sTXA, Sw [(Implied, OBYTE 0x8a)]),
    (sTXS, Sw [(Implied, OBYTE 0x9a)]),
    (sTXY, Sw [(Implied, OBYTE 0x9b)]),
    (sTYA, Sw [(Implied, OBYTE 0x98)]),
    (sTYX, Sw [(Implied, OBYTE 0xbb)]),
    (sWAI, Sw [(Implied, OBYTE 0xcb)]),
    (sWDM, Sw [(Immediate, OB 0x42)]),
    (sSWA, Sw [(Implied, OBYTE 0xeb)]),
    (sXBA, Sw [(Implied, OBYTE 0xeb)]),
    (sXCE, Sw [(Implied, OBYTE 0xfb)])]"

definition gen_816_table :: switch_table where
  "gen_816_table = gen_816_part1 @ gen_816_part2 @ gen_816_part3 @ gen_816_part4 @ gen_816_part5 @ gen_816_part6"

definition gen_816 :: "instr \<Rightarrow> addr_mode \<Rightarrow> u32 \<Rightarrow> u32 \<Rightarrow> cg \<Rightarrow> cg" where
  "gen_816 i m v1 v2 s = run_table ''65C816'' gen_816_table i m v1 v2 0 s"

end
