(* ===== verification/Gen_RC19.thy ===== *)
theory Gen_RC19
  imports Emit
begin

text \<open>
  \<open>shared/src/gen_RC19.c\<close>: the Rockwell C19 (and L28) instruction set, as a switch table. Every \<open>case s...:\<close> block of
  the outer switch is one entry, in the source's order; \<open>case\<close> labels that share a body repeat it.
  The table is cut into parts only to keep the definitions readable.
\<close>

definition gen_RC19_part1 :: switch_table where [table_defs]:
  "gen_RC19_part1 =
   [(sADC, Sw [(Immediate, OB 0x69), (DirectPage, OB 0x65), (DirectPageIndexedX, OB 0x75),
        (Absolute, OW 0x6d), (AbsoluteIndexedX, OW 0x7d), (AbsoluteIndexedY, OW 0x79),
        (AbsoluteIndirect, OB 0x61), (DirectPageIndirect, OB 0x61),
        (DirectPageIndexedIndirectX, OB 0x71)]),
    (sADD, Sw [(Immediate, OB 0x89), (DirectPage, OB 0x64), (DirectPageIndexedX, OB 0x74)]),
    (sAND, Sw [(Immediate, OB 0x29), (DirectPage, OB 0x25), (DirectPageIndexedX, OB 0x35),
        (Absolute, OW 0x2d), (AbsoluteIndexedX, OW 0x3d), (AbsoluteIndexedY, OW 0x39),
        (AbsoluteIndirect, OB 0x21), (DirectPageIndirect, OB 0x21),
        (DirectPageIndexedIndirectX, OB 0x31)]),
    (sASL, Sw [(Accumulator, OBYTE 0x0a), (Implied, OBYTE 0x0a), (DirectPage, OB 0x06),
        (DirectPageIndexedX, OB 0x16), (Absolute, OW 0x0e), (AbsoluteIndexedX, OW 0x1e)]),
    (sASR, Sw [(Implied, OBYTE 0x3a), (Accumulator, OBYTE 0x3a)]),
    (sBAR, Sw [(BitAbsoluteRelative, OBITAR 0xe2)]),
    (sBAS, Sw [(BitAbsoluteRelative, OBITAR 0xf2)]),
    (sBBR, Sw [(BitAbsoluteRelative, OBITZR 0x0f), (BitZeroPageRelative, OBITZR 0x0f)]),
    (sBBS, Sw [(BitAbsoluteRelative, OBITZR 0x8f), (BitZeroPageRelative, OBITZR 0x8f)]),
    (sBCC, Sw [(DirectPage, OREL 0x90), (Absolute, OREL 0x90),
        (ProgramCounterRelative, OREL 0x90)]),
    (sBCS, Sw [(DirectPage, OREL 0xb0), (Absolute, OREL 0xb0),
        (ProgramCounterRelative, OREL 0xb0)]),
    (sBEQ, Sw [(Absolute, OREL 0xf0), (DirectPage, OREL 0xf0),
        (ProgramCounterRelative, OREL 0xf0)]),
    (sBIT, Sw [(DirectPage, OB 0x24), (Absolute, OW 0x2c)]),
    (sBMI, Sw [(DirectPage, OREL 0x30), (Absolute, OREL 0x30),
        (ProgramCounterRelative, OREL 0x30)]),
    (sBNE, Sw [(DirectPage, OREL 0xd0), (Absolute, OREL 0xd0),
        (ProgramCounterRelative, OREL 0xd0)]),
    (sBPL, Sw [(DirectPage, OREL 0x10), (Absolute, OREL 0x10),
        (ProgramCounterRelative, OREL 0x10)])]"

definition gen_RC19_part2 :: switch_table where [table_defs]:
  "gen_RC19_part2 =
   [(sBRA, Sw [(DirectPage, OREL 0x80), (Absolute, OREL 0x80),
        (ProgramCounterRelative, OREL 0x80)]),
    (sBRK, Sw [(Implied, OBYTE 0x00), (Immediate, OB 0x00)]),
    (sBVC, Sw [(DirectPage, OREL 0x50), (Absolute, OREL 0x50),
        (ProgramCounterRelative, OREL 0x50)]),
    (sBVS, Sw [(DirectPage, OREL 0x70), (Absolute, OREL 0x70),
        (ProgramCounterRelative, OREL 0x70)]),
    (sCLC, Sw [(Implied, OBYTE 0x18)]),
    (sCLD, Sw [(Implied, OBYTE 0xd8)]),
    (sCLI, Sw [(Implied, OBYTE 0x58)]),
    (sCLV, Sw [(Implied, OBYTE 0xb8)]),
    (sCLW, Sw [(Implied, OBYTE 0x52)]),
    (sCMP, Sw [(Immediate, OB 0xc9), (DirectPage, OB 0xc5), (DirectPageIndexedX, OB 0xd5),
        (Absolute, OW 0xcd), (AbsoluteIndexedX, OW 0xdd), (AbsoluteIndexedY, OW 0xd9),
        (AbsoluteIndirect, OB 0xc1), (DirectPageIndirect, OB 0xc1),
        (DirectPageIndexedIndirectX, OB 0xd1)]),
    (sCPX, Sw [(Immediate, OB 0xe0), (DirectPage, OB 0xe4), (Absolute, OW 0xec)]),
    (sCPY, Sw [(Immediate, OB 0xc0), (DirectPage, OB 0xc4), (Absolute, OW 0xcc)]),
    (sDEC, Sw [(DirectPage, OB 0xc6), (DirectPageIndexedX, OB 0xd6), (Absolute, OW 0xce),
        (AbsoluteIndexedX, OW 0xde)]),
    (sDEX, Sw [(Implied, OBYTE 0xca)]),
    (sDEY, Sw [(Implied, OBYTE 0x88)]),
    (sEOR, Sw [(Immediate, OB 0x49), (DirectPage, OB 0x45), (DirectPageIndexedX, OB 0x55),
        (Absolute, OW 0x4d), (AbsoluteIndexedX, OW 0x5d), (AbsoluteIndexedY, OW 0x59),
        (AbsoluteIndirect, OB 0x41), (DirectPageIndirect, OB 0x41),
        (DirectPageIndexedIndirectX, OB 0x51)]),
    (sEXC, Sw [(DirectPageIndexedX, OB 0xd4)])]"

definition gen_RC19_part3 :: switch_table where [table_defs]:
  "gen_RC19_part3 =
   [(sINC, Sw [(DirectPage, OB 0xe6), (DirectPageIndexedX, OB 0xf6), (Absolute, OW 0xee),
        (AbsoluteIndexedX, OW 0xfe)]),
    (sINI, Sw [(Implied, OBYTE 0xbb)]),
    (sINX, Sw [(Implied, OBYTE 0xe8)]),
    (sINY, Sw [(Implied, OBYTE 0xc8)]),
    (sJMP, Sw [(DirectPage, OW 0x4c), (Absolute, OW 0x4c), (AbsoluteIndirect, OW 0x6c),
        (AbsoluteIndexedIndirect, OW 0x7c)]),
    (sJPI, Sw [(AbsoluteIndirect, OW 0x0c)]),
    (sJSB, Sw [(Immediate, OBits 0x0b), (DirectPage, OBits 0x0b)]),
    (sJSR, Sw [(DirectPage, OW 0x20), (Absolute, OW 0x20)]),
    (sLAB, Sw [(Implied, OBYTE 0x13), (Accumulator, OBYTE 0x13)]),
    (sLAI, Sw [(Implied, OBYTE 0xeb)]),
    (sLAN, Sw [(Implied, OBYTE 0xab)]),
    (sLDA, Sw [(Immediate, OB 0xa9), (DirectPage, OB 0xa5), (DirectPageIndexedX, OB 0xb5),
        (Absolute, OW 0xad), (AbsoluteIndexedX, OW 0xbd), (AbsoluteIndexedY, OW 0xb9),
        (AbsoluteIndirect, OB 0xa1), (DirectPageIndirect, OB 0xa1),
        (DirectPageIndexedIndirectX, OB 0xb1)]),
    (sLDX, Sw [(Immediate, OB 0xa2), (DirectPage, OB 0xa6), (DirectPageIndexedY, OB 0xb6),
        (Absolute, OW 0xae), (AbsoluteIndexedY, OW 0xbe)]),
    (sLDY, Sw [(Immediate, OB 0xa0), (DirectPage, OB 0xa4), (DirectPageIndexedX, OB 0xb4),
        (Absolute, OW 0xac), (AbsoluteIndexedX, OW 0xbc)]),
    (sLII, Sw [(Implied, OBYTE 0x9b)]),
    (sLSR, Sw [(Implied, OBYTE 0x4a), (Accumulator, OBYTE 0x4a), (DirectPage, OB 0x46),
        (DirectPageIndexedX, OB 0x56), (Absolute, OW 0x4e), (AbsoluteIndexedX, OW 0x5e)]),
    (sMPA, Sw [(Implied, OBYTE 0x12)]),
    (sMPY, Sw [(Implied, OBYTE 0x02)])]"

definition gen_RC19_part4 :: switch_table where [table_defs]:
  "gen_RC19_part4 =
   [(sNEG, Sw [(Implied, OBYTE 0x1a), (Accumulator, OBYTE 0x1a)]),
    (sNOP, Sw [(Implied, OBYTE 0xea)]),
    (sNXT, Sw [(Implied, OBYTE 0x8b)]),
    (sORA, Sw [(Immediate, OB 0x09), (DirectPage, OB 0x05), (DirectPageIndexedX, OB 0x15),
        (Absolute, OW 0x0d), (AbsoluteIndexedX, OW 0x1d), (AbsoluteIndexedY, OW 0x19),
        (AbsoluteIndirect, OB 0x01), (DirectPageIndirect, OB 0x01),
        (DirectPageIndexedIndirectX, OB 0x11)]),
    (sPHA, Sw [(Implied, OBYTE 0x48)]),
    (sPHI, Sw [(Implied, OBYTE 0xcb)]),
    (sPHP, Sw [(Implied, OBYTE 0x08)]),
    (sPHW, Sw [(Implied, OBYTE 0x23)]),
    (sPHX, Sw [(Implied, OBYTE 0xda)]),
    (sPHY, Sw [(Implied, OBYTE 0x5a)]),
    (sPIA, Sw [(Implied, OBYTE 0xfb)]),
    (sPLA, Sw [(Implied, OBYTE 0x68)]),
    (sPLI, Sw [(Implied, OBYTE 0xdb)]),
    (sPLP, Sw [(Implied, OBYTE 0x28)]),
    (sPLW, Sw [(Implied, OBYTE 0x33)]),
    (sPLX, Sw [(Implied, OBYTE 0xfa)]),
    (sPLY, Sw [(Implied, OBYTE 0x7a)]),
    (sPSH, Sw [(Implied, OBYTE 0x22)]),
    (sPUL, Sw [(Implied, OBYTE 0x32)]),
    (sRBA, Sw [(BlockMove, OBITA 0xc2), (BitAbsolute, OBITA 0xc2)]),
    (sRMB, Sw [(BlockMove, OBBits 0x07), (BitZeroPage, OBBits 0x07)])]"

definition gen_RC19_part5 :: switch_table where [table_defs]:
  "gen_RC19_part5 =
   [(sRND, Sw [(Implied, OBYTE 0x42)]),
    (sROL, Sw [(Implied, OBYTE 0x2a), (Accumulator, OBYTE 0x2a), (DirectPage, OB 0x26),
        (DirectPageIndexedX, OB 0x36), (Absolute, OW 0x2e), (AbsoluteIndexedX, OW 0x3e)]),
    (sROR, Sw [(Implied, OBYTE 0x6a), (Accumulator, OBYTE 0x6a), (DirectPage, OB 0x66),
        (DirectPageIndexedX, OB 0x76), (Absolute, OW 0x6e), (AbsoluteIndexedX, OW 0x7e)]),
    (sRTI, Sw [(Implied, OBYTE 0x40)]),
    (sRTS, Sw [(Implied, OBYTE 0x60)]),
    (sSBA, Sw [(BlockMove, OBITA 0xd2), (BitAbsolute, OBITA 0xd2)]),
    (sSBC, Sw [(Immediate, OB 0xe9), (DirectPage, OB 0xe5), (DirectPageIndexedX, OB 0xf5),
        (Absolute, OW 0xed), (AbsoluteIndexedX, OW 0xfd), (AbsoluteIndexedY, OW 0xf9),
        (AbsoluteIndirect, OB 0xe1), (DirectPageIndirect, OB 0xe1),
        (DirectPageIndexedIndirectX, OB 0xf1)]),
    (sSEC, Sw [(Implied, OBYTE 0x38)]),
    (sSED, Sw [(Implied, OBYTE 0xf8)]),
    (sSEI, Sw [(Implied, OBYTE 0x78)]),
    (sSMB, Sw [(BlockMove, OBBits 0x87), (BitZeroPage, OBBits 0x87)]),
    (sSTA, Sw [(DirectPage, OB 0x85), (DirectPageIndexedX, OB 0x95), (Absolute, OW 0x8d),
        (AbsoluteIndexedX, OW 0x9d), (DirectPageIndexedY, OW 0x99),
        (AbsoluteIndexedY, OW 0x99), (AbsoluteIndirect, OB 0x81),
        (DirectPageIndirect, OB 0x81), (DirectPageIndexedIndirectX, OB 0x91)]),
    (sSTI, Sw [(BlockMove, OIZ 0xb2), (ImmediateZeroPage, OIZ 0xb2)]),
    (sSTX, Sw [(DirectPage, OB 0x86), (DirectPageIndexedY, OW 0x96), (Absolute, OW 0x8e)]),
    (sSTY, Sw [(DirectPage, OB 0x84), (DirectPageIndexedX, OB 0x94), (Absolute, OW 0x8c)]),
    (sTAW, Sw [(Implied, OBYTE 0x62)]),
    (sTAX, Sw [(Implied, OBYTE 0xaa)])]"

definition gen_RC19_part6 :: switch_table where [table_defs]:
  "gen_RC19_part6 =
   [(sTAY, Sw [(Implied, OBYTE 0xa8)]),
    (sTIP, Sw [(Implied, OBYTE 0x03)]),
    (sTSX, Sw [(Implied, OBYTE 0xba)]),
    (sTWA, Sw [(Implied, OBYTE 0x72)]),
    (sTXA, Sw [(Implied, OBYTE 0x8a)]),
    (sTXS, Sw [(Implied, OBYTE 0x9a)]),
    (sTYA, Sw [(Implied, OBYTE 0x98)])]"

definition gen_RC19_table :: switch_table where
  "gen_RC19_table = gen_RC19_part1 @ gen_RC19_part2 @ gen_RC19_part3 @ gen_RC19_part4 @ gen_RC19_part5 @ gen_RC19_part6"

definition gen_RC19 :: "instr \<Rightarrow> addr_mode \<Rightarrow> u32 \<Rightarrow> u32 \<Rightarrow> u32 \<Rightarrow> cg \<Rightarrow> cg" where
  "gen_RC19 i m v1 v2 v3 s = run_table ''RC19'' gen_RC19_table i m v1 v2 v3 s"

end
