(* ===== verification/Encoder.thy ===== *)
theory Encoder
  imports Emission Gen_02 Gen_C02 Gen_RC02 Gen_816 Gen_RC19
begin

text \<open>
  \<open>codegen_gen\<close> (shared/src/codegen.c): choosing the addressing mode from the operand, the
  modifier and the parsed mode, and dispatching on the machine of the ELF header. The theorems
  at the end say what one assembled instruction does to the section, its address and the log.
\<close>

subsection \<open>The code\<close>

definition is_dp :: "u32 \<Rightarrow> bool" where
  "is_dp ad = (ad <s 0x100)"

definition is_long_program :: "u32 \<Rightarrow> bool" where
  "is_long_program ad = (0xffff <s ad)"

definition is_long_data :: "u32 \<Rightarrow> bool" where
  "is_long_data ad = (0xffff <s ad)"

text \<open>The first half of \<open>codegen_gen\<close>; the two last tests leave \<open>AbsoluteIndirect\<close> as it is.\<close>

definition resolve_mode :: "addr_mode \<Rightarrow> modifier \<Rightarrow> u32 \<Rightarrow> addr_mode" where
  "resolve_mode m md value1 =
     (if m = Absolute then
        (if md = MDirect \<or> md = MByte then DirectPage
         else if is_dp value1 \<and> (md \<noteq> MAbsolute \<and> md \<noteq> MWord) then DirectPage
         else m)
      else if m = AbsoluteIndexedX then
        (if md = MDirect then DirectPageIndexedX
         else if is_dp value1 \<and> (md \<noteq> MAbsolute \<and> md \<noteq> MWord) then DirectPageIndexedX
         else if md = MLong \<or> 0xffff <s value1 then AbsoluteLongIndexedX
         else m)
      else if m = AbsoluteIndexedY then
        (if md = MDirect then DirectPageIndexedY
         else if is_dp value1 \<and> (md \<noteq> MAbsolute \<and> md \<noteq> MWord) then DirectPageIndexedY
         else m)
      else if m = AbsoluteIndexedIndirect then
        (if md = MDirect then DirectPageIndexedIndirectX
         else if is_dp value1 \<and> md \<noteq> MAbsolute then DirectPageIndexedIndirectX
         else m)
      else if m = AbsoluteIndirect then
        (if md = MLong then AbsoluteIndirectLong
         else if is_long_data value1 \<and> md \<noteq> MAbsolute then AbsoluteIndirectLong
         else if md = MDirect \<or> md = MByte then AbsoluteIndirect
         else if is_dp value1 \<and> (md \<noteq> MAbsolute \<and> md \<noteq> MWord) then AbsoluteIndirect
         else m)
      else m)"

definition EM_NONE :: u16 where "EM_NONE = 0"
definition EM_816 :: u16 where "EM_816 = 1"
definition EM_C02 :: u16 where "EM_C02 = 2"
definition EM_02 :: u16 where "EM_02 = 3"
definition EM_RC02 :: u16 where "EM_RC02 = 4"
definition EM_RC19 :: u16 where "EM_RC19 = 5"
definition EM_RC01 :: u16 where "EM_RC01 = 6"

lemmas machine_defs = EM_NONE_def EM_816_def EM_C02_def EM_02_def EM_RC02_def EM_RC19_def EM_RC01_def

definition codegen_gen :: "instr \<Rightarrow> u32 \<Rightarrow> u32 \<Rightarrow> u32 \<Rightarrow> cg \<Rightarrow> cg" where
  "codegen_gen i value1 value2 value3 s =
     (let m = resolve_mode (mode i) (modifier i) value1
      in if e_machine s = EM_816 then gen_816 i m value1 value2 s
         else if e_machine s = EM_C02 then gen_C02 i m value1 value2 s
         else if e_machine s = EM_02 then gen_02 i m value1 value2 s
         else if e_machine s = EM_RC02 then gen_RC02 i m value1 value2 value3 s
         else if e_machine s = EM_RC01 then gen_RC02 i m value1 value2 value3 s
         else if e_machine s = EM_RC19 then gen_RC19 i m value1 value2 value3 s
         else s)"

subsection \<open>What it selects and what it writes\<close>

text \<open>The switch of a machine; \<open>None\<close> when \<open>codegen_gen\<close> has no case for it.\<close>

definition machine_table :: "u16 \<Rightarrow> switch_table option" where
  "machine_table em =
     (if em = EM_816 then Some gen_816_table
      else if em = EM_C02 then Some gen_C02_table
      else if em = EM_02 then Some gen_02_table
      else if em = EM_RC02 \<or> em = EM_RC01 then Some gen_RC02_table
      else if em = EM_RC19 then Some gen_RC19_table
      else None)"

definition selected :: "u16 \<Rightarrow> instr \<Rightarrow> u32 \<Rightarrow> outcome" where
  "selected em i v1 =
     (case machine_table em of
        None \<Rightarrow> Quiet
      | Some t \<Rightarrow> select t (opcode i) (resolve_mode (mode i) (modifier i) v1) v1)"

text \<open>Only the Rockwell processors have instructions with three operands.\<close>

definition third :: "u16 \<Rightarrow> u32 \<Rightarrow> u32" where
  "third em v3 = (if em = EM_RC02 \<or> em = EM_RC01 \<or> em = EM_RC19 then v3 else 0)"

definition gen_bytes :: "instr \<Rightarrow> u32 \<Rightarrow> u32 \<Rightarrow> u32 \<Rightarrow> cg \<Rightarrow> u8 list" where
  "gen_bytes i v1 v2 v3 s =
     (case selected (e_machine s) i v1 of
        Emit c \<Rightarrow> call_bytes c v1 v2 (third (e_machine s) v3) s
      | _ \<Rightarrow> [])"

definition machine_name :: "u16 \<Rightarrow> string" where
  "machine_name em =
     (if em = EM_816 then ''65C816'' else if em = EM_C02 then ''65C02''
      else if em = EM_02 then ''6502''
      else if em = EM_RC02 \<or> em = EM_RC01 then ''RC02'' else ''RC19'')"

definition gen_note :: "instr \<Rightarrow> u32 \<Rightarrow> cg \<Rightarrow> cg" where
  "gen_note i v1 s =
     (case selected (e_machine s) i v1 of
        Emit c \<Rightarrow> note_call c v1 s
      | Quiet \<Rightarrow> s
      | Unsupported \<Rightarrow>
          report (NotSupported (token_to_string (opcode i))
            (mode_to_string (resolve_mode (mode i) (modifier i) v1))
            (machine_name (e_machine s))) s)"

subsection \<open>\<open>codegen_gen\<close> records and then writes\<close>

lemma run_table_select:
  "run_table cpu t i m v1 v2 v3 s =
     (case select t (opcode i) m v1 of
        Emit c \<Rightarrow> fold o_byte (call_bytes c v1 v2 v3 s) (note_call c v1 s)
      | Quiet \<Rightarrow> s
      | Unsupported \<Rightarrow>
          report (NotSupported (token_to_string (opcode i)) (mode_to_string m) cpu) s)"
  by (simp add: run_table_def run_call_bytes split: outcome.split)

lemma codegen_gen_table:
  "codegen_gen i v1 v2 v3 s =
     (case machine_table (e_machine s) of
        None \<Rightarrow> s
      | Some t \<Rightarrow> run_table (machine_name (e_machine s)) t i
                   (resolve_mode (mode i) (modifier i) v1) v1 v2 (third (e_machine s) v3) s)"
  by (simp add: codegen_gen_def machine_table_def machine_name_def third_def Let_def
      gen_816_def gen_C02_def gen_02_def gen_RC02_def gen_RC19_def machine_defs)

lemma codegen_gen_fold:
  "codegen_gen i v1 v2 v3 s = fold o_byte (gen_bytes i v1 v2 v3 s) (gen_note i v1 s)"
  by (simp add: codegen_gen_table run_table_select gen_bytes_def gen_note_def selected_def
      split: option.split outcome.split)

lemma gen_note_fields [simp]:
  "addr (gen_note i v s) = addr s" "longa (gen_note i v s) = longa s"
  "longi (gen_note i v s) = longi s" "current_pass (gen_note i v s) = current_pass s"
  "e_machine (gen_note i v s) = e_machine s" "sec (gen_note i v s) = sec s"
  "code_of (gen_note i v s) = code_of s" "storing (gen_note i v s) = storing s"
  by (simp_all add: gen_note_def code_of_def storing_def split: outcome.split)

lemma code_codegen_gen:
  "storing s \<Longrightarrow> code_of (codegen_gen i v1 v2 v3 s) = code_of s @ gen_bytes i v1 v2 v3 s"
  by (simp add: codegen_gen_fold sink.contents_fold)

lemma storing_codegen_gen: "storing s \<Longrightarrow> storing (codegen_gen i v1 v2 v3 s)"
  by (simp add: codegen_gen_fold sink.within_fold)

lemma addr_codegen_gen:
  "addr (codegen_gen i v1 v2 v3 s) = addr s + of_nat (length (gen_bytes i v1 v2 v3 s))"
  by (simp add: codegen_gen_fold sink.pos_fold)

lemma log_codegen_gen: "log (codegen_gen i v1 v2 v3 s) = log (gen_note i v1 s)"
  by (simp add: codegen_gen_fold)

lemma codegen_gen_fields [simp]:
  "longa (codegen_gen i v1 v2 v3 s) = longa s" "longi (codegen_gen i v1 v2 v3 s) = longi s"
  "e_machine (codegen_gen i v1 v2 v3 s) = e_machine s"
  by (simp_all add: codegen_gen_fold)

end
