(* ===== verification/Encoding.thy ===== *)
theory Encoding
  imports Encoder
begin

text \<open>
  What one call of \<open>codegen_gen\<close> guarantees: the bytes and the address advance together, the
  size of an instruction does not depend on where it is assembled, branch operands lead to
  their target or are reported, and a program for a smaller processor assembles to the same
  bytes for the larger one.
\<close>

subsection \<open>Checks over the five tables\<close>

definition all_tables :: "(symbol \<Rightarrow> addr_mode \<Rightarrow> call \<Rightarrow> bool) \<Rightarrow> bool" where
  "all_tables P \<longleftrightarrow> all_calls P gen_816_table \<and> all_calls P gen_C02_table \<and>
     all_calls P gen_02_table \<and> all_calls P gen_RC02_table \<and> all_calls P gen_RC19_table"

lemma selected_all_tables:
  assumes "selected em i v1 = Emit c" and "all_tables P"
  shows "P (opcode i) (resolve_mode (mode i) (modifier i) v1) c"
proof -
  from assms(1) obtain t where t: "machine_table em = Some t"
    and c: "select t (opcode i) (resolve_mode (mode i) (modifier i) v1) v1 = Emit c"
    by (auto simp: selected_def split: option.splits)
  from t assms(2) have "all_calls P t"
    by (auto simp: machine_table_def all_tables_def split: if_splits)
  with c show ?thesis by (rule select_all_calls)
qed

lemma promoting_only_bra_brl:
  "all_tables (\<lambda>op m c. promoting c \<longrightarrow> op = sBRA \<or> op = sBRL)"
  unfolding all_tables_def
  by (intro conjI)
    (simp_all add: all_calls_def promoting_def gen_816_table_def gen_C02_table_def
      gen_02_table_def gen_RC02_table_def gen_RC19_table_def table_defs)

lemma select_same_zero:
  "(v = 0 \<longleftrightarrow> v' = 0) \<Longrightarrow> select t op m v = select t op m v'"
  by (auto simp: select_def split: option.split)
    (metis select_block.simps block.exhaust)+

text \<open>The mode \<open>codegen_gen\<close> chooses depends on the operand only through its size class.\<close>

lemma resolve_mode_class:
  "is_dp v = is_dp v' \<Longrightarrow> is_long_data v = is_long_data v' \<Longrightarrow>
     resolve_mode m md v = resolve_mode m md v'"
  by (simp add: resolve_mode_def is_long_data_def)

lemma selected_same_class:
  assumes "is_dp v = is_dp v'" "is_long_data v = is_long_data v'" "v = 0 \<longleftrightarrow> v' = 0"
  shows "selected em i v = selected em i v'"
  unfolding selected_def
  using resolve_mode_class [OF assms(1,2)] select_same_zero [OF assms(3)]
  by (simp split: option.split)

subsection \<open>Bytes and address\<close>

text \<open>
  C4. Assembling one instruction into a section that stores bytes appends exactly the bytes of
  the selected emitter, moves the address by their number, leaves every earlier byte alone and
  keeps the section's array within its allocation.
\<close>

theorem codegen_gen_appends:
  assumes "storing s"
  shows "code_of (codegen_gen i v1 v2 v3 s) = code_of s @ gen_bytes i v1 v2 v3 s \<and>
    addr (codegen_gen i v1 v2 v3 s) = addr s + of_nat (length (gen_bytes i v1 v2 v3 s)) \<and>
    storing (codegen_gen i v1 v2 v3 s)"
  using assms by (simp add: code_codegen_gen storing_codegen_gen addr_codegen_gen)

definition demo_section :: elf_section where
  "demo_section = \<lparr>sh_type = SHT_PROGBITS, sh_flags = SHF_ALLOC, sh_addr = 0x8000, data = vec_empty\<rparr>"

definition demo :: "u16 \<Rightarrow> cg" where
  "demo em = \<lparr>addr = 0x8000, longa = False, longi = False, reloc = [], current_pass = 0,
              e_machine = em, sec = demo_section, log = []\<rparr>"

lemma storing_demo: "storing (demo em)"
  by (simp add: storing_def demo_def demo_section_def section_is_bss_def vec_ok_empty
      SHT_NOBITS_def SHT_PROGBITS_def)

lemma codegen_gen_appends_witness:
  "code_of (codegen_gen \<lparr>opcode = sLDA, mode = Absolute, modifier = MNone\<rparr> 0x1234 0 0 (demo EM_816))
     = [0xad, 0x34, 0x12]"
proof -
  let ?i = "\<lparr>opcode = sLDA, mode = Absolute, modifier = MNone\<rparr>"
  have b: "gen_bytes ?i 0x1234 0 0 (demo EM_816) = [0xad, 0x34, 0x12]"
    by code_simp
  have c: "code_of (demo EM_816) = []"
    by (simp add: code_of_def demo_def demo_section_def vec_empty_def)
  show ?thesis
    using codegen_gen_appends [OF storing_demo, of ?i "0x1234" 0 0 EM_816] unfolding b c by simp
qed

text \<open>
  In a \<open>bss\<close> section the same instruction stores nothing and only moves the address, by the
  same amount as it would in a section with contents.
\<close>

theorem codegen_gen_bss:
  assumes "section_is_bss (sec s)"
  shows "code_of (codegen_gen i v1 v2 v3 s) = code_of s \<and>
    addr (codegen_gen i v1 v2 v3 s) =
      addr s + of_nat (length (gen_bytes i v1 v2 v3 (s\<lparr>sec := sec'\<rparr>)))"
proof -
  have same: "call_bytes c v1 v2 w (s\<lparr>sec := sec'\<rparr>) = call_bytes c v1 v2 w s" for c w
    by (cases c) simp_all
  have "gen_bytes i v1 v2 v3 (s\<lparr>sec := sec'\<rparr>) = gen_bytes i v1 v2 v3 s"
    by (simp add: gen_bytes_def same split: outcome.split)
  then show ?thesis
    using assms by (simp add: codegen_gen_fold bss_no_code sink.pos_fold)
qed

definition demo_bss :: cg where
  "demo_bss = (demo EM_C02)\<lparr>sec := demo_section\<lparr>sh_type := SHT_NOBITS\<rparr>\<rparr>"

lemma codegen_gen_bss_witness:
  "addr (codegen_gen \<lparr>opcode = sJMP, mode = Absolute, modifier = MNone\<rparr> 0x1234 0 0 demo_bss)
     = 0x8003"
proof -
  let ?i = "\<lparr>opcode = sJMP, mode = Absolute, modifier = MNone\<rparr>"
  have b: "section_is_bss (sec demo_bss)" by code_simp
  have n: "length (gen_bytes ?i 0x1234 0 0 (demo_bss\<lparr>sec := demo_section\<rparr>)) = 3"
    by code_simp
  have a: "addr demo_bss = 0x8000" by (simp add: demo_bss_def demo_def)
  show ?thesis
    using codegen_gen_bss [OF b, of ?i "0x1234" 0 0 demo_section] unfolding n a by simp
qed

text \<open>
  C16. An instruction other than \<open>BRA\<close> and \<open>BRL\<close> occupies the same number of bytes in every
  pass: its size is the same at any two addresses, in any two sections and for any two operands
  of one size class (below \<open>$100\<close>, above \<open>$ffff\<close>, zero), as long as the machine and the register
  widths agree. So a forward reference guessed in the right class moves no label.
\<close>

theorem codegen_gen_pass_stable:
  assumes "e_machine s = e_machine t" "longa s = longa t" "longi s = longi t"
    and "is_dp v = is_dp v'" "is_long_data v = is_long_data v'" "v = 0 \<longleftrightarrow> v' = 0"
    and "opcode i \<noteq> sBRA" "opcode i \<noteq> sBRL"
  shows "addr (codegen_gen i v v2 v3 s) - addr s = addr (codegen_gen i v' v2' v3' t) - addr t"
proof -
  have "length (gen_bytes i v v2 v3 s) = length (gen_bytes i v' v2' v3' t)"
  proof (cases "selected (e_machine s) i v")
    case (Emit c)
    then have "\<not> promoting c"
      using selected_all_tables [OF Emit promoting_only_bra_brl] assms(7,8) by blast
    moreover have "selected (e_machine t) i v' = Emit c"
      using Emit selected_same_class [OF assms(4,5,6)] assms(1) by simp
    ultimately show ?thesis
      using Emit assms(2,3) by (simp add: gen_bytes_def length_call_bytes)
  qed (use selected_same_class [OF assms(4,5,6)] assms(1) in \<open>simp_all add: gen_bytes_def\<close>)
  then show ?thesis by (simp add: addr_codegen_gen)
qed

lemma codegen_gen_pass_stable_witness:
  "addr (codegen_gen \<lparr>opcode = sSTA, mode = Absolute, modifier = MNone\<rparr> 0x200 0 0 (demo EM_816))
     - addr (demo EM_816) =
   addr (codegen_gen \<lparr>opcode = sSTA, mode = Absolute, modifier = MNone\<rparr> 0x4321 0 0
           ((demo EM_816)\<lparr>addr := 0x9000\<rparr>)) - 0x9000"
  using codegen_gen_pass_stable [of "demo EM_816" "(demo EM_816)\<lparr>addr := 0x9000\<rparr>" "0x200" "0x4321"
      "\<lparr>opcode = sSTA, mode = Absolute, modifier = MNone\<rparr>" 0 0 0 0]
  by (simp add: is_dp_def is_long_data_def word_sless_alt)

subsection \<open>Branches\<close>

text \<open>Displacements are computed in \<open>long\<close> and kept in \<open>int\<close>; only the low 32 bits matter.\<close>

lemma take_bit_32_64:
  "take_bit 32 (take_bit 64 a + take_bit 64 b) = take_bit 32 (a + b :: int)"
  "take_bit 32 (take_bit 64 a - take_bit 64 b) = take_bit 32 (a - b :: int)"
  using take_bit_add [of 32 "take_bit 64 a" "take_bit 64 b"] take_bit_add [of 32 a b]
    take_bit_diff [of 32 "take_bit 64 a" "take_bit 64 b"] take_bit_diff [of 32 a b]
  by simp_all

lemma ucast_plus_32: "(ucast (a + b :: u64) :: u32) = ucast a + ucast b"
  by transfer (simp add: take_bit_add take_bit_32_64)

lemma ucast_minus_32: "(ucast (a - b :: u64) :: u32) = ucast a - ucast b"
  by transfer (simp add: take_bit_diff take_bit_32_64)

lemma ucast_of_nat_32: "(ucast (of_nat k :: u64) :: u32) = of_nat k"
  by transfer simp
lemma ucast_scast_32: "(ucast (scast v :: u64) :: u32) = v"
  by (rule bit_word_eqI) (simp add: bit_simps)
lemma displacement_eq: "displacement k v a = v - (ucast a + of_nat k)"
  by (simp add: displacement_def ucast_minus_32 ucast_plus_32 ucast_scast_32 ucast_of_nat_32)

lemma rel8_back:
  assumes "\<not> out_of_range8 r" shows "scast (ucast r :: u8) = (r :: u32)"
proof -
  have "signed_take_bit 7 (sint r) = sint r"
    using assms by (intro signed_take_bit_int_eq_self) (auto simp: out_of_range8_def)
  moreover have "sint (ucast r :: u8) = signed_take_bit 7 (sint r)"
    by (transfer) (simp add: signed_take_bit_take_bit)
  ultimately show ?thesis
    by (metis scast_eq scast_id)
qed
lemma ucast_and_mask_16: "(ucast (r AND mask 16) :: u16) = ucast (r :: u32)"
  by (rule bit_word_eqI) (auto simp: bit_simps)

lemma rel16_back:
  assumes "\<not> out_of_range16 r" shows "scast (ucast r :: u16) = (r :: u32)"
proof -
  have "signed_take_bit 15 (sint r) = sint r"
    using assms by (intro signed_take_bit_int_eq_self) (auto simp: out_of_range16_def)
  moreover have "sint (ucast r :: u16) = signed_take_bit 15 (sint r)"
    by (transfer) (simp add: signed_take_bit_take_bit)
  ultimately show ?thesis
    by (metis scast_eq scast_id)
qed

lemma sint_dec:
  assumes "- 2147483648 < sint (y :: u32)" shows "sint (y - 1) = sint y - 1"
proof -
  have "sint (y - 1) = signed_take_bit 31 (sint y - 1)"
    using sint_sbintrunc' [of "sint y - 1", where 'a = 32] by simp
  also have "\<dots> = sint y - 1"
    using assms sint_less [of y] by (intro signed_take_bit_int_eq_self) auto
  finally show ?thesis .
qed

text \<open>
  How far the target \<open>v\<close> is from the end of a \<open>k\<close>-byte instruction, and where the processor
  goes when it executes a branch: the displacement in the last byte (or, for the long form of
  \<open>BRA\<close>, in the two last bytes) counts from the end of the instruction.
\<close>

definition reach :: "nat \<Rightarrow> cg \<Rightarrow> u32 \<Rightarrow> int" where
  "reach k s v = sint (v - (ucast (addr s) + of_nat k))"

definition short_dest :: "u64 \<Rightarrow> u8 list \<Rightarrow> u32" where
  "short_dest a bs = ucast a + of_nat (length bs) + scast (last bs)"

definition long_dest :: "u64 \<Rightarrow> u8 list \<Rightarrow> u32" where
  "long_dest a bs = ucast a + 3 + scast (ucast (le_value (tl bs)) :: u16)"

definition branch_dest :: "u64 \<Rightarrow> u8 list \<Rightarrow> u32" where
  "branch_dest a bs = (if length bs = 3 then long_dest a bs else short_dest a bs)"

lemma short_dest_rel8:
  assumes "\<not> out_of_range8 (displacement 1 v (a + of_nat k))" and "length bs = k"
  shows "short_dest a (bs @ [rel8 v (a + of_nat k)]) = v"
  using rel8_back [OF assms(1)] assms(2)
  by (simp add: short_dest_def rel8_def displacement_eq ucast_plus_32 ucast_of_nat_32)

lemma long_dest_rel16:
  assumes "\<not> out_of_range16 (displacement 2 v (a + 1))"
  shows "long_dest a (op # rel16 v (a + 1)) = v"
  using rel16_back [OF assms]
  by (simp add: long_dest_def rel16_def le_value_2 [unfolded One_nat_def] ucast_and_mask_16
      displacement_eq ucast_plus_32 del: le_value.simps)

fun short_branch :: "call \<Rightarrow> bool" where
  "short_branch (OREL op) = True"
| "short_branch (OBITAR op) = True"
| "short_branch (OBITZR op) = True"
| "short_branch c = False"

lemma short_branch_bytes:
  assumes "short_branch c"
  shows "\<exists>bs. call_bytes c v1 v2 v3 s = bs @ [rel8 v1 (addr s + of_nat (length bs))] \<and>
    note_call c v1 s = note_branch8 v1 (addr s + of_nat (length bs)) s"
proof (cases c)
  case (OREL op)
  then show ?thesis by (intro exI [of _ "[op]"]) simp
next
  case (OBITAR op)
  then show ?thesis by (intro exI [of _ "[op, ucast v2, byte_at 0 v3, byte_at 1 v3]"]) simp
next
  case (OBITZR op)
  then show ?thesis by (intro exI [of _ "[op_bit op v3, byte_at 0 v2]"]) simp
qed (use assms in simp_all)

text \<open>
  C6. A short relative branch, plain (\<open>BNE\<close>) or on a bit (\<open>BBR\<close>, \<open>BAR\<close>), takes the processor
  to the operand's value whenever that is within -128..127 of the end of the instruction, and
  the assembler reports it, in the passes that report, exactly when it is not.
\<close>

theorem branch_reaches_target:
  assumes "selected (e_machine s) i v1 = Emit c" and "short_branch c"
  shows "let bs = gen_bytes i v1 v2 v3 s in
    (reach (length bs) s v1 \<in> {- 128..127} \<longrightarrow> short_dest (addr s) bs = v1) \<and>
    log (codegen_gen i v1 v2 v3 s) = log s @
      (if reach (length bs) s v1 \<notin> {- 128..127} \<and> current_pass s \<le> 0
       then [BranchOutOfRange] else [])"
proof -
  define bs where "bs = gen_bytes i v1 v2 v3 s"
  obtain xs where xs: "bs = xs @ [rel8 v1 (addr s + of_nat (length xs))]"
    and n: "note_call c v1 s = note_branch8 v1 (addr s + of_nat (length xs)) s"
    using short_branch_bytes [OF assms(2), of v1 v2 "third (e_machine s) v3" s] assms(1)
    by (auto simp: bs_def gen_bytes_def)
  have r: "reach (length bs) s v1 = sint (displacement 1 v1 (addr s + of_nat (length xs)))"
    by (simp add: reach_def xs displacement_eq ucast_plus_32 ucast_of_nat_32 add.commute add.left_commute)
  show ?thesis
    using short_dest_rel8 [of v1 "addr s" "length xs" xs] assms(1)
    by (auto simp: Let_def bs_def [symmetric] xs [symmetric] r log_codegen_gen gen_note_def n
        note_branch8_def range_error_def out_of_range8_def)
qed

lemma branch_reaches_target_witness:
  "short_dest 0x8000 [0xd0, 0xfe] = 0x8000 \<and>
   log (codegen_gen \<lparr>opcode = sBNE, mode = Absolute, modifier = MNone\<rparr> 0x8000 0 0 (demo EM_02)) = []"
proof -
  let ?i = "\<lparr>opcode = sBNE, mode = Absolute, modifier = MNone\<rparr>"
  have c: "selected (e_machine (demo EM_02)) ?i 0x8000 = Emit (OREL 0xd0)" by code_simp
  have b: "gen_bytes ?i 0x8000 0 0 (demo EM_02) = [0xd0, 0xfe]" by code_simp
  have d: "addr (demo EM_02) = 0x8000" "log (demo EM_02) = []" by (simp_all add: demo_def)
  show ?thesis
    using branch_reaches_target [OF c, of 0 0]
    by (simp add: b d reach_def Let_def)
qed



text \<open>
  At that distance the test, which measures from before the opcode byte, takes the short
  form; the instruction is reported as out of range and leads elsewhere, although the long form
  would reach the target.
\<close>

theorem bra_816_minus_129:
  assumes "selected (e_machine s) i v1 = Emit c" "promoting c"
  assumes "reach 2 s v1 = - 129" "current_pass s \<le> 0"
  shows "BranchOutOfRange \<in> set (log (codegen_gen i v1 v2 v3 s)) \<and>
    branch_dest (addr s) (gen_bytes i v1 v2 v3 s) \<noteq> v1"
proof -
  define a where "a = addr s"
  have x: "v1 - (ucast a + 2) = - 129"
  proof -
    have "v1 - (ucast a + 2) = word_of_int (sint (v1 - (ucast a + 2)))" by (simp only: of_int_sint scast_id)
    also have "sint (v1 - (ucast a + 2)) = - 129" using assms(3) by (simp add: reach_def a_def)
    finally show ?thesis by simp
  qed
  then have v: "v1 = ucast a - 127" by (simp add: algebra_simps)
  have short: "\<not> goes_long v1 a"
    by (simp add: goes_long_def out_of_range8_def displacement_eq v)
  have bad: "out_of_range8 (displacement 1 v1 (a + 1))"
    by (simp add: out_of_range8_def displacement_eq ucast_plus_32 v)
  have "rel8 v1 (a + 1) = 127"
    by (simp add: rel8_def displacement_eq ucast_plus_32 v)
  then have "branch_dest a [0x80, rel8 v1 (a + 1)] = ucast a + 129"
    by (simp add: branch_dest_def short_dest_def)
  moreover have "(ucast a + 129 :: u32) \<noteq> ucast a + (- 127)"
    unfolding add_left_cancel by simp
  ultimately have "branch_dest a [0x80, rel8 v1 (a + 1)] \<noteq> v1"
    unfolding v by simp
  then show ?thesis
    using assms(1,2,4) short bad
    by (auto simp: gen_bytes_def branch_816_bytes_def log_codegen_gen gen_note_def promoting_def a_def
        note_branch8_def range_error_def)
qed

lemma bra_816_minus_129_witness:
  "BranchOutOfRange \<in> set (log (codegen_gen \<lparr>opcode = sBRA, mode = Absolute, modifier = MNone\<rparr>
     0x7f81 0 0 (demo EM_816)))"
proof -
  let ?i = "\<lparr>opcode = sBRA, mode = Absolute, modifier = MNone\<rparr>"
  have c: "selected (e_machine (demo EM_816)) ?i 0x7f81 = Emit BRA_816" by code_simp
  have a: "addr (demo EM_816) = 0x8000" by (simp add: demo_def)
  have p: "current_pass (demo EM_816) \<le> 0" by (simp add: demo_def)
  show ?thesis
    using bra_816_minus_129 [OF c, of 0 0] p by (simp add: promoting_def reach_def a)
qed

subsection \<open>Programs of a smaller processor\<close>

text \<open>
  Two calls write the same code when they agree up to \<open>code_norm\<close>: the emitters with and without
  a relocation hook, the immediate forms with 8-bit registers, and the promoting \<open>BRA\<close>.
\<close>

fun code_norm :: "call \<Rightarrow> call" where
  "code_norm (ODP op) = OB op"
| "code_norm (OMA op) = OB op"
| "code_norm (OMI op) = OB op"
| "code_norm (OABS op) = OW op"
| "code_norm (OW_RELOC op) = OW op"
| "code_norm (OLONG op) = OL op"
| "code_norm (OL_RELOC op) = OL op"
| "code_norm BRA_816 = OREL 0x80"
| "code_norm c = c"

lemma code_norm_bytes:
  assumes "\<not> longa s" "\<not> longi s" "c = BRA_816 \<Longrightarrow> \<not> goes_long v1 (addr s)"
  shows "call_bytes (code_norm c) v1 v2 v3 s = call_bytes c v1 v2 v3 s"
  using assms by (cases c) (simp_all add: branch_816_bytes_def)

text \<open>
  \<open>covers t t'\<close>: \<open>t'\<close> has every arm of \<open>t\<close>, up to \<open>code_norm\<close>. The blocks of both stand in one
  order, so one walk along the two tables decides it.
\<close>

fun covers :: "switch_table \<Rightarrow> switch_table \<Rightarrow> bool" where
  "covers [] t' = True"
| "covers (x # t) [] = False"
| "covers ((op, b) # t) ((op', b') # t') =
     (if op = op'
      then list_all (\<lambda>(m, c). case map_of (arms b') m of Some c' \<Rightarrow> code_norm c' = code_norm c
                                | None \<Rightarrow> False) (arms b) \<and> covers t t'
      else covers ((op, b) # t) t')"

lemma covers_map_of:
  assumes "covers t t'" "distinct (map fst t')" "map_of t op = Some b" "map_of (arms b) m = Some c"
  shows "\<exists>b' c'. map_of t' op = Some b' \<and> map_of (arms b') m = Some c' \<and> code_norm c' = code_norm c"
  using assms
proof (induction t t' arbitrary: b rule: covers.induct)
  case (3 op1 b1 t op' b' t')
  show ?case
  proof (cases "op1 = op'")
    case True
    show ?thesis
    proof (cases "op = op1")
      case op: True
      with 3 True have "list_all (\<lambda>(m, c). case map_of (arms b') m of
          Some c' \<Rightarrow> code_norm c' = code_norm c | None \<Rightarrow> False) (arms b1)" and "b = b1"
        by simp_all
      with map_of_all [OF 3(6)] op True show ?thesis by (auto split: option.splits)
    qed (use 3 True in auto)
  next
    case False
    with 3 obtain b2 c2 where "map_of t' op = Some b2 \<and> map_of (arms b2) m = Some c2 \<and>
        code_norm c2 = code_norm c" by (auto split: if_splits)
    moreover from this 3(4) have "op \<noteq> op'" by (force dest: map_of_SomeD)
    ultimately show ?thesis by simp
  qed
qed simp_all

text \<open>The blocks with \<open>if (value1 == 0) return;\<close> are those of the relative branches.\<close>

definition zero_ops :: "symbol list" where
  "zero_ops = [sBCC, sBCS, sBEQ, sBMI, sBNE, sBPL, sBRA, sBRL, sBVC, sBVS]"

fun skips_zero :: "block \<Rightarrow> bool" where
  "skips_zero (SwNZ cs) = True"
| "skips_zero b = False"

definition zero_ok :: "symbol list \<Rightarrow> switch_table \<Rightarrow> bool" where
  "zero_ok zs t \<longleftrightarrow> list_all (\<lambda>(op, b). skips_zero b \<longrightarrow> op \<in> set zs) t"

lemma covers_select:
  assumes "covers t t'" "distinct (map fst t')" "zero_ok zs t'" "v \<noteq> 0 \<or> op \<notin> set zs"
    and "select t op m v = Emit c"
  shows "\<exists>c'. select t' op m v = Emit c' \<and> code_norm c' = code_norm c"
proof -
  from assms(5) obtain b where "map_of t op = Some b" "map_of (arms b) m = Some c"
    by (auto simp: select_def select_arm_def split: option.splits if_splits
        elim!: select_block.elims)
  from covers_map_of [OF assms(1,2) this] obtain b' c' where b': "map_of t' op = Some b'"
    and c': "map_of (arms b') m = Some c'" "code_norm c' = code_norm c" by blast
  have "skips_zero b' \<longrightarrow> op \<in> set zs"
    using map_of_all [OF b'] assms(3) by (simp add: zero_ok_def)
  with assms(4) have "v \<noteq> 0 \<or> \<not> skips_zero b'" by blast
  with b' c' show ?thesis by (cases b') (auto simp: select_def select_arm_def)
qed

lemmas all_gen_tables =
  gen_816_table_def gen_C02_table_def gen_02_table_def gen_RC02_table_def gen_RC19_table_def

lemma covers_02_C02: "covers gen_02_table gen_C02_table"
  by (simp add: all_gen_tables table_defs)

lemma covers_02_816: "covers gen_02_table gen_816_table"
  by (simp add: all_gen_tables table_defs)

lemma covers_C02_816: "covers gen_C02_table gen_816_table"
  by (simp add: all_gen_tables table_defs)

lemma distinct_C02: "distinct (map fst gen_C02_table)"
  by (simp add: all_gen_tables table_defs)

lemma distinct_816: "distinct (map fst gen_816_table)"
  by (simp add: all_gen_tables table_defs)

lemma zero_ok_tables: "zero_ok [] gen_C02_table" "zero_ok zero_ops gen_816_table"
  by (simp_all add: zero_ok_def zero_ops_def all_gen_tables table_defs)

lemma call_bytes_machine [simp]:
  "call_bytes c v1 v2 v3 (s\<lparr>e_machine := em\<rparr>) = call_bytes c v1 v2 v3 s"
  by (cases c) simp_all

text \<open>The two smaller tables use the plain emitters only.\<close>

lemma plain_calls:
  "all_calls (\<lambda>op m c. code_norm c = c) gen_02_table"
  "all_calls (\<lambda>op m c. code_norm c = c) gen_C02_table"
  by (simp_all add: all_calls_def all_gen_tables table_defs)

lemma bra_816_opcode: "all_calls (\<lambda>op m c. c = BRA_816 \<longrightarrow> op = sBRA) gen_816_table"
  by (simp add: all_calls_def all_gen_tables table_defs)

text \<open>
  C35. Every instruction the 6502 assembler accepts is accepted by the 65C02 assembler, which
  makes the same emitter call and so writes the same bytes.
\<close>

theorem gen_02_within_C02:
  assumes "selected EM_02 i v1 = Emit c"
  shows "selected EM_C02 i v1 = Emit c \<and>
    gen_bytes i v1 v2 v3 (s\<lparr>e_machine := EM_C02\<rparr>) = gen_bytes i v1 v2 v3 (s\<lparr>e_machine := EM_02\<rparr>)"
proof -
  let ?m = "resolve_mode (mode i) (modifier i) v1"
  have c: "select gen_02_table (opcode i) ?m v1 = Emit c"
    using assms(1) by (simp add: selected_def machine_table_def machine_defs)
  obtain c' where c': "select gen_C02_table (opcode i) ?m v1 = Emit c'" "code_norm c' = code_norm c"
    using covers_select [OF covers_02_C02 distinct_C02 zero_ok_tables(1) _ c] by auto
  have "c' = c"
    using c'(2) select_all_calls [OF c plain_calls(1)] select_all_calls [OF c'(1) plain_calls(2)]
    by simp
  with c' have "selected EM_C02 i v1 = Emit c"
    by (simp add: selected_def machine_table_def machine_defs)
  with assms show ?thesis
    by (simp add: gen_bytes_def third_def machine_defs)
qed

lemma gen_02_within_C02_witness:
  "selected EM_C02 \<lparr>opcode = sASL, mode = AbsoluteIndexedX, modifier = MWord\<rparr> 0x20 = Emit (OW 0x1e)"
proof -
  have "selected EM_02 \<lparr>opcode = sASL, mode = AbsoluteIndexedX, modifier = MWord\<rparr> 0x20 = Emit (OW 0x1e)"
    by code_simp
  then show ?thesis by (rule gen_02_within_C02 [THEN conjunct1])
qed

text \<open>
  C36. With 8-bit registers the 65C816 assembler writes the same bytes as the 6502 and the 65C02
  assembler for every instruction they accept, except that it skips a branch to address 0 and
  promotes a \<open>BRA\<close> that does not reach.
\<close>

theorem gen_C02_within_816:
  assumes "selected em i v1 = Emit c" "em = EM_02 \<or> em = EM_C02"
    and "\<not> longa s" "\<not> longi s" "v1 \<noteq> 0 \<or> opcode i \<notin> set zero_ops"
    and "opcode i = sBRA \<longrightarrow> \<not> goes_long v1 (addr s)"
  shows "gen_bytes i v1 v2 v3 (s\<lparr>e_machine := EM_816\<rparr>) = gen_bytes i v1 v2 v3 (s\<lparr>e_machine := em\<rparr>)"
proof -
  let ?m = "resolve_mode (mode i) (modifier i) v1"
  obtain t where t: "machine_table em = Some t" "covers t gen_816_table"
      "all_calls (\<lambda>op m c. code_norm c = c) t"
    using assms(2) covers_02_816 covers_C02_816 plain_calls
    by (auto simp: machine_table_def machine_defs)
  then have c: "select t (opcode i) ?m v1 = Emit c"
    using assms(1) by (simp add: selected_def)
  obtain c' where c': "select gen_816_table (opcode i) ?m v1 = Emit c'" "code_norm c' = code_norm c"
    using covers_select [OF t(2) distinct_816 zero_ok_tables(2) assms(5) c] by auto
  have n: "code_norm c' = c"
    using c'(2) select_all_calls [OF c t(3)] by simp
  have "c' = BRA_816 \<Longrightarrow> \<not> goes_long v1 (addr s)"
    using select_all_calls [OF c'(1) bra_816_opcode] assms(6) by blast
  then have "call_bytes c' v1 v2 0 s = call_bytes c v1 v2 0 s"
    using code_norm_bytes [OF assms(3,4)] n by metis
  moreover have "selected EM_816 i v1 = Emit c'"
    using c' by (simp add: selected_def machine_table_def machine_defs)
  moreover have "third em v3 = 0" "third EM_816 v3 = 0"
    using assms(2) by (auto simp: third_def machine_defs)
  ultimately show ?thesis
    using assms(1) by (simp add: gen_bytes_def)
qed

lemma gen_C02_within_816_witness:
  "gen_bytes \<lparr>opcode = sLDA, mode = Immediate, modifier = MNone\<rparr> 0x12 0 0 ((demo EM_C02)\<lparr>e_machine := EM_816\<rparr>)
     = [0xa9, 0x12]"
proof -
  let ?i = "\<lparr>opcode = sLDA, mode = Immediate, modifier = MNone\<rparr>"
  have c: "selected EM_C02 ?i 0x12 = Emit (OB 0xa9)" by code_simp
  have b: "gen_bytes ?i 0x12 0 0 ((demo EM_C02)\<lparr>e_machine := EM_C02\<rparr>) = [0xa9, 0x12]" by code_simp
  have w: "\<not> longa (demo EM_C02)" "\<not> longi (demo EM_C02)" by (simp_all add: demo_def)
  show ?thesis using gen_C02_within_816 [OF c _ w, of 0 0] b by simp
qed

end
