(* ===== verification/Dis816.thy ===== *)
theory Dis816
  imports Encoding
begin

text \<open>
  The disassembler of \<open>objdump\<close>: \<open>names_816\<close> and \<open>modes_816\<close> (objdump/src/dis_816.c) and
  the loop \<open>dis_instrs(unsigned char *buf, int len)\<close> with its printing functions
  (objdump/src/dis.c). The theorems relate it to the assembler's 65C816 table.

  \<open>char\<close> constants naming a mode are the constructors of \<open>dmode\<close>, in the order of their values
  1 to 29; \<open>modes_816\<close> holds nothing else, so the \<open>default\<close> arm of the switch, which would loop
  for ever, is never taken. \<open>names\<close> and \<open>modes\<close> are only ever set to these two tables.
\<close>

named_theorems dis_rows \<open>row-wise look-up in the disassembler's tables\<close>

subsection \<open>Tables\<close>

datatype dmode =
    d_ab
  | d_aix
  | d_aiy
  | d_aii
  | d_ai
  | d_ail
  | d_al
  | d_alix
  | d_ac
  | d_bm
  | d_dp
  | d_dpix
  | d_dpiy
  | d_dpiix
  | d_dpi
  | d_dpil
  | d_dpiiy
  | d_dpiliy
  | d_im
  | d_imp
  | d_pcr
  | d_pcrl
  | d_sa
  | d_sdpi
  | d_si
  | d_s
  | d_spcr
  | d_sr
  | d_sriiy

definition names_816_r0 :: "string list" where [dis_rows]:
  "names_816_r0 =
    [''BRK'', ''ORA'', ''COP'', ''ORA'', ''TSB'', ''ORA'', ''ASL'', ''ORA'',
     ''PHP'', ''ORA'', ''ASL'', ''PHD'', ''TSB'', ''ORA'', ''ASL'', ''ORA'']"

definition names_816_r1 :: "string list" where [dis_rows]:
  "names_816_r1 =
    [''BPL'', ''ORA'', ''ORA'', ''ORA'', ''TRB'', ''ORA'', ''ASL'', ''ORA'',
     ''CLC'', ''ORA'', ''INC'', ''TCS'', ''TRB'', ''ORA'', ''ASL'', ''ORA'']"

definition names_816_r2 :: "string list" where [dis_rows]:
  "names_816_r2 =
    [''JSR'', ''AND'', ''JSL'', ''AND'', ''BIT'', ''AND'', ''ROL'', ''AND'',
     ''PLP'', ''AND'', ''ROL'', ''PLD'', ''BIT'', ''AND'', ''ROL'', ''AND'']"

definition names_816_r3 :: "string list" where [dis_rows]:
  "names_816_r3 =
    [''BMI'', ''AND'', ''AND'', ''AND'', ''BIT'', ''AND'', ''ROL'', ''AND'',
     ''SEC'', ''AND'', ''DEC'', ''TSC'', ''BIT'', ''AND'', ''ROL'', ''AND'']"

definition names_816_r4 :: "string list" where [dis_rows]:
  "names_816_r4 =
    [''RTI'', ''EOR'', ''WDM'', ''EOR'', ''MVP'', ''EOR'', ''LSR'', ''EOR'',
     ''PHA'', ''EOR'', ''LSR'', ''PHK'', ''JMP'', ''EOR'', ''LSR'', ''EOR'']"

definition names_816_r5 :: "string list" where [dis_rows]:
  "names_816_r5 =
    [''BVC'', ''EOR'', ''EOR'', ''EOR'', ''MVN'', ''EOR'', ''LSR'', ''EOR'',
     ''CLI'', ''EOR'', ''PHY'', ''TCD'', ''JMP'', ''EOR'', ''LSR'', ''EOR'']"

definition names_816_r6 :: "string list" where [dis_rows]:
  "names_816_r6 =
    [''RTS'', ''ADC'', ''PER'', ''ADC'', ''STZ'', ''ADC'', ''ROR'', ''ADC'',
     ''PLA'', ''ADC'', ''ROR'', ''RTL'', ''JMP'', ''ADC'', ''ROR'', ''ADC'']"

definition names_816_r7 :: "string list" where [dis_rows]:
  "names_816_r7 =
    [''BVS'', ''ADC'', ''ADC'', ''ADC'', ''STZ'', ''ADC'', ''ROR'', ''ADC'',
     ''SEI'', ''ADC'', ''PLY'', ''TDC'', ''JMP'', ''ADC'', ''ROR'', ''ADC'']"

definition names_816_r8 :: "string list" where [dis_rows]:
  "names_816_r8 =
    [''BRA'', ''STA'', ''BRL'', ''STA'', ''STY'', ''STA'', ''STX'', ''STA'',
     ''DEY'', ''BIT'', ''TXA'', ''PHB'', ''STY'', ''STA'', ''STX'', ''STA'']"

definition names_816_r9 :: "string list" where [dis_rows]:
  "names_816_r9 =
    [''BCC'', ''STA'', ''STA'', ''STA'', ''STY'', ''STA'', ''STX'', ''STA'',
     ''TYA'', ''STA'', ''TXS'', ''TXY'', ''STZ'', ''STA'', ''STZ'', ''STA'']"

definition names_816_r10 :: "string list" where [dis_rows]:
  "names_816_r10 =
    [''LDY'', ''LDA'', ''LDX'', ''LDA'', ''LDY'', ''LDA'', ''LDX'', ''LDA'',
     ''TAY'', ''LDA'', ''TAX'', ''PLB'', ''LDY'', ''ADC'', ''LDX'', ''LDA'']"

definition names_816_r11 :: "string list" where [dis_rows]:
  "names_816_r11 =
    [''BCS'', ''LDA'', ''LDA'', ''LDY'', ''LDA'', ''LDY'', ''LDX'', ''LDA'',
     ''CLV'', ''LDA'', ''TSX'', ''TYX'', ''LDY'', ''LDA'', ''LDX'', ''LDA'']"

definition names_816_r12 :: "string list" where [dis_rows]:
  "names_816_r12 =
    [''CPY'', ''CMP'', ''REP'', ''CMP'', ''CPY'', ''CMP'', ''DEC'', ''CMP'',
     ''INY'', ''CMP'', ''DEX'', ''WAI'', ''CPY'', ''CMP'', ''DEC'', ''CMP'']"

definition names_816_r13 :: "string list" where [dis_rows]:
  "names_816_r13 =
    [''BNE'', ''CMP'', ''CMP'', ''CMP'', ''PEI'', ''CMP'', ''DEC'', ''CMP'',
     ''CLD'', ''CMP'', ''PHX'', ''STP'', ''JML'', ''CMP'', ''DEC'', ''CMP'']"

definition names_816_r14 :: "string list" where [dis_rows]:
  "names_816_r14 =
    [''CPX'', ''SBC'', ''SEP'', ''SBC'', ''CPX'', ''SBC'', ''INC'', ''SBC'',
     ''INX'', ''SBC'', ''NOP'', ''XBA'', ''CPX'', ''SBC'', ''INC'', ''SBC'']"

definition names_816_r15 :: "string list" where [dis_rows]:
  "names_816_r15 =
    [''BEQ'', ''SBC'', ''SBC'', ''SBC'', ''PEA'', ''SBC'', ''INC'', ''SBC'',
     ''SED'', ''SBC'', ''PLX'', ''XCE'', ''JSR'', ''SBC'', ''INC'', ''SBC'']"

definition names_816_rows :: "string list list" where
  "names_816_rows =
    [names_816_r0, names_816_r1, names_816_r2, names_816_r3,
     names_816_r4, names_816_r5, names_816_r6, names_816_r7,
     names_816_r8, names_816_r9, names_816_r10, names_816_r11,
     names_816_r12, names_816_r13, names_816_r14, names_816_r15]"

lemma names_816_rows_nth [dis_rows]:
  "names_816_rows ! 0 = names_816_r0"
  "names_816_rows ! Suc 0 = names_816_r1"
  "names_816_rows ! 2 = names_816_r2"
  "names_816_rows ! 3 = names_816_r3"
  "names_816_rows ! 4 = names_816_r4"
  "names_816_rows ! 5 = names_816_r5"
  "names_816_rows ! 6 = names_816_r6"
  "names_816_rows ! 7 = names_816_r7"
  "names_816_rows ! 8 = names_816_r8"
  "names_816_rows ! 9 = names_816_r9"
  "names_816_rows ! 10 = names_816_r10"
  "names_816_rows ! 11 = names_816_r11"
  "names_816_rows ! 12 = names_816_r12"
  "names_816_rows ! 13 = names_816_r13"
  "names_816_rows ! 14 = names_816_r14"
  "names_816_rows ! 15 = names_816_r15"
  by (simp_all add: names_816_rows_def)

definition modes_816_r0 :: "dmode list" where [dis_rows]:
  "modes_816_r0 =
    [d_si, d_dpiix, d_si, d_sr, d_dp, d_dp, d_dp, d_dpil,
     d_s, d_im, d_ac, d_s, d_ab, d_ab, d_ab, d_al]"

definition modes_816_r1 :: "dmode list" where [dis_rows]:
  "modes_816_r1 =
    [d_pcr, d_dpiiy, d_dpi, d_sriiy, d_dp, d_dpix, d_dpix, d_dpiliy,
     d_imp, d_aiy, d_ac, d_imp, d_ab, d_aix, d_aix, d_alix]"

definition modes_816_r2 :: "dmode list" where [dis_rows]:
  "modes_816_r2 =
    [d_ab, d_dpiix, d_al, d_sr, d_dp, d_dp, d_dp, d_dpil,
     d_s, d_imp, d_ac, d_s, d_ab, d_ab, d_ab, d_al]"

definition modes_816_r3 :: "dmode list" where [dis_rows]:
  "modes_816_r3 =
    [d_pcr, d_dpiiy, d_dpi, d_sriiy, d_dpix, d_dpix, d_dpix, d_dpiliy,
     d_imp, d_aiy, d_ac, d_imp, d_aix, d_aix, d_aix, d_alix]"

definition modes_816_r4 :: "dmode list" where [dis_rows]:
  "modes_816_r4 =
    [d_s, d_dpiix, d_si, d_sr, d_bm, d_dp, d_dp, d_dpil,
     d_s, d_imp, d_ac, d_s, d_ab, d_ab, d_ab, d_al]"

definition modes_816_r5 :: "dmode list" where [dis_rows]:
  "modes_816_r5 =
    [d_pcr, d_dpiiy, d_dpi, d_sriiy, d_bm, d_dpix, d_dpix, d_dpiliy,
     d_imp, d_aiy, d_s, d_imp, d_al, d_aix, d_aix, d_alix]"

definition modes_816_r6 :: "dmode list" where [dis_rows]:
  "modes_816_r6 =
    [d_s, d_dpiix, d_pcrl, d_sr, d_dp, d_dp, d_dp, d_dpil,
     d_s, d_im, d_ac, d_s, d_ai, d_ab, d_ab, d_al]"

definition modes_816_r7 :: "dmode list" where [dis_rows]:
  "modes_816_r7 =
    [d_pcr, d_dpiiy, d_dpi, d_sriiy, d_dpiix, d_dpix, d_dpix, d_dpiliy,
     d_imp, d_aiy, d_s, d_imp, d_aii, d_aix, d_aix, d_alix]"

definition modes_816_r8 :: "dmode list" where [dis_rows]:
  "modes_816_r8 =
    [d_pcr, d_dpiix, d_pcrl, d_sr, d_dp, d_dp, d_dp, d_dpil,
     d_imp, d_im, d_imp, d_s, d_ab, d_ab, d_ab, d_al]"

definition modes_816_r9 :: "dmode list" where [dis_rows]:
  "modes_816_r9 =
    [d_pcr, d_dpiiy, d_dpi, d_sriiy, d_dpix, d_dpix, d_dpiy, d_dpiliy,
     d_imp, d_aiy, d_imp, d_imp, d_ab, d_aix, d_aix, d_alix]"

definition modes_816_r10 :: "dmode list" where [dis_rows]:
  "modes_816_r10 =
    [d_imp, d_dpiix, d_im, d_sr, d_dp, d_dp, d_dp, d_dpil,
     d_imp, d_im, d_imp, d_s, d_ab, d_ab, d_ab, d_al]"

definition modes_816_r11 :: "dmode list" where [dis_rows]:
  "modes_816_r11 =
    [d_pcr, d_dpiiy, d_dpi, d_sriiy, d_dpix, d_dpix, d_dpiy, d_dpiliy,
     d_imp, d_aiy, d_imp, d_imp, d_aix, d_aix, d_aiy, d_alix]"

definition modes_816_r12 :: "dmode list" where [dis_rows]:
  "modes_816_r12 =
    [d_imp, d_dpiix, d_imp, d_sr, d_dp, d_dp, d_dp, d_dpil,
     d_imp, d_im, d_imp, d_imp, d_ab, d_ab, d_ab, d_al]"

definition modes_816_r13 :: "dmode list" where [dis_rows]:
  "modes_816_r13 =
    [d_pcr, d_dpiiy, d_dpi, d_sriiy, d_sdpi, d_dpix, d_dpix, d_dpiliy,
     d_imp, d_aiy, d_s, d_imp, d_ail, d_aix, d_aix, d_alix]"

definition modes_816_r14 :: "dmode list" where [dis_rows]:
  "modes_816_r14 =
    [d_imp, d_dpiix, d_imp, d_sr, d_dp, d_dp, d_dp, d_dpil,
     d_imp, d_im, d_imp, d_imp, d_ab, d_ab, d_ab, d_al]"

definition modes_816_r15 :: "dmode list" where [dis_rows]:
  "modes_816_r15 =
    [d_pcr, d_dpiiy, d_dpi, d_sriiy, d_ab, d_dpix, d_dpix, d_dpiliy,
     d_imp, d_aiy, d_s, d_imp, d_aii, d_aix, d_aix, d_alix]"

definition modes_816_rows :: "dmode list list" where
  "modes_816_rows =
    [modes_816_r0, modes_816_r1, modes_816_r2, modes_816_r3,
     modes_816_r4, modes_816_r5, modes_816_r6, modes_816_r7,
     modes_816_r8, modes_816_r9, modes_816_r10, modes_816_r11,
     modes_816_r12, modes_816_r13, modes_816_r14, modes_816_r15]"

lemma modes_816_rows_nth [dis_rows]:
  "modes_816_rows ! 0 = modes_816_r0"
  "modes_816_rows ! Suc 0 = modes_816_r1"
  "modes_816_rows ! 2 = modes_816_r2"
  "modes_816_rows ! 3 = modes_816_r3"
  "modes_816_rows ! 4 = modes_816_r4"
  "modes_816_rows ! 5 = modes_816_r5"
  "modes_816_rows ! 6 = modes_816_r6"
  "modes_816_rows ! 7 = modes_816_r7"
  "modes_816_rows ! 8 = modes_816_r8"
  "modes_816_rows ! 9 = modes_816_r9"
  "modes_816_rows ! 10 = modes_816_r10"
  "modes_816_rows ! 11 = modes_816_r11"
  "modes_816_rows ! 12 = modes_816_r12"
  "modes_816_rows ! 13 = modes_816_r13"
  "modes_816_rows ! 14 = modes_816_r14"
  "modes_816_rows ! 15 = modes_816_r15"
  by (simp_all add: modes_816_rows_def)

text \<open>The C arrays are flat; entry \<open>16*r + c\<close> is column \<open>c\<close> of row \<open>r\<close>.\<close>

definition names_816 :: "string list" where
  "names_816 = concat names_816_rows"

definition modes_816 :: "dmode list" where
  "modes_816 = concat modes_816_rows"

subsection \<open>Printing\<close>

text \<open>\<open>%0<w>x\<close> of an unsigned value.\<close>

definition hex_digit :: "nat \<Rightarrow> char" where
  "hex_digit n = ''0123456789abcdef'' ! n"

fun hex_digits :: "nat \<Rightarrow> string" where
  "hex_digits n =
     (if n < 16 then [hex_digit n] else hex_digits (n div 16) @ [hex_digit (n mod 16)])"

declare hex_digits.simps [simp del]

definition hex :: "nat \<Rightarrow> nat \<Rightarrow> string" where
  "hex w n = (let ds = hex_digits n in replicate (w - length ds) (CHR ''0'') @ ds)"

definition hex8 :: "u8 \<Rightarrow> string" where
  "hex8 b = hex 2 (unat b)"

text \<open>\<open>p2 | p3 << 8\<close> and \<open>p2 | p3 << 8 | p4 << 16\<close>.\<close>

definition word16 :: "u8 \<Rightarrow> u8 \<Rightarrow> nat" where
  "word16 l h = unat l + 256 * unat h"

definition word24 :: "u8 \<Rightarrow> u8 \<Rightarrow> u8 \<Rightarrow> nat" where
  "word24 l h b = unat l + 256 * unat h + 65536 * unat b"

text \<open>
  The raw columns every printing function starts with: the address, the bytes, a gap, the label
  (\<open>dis_instrs\<close> passes the empty string) and the name of the first byte.
\<close>

definition raw :: "u32 \<Rightarrow> u8 list \<Rightarrow> string \<Rightarrow> string" where
  "raw a ps gap = hex 4 (unat a) @ '': '' @ concat (map (\<lambda>b. hex8 b @ '' '') (butlast ps)) @
     hex8 (last ps) @ gap @ '' '' @ names_816 ! unat (hd ps)"

definition pr_ab :: "u32 \<Rightarrow> u8 \<Rightarrow> u8 \<Rightarrow> u8 \<Rightarrow> string" where
  "pr_ab a p1 p2 p3 = raw a [p1, p2, p3] ''     '' @ '' $'' @ hex 4 (word16 p2 p3)"

definition pr_aix :: "u32 \<Rightarrow> u8 \<Rightarrow> u8 \<Rightarrow> u8 \<Rightarrow> string" where
  "pr_aix a p1 p2 p3 = raw a [p1, p2, p3] ''      '' @ '' $'' @ hex 4 (word16 p2 p3) @ '',X''"

definition pr_aiy :: "u32 \<Rightarrow> u8 \<Rightarrow> u8 \<Rightarrow> u8 \<Rightarrow> string" where
  "pr_aiy a p1 p2 p3 = raw a [p1, p2, p3] ''     '' @ '' $'' @ hex 4 (word16 p2 p3) @ '',Y''"

definition pr_aii :: "u32 \<Rightarrow> u8 \<Rightarrow> u8 \<Rightarrow> u8 \<Rightarrow> string" where
  "pr_aii a p1 p2 p3 = raw a [p1, p2, p3] ''     '' @ '' ($'' @ hex 4 (word16 p2 p3) @ '',X)''"

definition pr_ai :: "u32 \<Rightarrow> u8 \<Rightarrow> u8 \<Rightarrow> u8 \<Rightarrow> string" where
  "pr_ai a p1 p2 p3 = raw a [p1, p2, p3] ''     '' @ '' ($'' @ hex 4 (word16 p2 p3) @ '')''"

definition pr_ail :: "u32 \<Rightarrow> u8 \<Rightarrow> u8 \<Rightarrow> u8 \<Rightarrow> string" where
  "pr_ail a p1 p2 p3 = raw a [p1, p2, p3] ''     '' @ '' [$'' @ hex 6 (word16 p2 p3) @ '']''"

definition pr_al :: "u32 \<Rightarrow> u8 \<Rightarrow> u8 \<Rightarrow> u8 \<Rightarrow> u8 \<Rightarrow> string" where
  "pr_al a p1 p2 p3 p4 = raw a [p1, p2, p3, p4] ''  '' @ '' [$'' @ hex 6 (word24 p2 p3 p4) @ '']''"

definition pr_alix :: "u32 \<Rightarrow> u8 \<Rightarrow> u8 \<Rightarrow> u8 \<Rightarrow> u8 \<Rightarrow> string" where
  "pr_alix a p1 p2 p3 p4 = raw a [p1, p2, p3, p4] ''  '' @ '' $'' @ hex 6 (word24 p2 p3 p4) @ '',X''"

definition pr_ac :: "u32 \<Rightarrow> u8 \<Rightarrow> string" where
  "pr_ac a p1 = raw a [p1] ''          ''"

definition pr_bm :: "u32 \<Rightarrow> u8 \<Rightarrow> u8 \<Rightarrow> u8 \<Rightarrow> string" where
  "pr_bm a p1 p2 p3 = raw a [p1, p2, p3] ''     '' @ '' #$'' @ hex 2 (unat p2) @ '',#$'' @ hex 2 (unat p3)"

definition pr_dp :: "u32 \<Rightarrow> u8 \<Rightarrow> u8 \<Rightarrow> string" where
  "pr_dp a p1 p2 = raw a [p1, p2] ''        '' @ '' $'' @ hex 2 (unat p2)"

definition pr_dpix :: "u32 \<Rightarrow> u8 \<Rightarrow> u8 \<Rightarrow> string" where
  "pr_dpix a p1 p2 = raw a [p1, p2] ''        '' @ '' $'' @ hex 2 (unat p2) @ '',X''"

definition pr_dpiy :: "u32 \<Rightarrow> u8 \<Rightarrow> u8 \<Rightarrow> string" where
  "pr_dpiy a p1 p2 = raw a [p1, p2] ''        '' @ '' $'' @ hex 2 (unat p2) @ '',Y''"

definition pr_dpiix :: "u32 \<Rightarrow> u8 \<Rightarrow> u8 \<Rightarrow> string" where
  "pr_dpiix a p1 p2 = raw a [p1, p2] ''        '' @ '' ($'' @ hex 2 (unat p2) @ '',X)''"

definition pr_dpi :: "u32 \<Rightarrow> u8 \<Rightarrow> u8 \<Rightarrow> string" where
  "pr_dpi a p1 p2 = raw a [p1, p2] ''        '' @ '' ($'' @ hex 2 (unat p2) @ '')''"

definition pr_dpil :: "u32 \<Rightarrow> u8 \<Rightarrow> u8 \<Rightarrow> string" where
  "pr_dpil a p1 p2 = raw a [p1, p2] ''        '' @ '' $'' @ hex 2 (unat p2)"

definition pr_dpiiy :: "u32 \<Rightarrow> u8 \<Rightarrow> u8 \<Rightarrow> string" where
  "pr_dpiiy a p1 p2 = raw a [p1, p2] ''        '' @ '' ($'' @ hex 2 (unat p2) @ ''),Y''"

definition pr_dpiliy :: "u32 \<Rightarrow> u8 \<Rightarrow> u8 \<Rightarrow> string" where
  "pr_dpiliy a p1 p2 = raw a [p1, p2] ''        '' @ '' [$'' @ hex 2 (unat p2) @ ''],Y''"

definition pr_im :: "u32 \<Rightarrow> u8 \<Rightarrow> u8 \<Rightarrow> u8 \<Rightarrow> string" where
  "pr_im a p1 p2 p3 = raw a [p1, p2, p3] ''     '' @ '' $'' @ hex 4 (word16 p2 p3)"

definition pr_imp :: "u32 \<Rightarrow> u8 \<Rightarrow> string" where
  "pr_imp a p1 = raw a [p1] ''           ''"

definition pr_pcr :: "u32 \<Rightarrow> u8 \<Rightarrow> u8 \<Rightarrow> string" where
  "pr_pcr a p1 p2 = raw a [p1, p2] ''        '' @ '' $'' @ hex 4 (unat (scast (ucast a + scast p2 :: u16) :: u32))"

definition pr_pcrl :: "u32 \<Rightarrow> u8 \<Rightarrow> u8 \<Rightarrow> u8 \<Rightarrow> string" where
  "pr_pcrl a p1 p2 p3 = raw a [p1, p2, p3] ''     '' @ '' $'' @ hex 6 (unat (a + scast (ucast p2 OR push_bit 8 (ucast p2) :: u16)))"

definition pr_sa :: "u32 \<Rightarrow> u8 \<Rightarrow> u8 \<Rightarrow> u8 \<Rightarrow> string" where
  "pr_sa a p1 p2 p3 = raw a [p1, p2, p3] ''     '' @ '' #'' @ hex 4 (word16 p2 p3)"

definition pr_sdpi :: "u32 \<Rightarrow> u8 \<Rightarrow> u8 \<Rightarrow> string" where
  "pr_sdpi a p1 p2 = raw a [p1, p2] ''        '' @ '' $'' @ hex 4 (unat p2)"

definition pr_si :: "u32 \<Rightarrow> u8 \<Rightarrow> u8 \<Rightarrow> string" where
  "pr_si a p1 p2 = raw a [p1, p2] ''        '' @ '' #$'' @ hex 2 (unat p2)"

definition pr_spcr :: "u32 \<Rightarrow> u8 \<Rightarrow> u8 \<Rightarrow> string" where
  "pr_spcr a p1 p2 = raw a [p1, p2] ''        '' @ '' #$'' @ hex 2 (unat p2) @ '',s''"

definition pr_s :: "u32 \<Rightarrow> u8 \<Rightarrow> string" where
  "pr_s a p1 = raw a [p1] ''           ''"

definition pr_sr :: "u32 \<Rightarrow> u8 \<Rightarrow> u8 \<Rightarrow> string" where
  "pr_sr a p1 p2 = raw a [p1, p2] ''        '' @ '' #$'' @ hex 2 (unat p2) @ '',S''"

definition pr_sriiy :: "u32 \<Rightarrow> u8 \<Rightarrow> u8 \<Rightarrow> string" where
  "pr_sriiy a p1 p2 = raw a [p1, p2] ''        '' @ '' (#$'' @ hex 2 (unat p2) @ '',S),Y''"

subsection \<open>The loop\<close>

text \<open>
  One arm of the switch: how many bytes it consumes, and what it prints for them. An arm reads
  exactly the bytes it consumes.
\<close>

fun dis_size :: "dmode \<Rightarrow> nat" where
  "dis_size d_ab = 3"
| "dis_size d_aix = 3"
| "dis_size d_aiy = 3"
| "dis_size d_aii = 3"
| "dis_size d_ai = 3"
| "dis_size d_ail = 3"
| "dis_size d_al = 4"
| "dis_size d_alix = 4"
| "dis_size d_ac = 1"
| "dis_size d_bm = 3"
| "dis_size d_dp = 2"
| "dis_size d_dpix = 2"
| "dis_size d_dpiy = 2"
| "dis_size d_dpiix = 2"
| "dis_size d_dpi = 2"
| "dis_size d_dpil = 2"
| "dis_size d_dpiiy = 2"
| "dis_size d_dpiliy = 2"
| "dis_size d_im = 3"
| "dis_size d_imp = 1"
| "dis_size d_pcr = 2"
| "dis_size d_pcrl = 3"
| "dis_size d_sa = 3"
| "dis_size d_sdpi = 2"
| "dis_size d_si = 2"
| "dis_size d_s = 1"
| "dis_size d_spcr = 2"
| "dis_size d_sr = 2"
| "dis_size d_sriiy = 2"

fun dis_show :: "dmode \<Rightarrow> u32 \<Rightarrow> u8 list \<Rightarrow> string" where
  "dis_show d_ab a ps = pr_ab a (ps ! 0) (ps ! 1) (ps ! 2)"
| "dis_show d_aix a ps = pr_aix a (ps ! 0) (ps ! 1) (ps ! 2)"
| "dis_show d_aiy a ps = pr_aix a (ps ! 0) (ps ! 1) (ps ! 2)"
| "dis_show d_aii a ps = pr_aix a (ps ! 0) (ps ! 1) (ps ! 2)"
| "dis_show d_ai a ps = pr_aii a (ps ! 0) (ps ! 1) (ps ! 2)"
| "dis_show d_ail a ps = pr_ail a (ps ! 0) (ps ! 1) (ps ! 2)"
| "dis_show d_al a ps = pr_al a (ps ! 0) (ps ! 1) (ps ! 2) (ps ! 3)"
| "dis_show d_alix a ps = pr_alix a (ps ! 0) (ps ! 1) (ps ! 2) (ps ! 3)"
| "dis_show d_ac a ps = pr_ac a (ps ! 0)"
| "dis_show d_bm a ps = pr_bm a (ps ! 0) (ps ! 1) (ps ! 2)"
| "dis_show d_dp a ps = pr_dp a (ps ! 0) (ps ! 1)"
| "dis_show d_dpix a ps = pr_dpix a (ps ! 0) (ps ! 1)"
| "dis_show d_dpiy a ps = pr_dpix a (ps ! 0) (ps ! 1)"
| "dis_show d_dpiix a ps = pr_dpiix a (ps ! 0) (ps ! 1)"
| "dis_show d_dpi a ps = pr_dpi a (ps ! 0) (ps ! 1)"
| "dis_show d_dpil a ps = pr_dpil a (ps ! 0) (ps ! 1)"
| "dis_show d_dpiiy a ps = pr_dpiiy a (ps ! 0) (ps ! 1)"
| "dis_show d_dpiliy a ps = pr_dpiliy a (ps ! 0) (ps ! 1)"
| "dis_show d_im a ps = pr_im a (ps ! 0) (ps ! 1) (ps ! 2)"
| "dis_show d_imp a ps = pr_imp a (ps ! 0)"
| "dis_show d_pcr a ps = pr_pcr a (ps ! 0) (ps ! 1)"
| "dis_show d_pcrl a ps = pr_pcrl a (ps ! 0) (ps ! 1) (ps ! 2)"
| "dis_show d_sa a ps = pr_sa a (ps ! 0) (ps ! 1) (ps ! 2)"
| "dis_show d_sdpi a ps = pr_sdpi a (ps ! 0) (ps ! 1)"
| "dis_show d_si a ps = pr_si a (ps ! 0) (ps ! 1)"
| "dis_show d_s a ps = pr_s a (ps ! 0)"
| "dis_show d_spcr a ps = pr_spcr a (ps ! 0) (ps ! 1)"
| "dis_show d_sr a ps = pr_sr a (ps ! 0) (ps ! 1)"
| "dis_show d_sriiy a ps = pr_sriiy a (ps ! 0) (ps ! 1)"

text \<open>
  A line of output is kept as its address and its bytes; \<open>line_text\<close> is what is printed. A read
  past the end of the buffer, which the C code makes on a truncated last instruction, is \<open>None\<close>.
\<close>

type_synonym dis_line = "u32 \<times> u8 list"

definition mode_of :: "u8 \<Rightarrow> dmode" where
  "mode_of b = modes_816 ! unat b"

definition line_text :: "dis_line \<Rightarrow> string" where
  "line_text l = dis_show (mode_of (hd (snd l))) (fst l) (snd l)"

lemma dis_size_pos: "0 < dis_size m"
  by (cases m) simp_all

function dis_instrs :: "u8 list \<Rightarrow> nat \<Rightarrow> u32 \<Rightarrow> dis_line list option" where
  "dis_instrs buf i a =
     (if i < length buf then
        (let b = dis_size (mode_of (buf ! i))
         in if i + b \<le> length buf
            then map_option (Cons (a, take b (drop i buf))) (dis_instrs buf (i + b) (a + of_nat b))
            else None)
      else Some [])"
  by pat_completeness auto
termination
  by (relation "measure (\<lambda>(buf, i, a). length buf - i)") (auto intro!: diff_less_mono2 simp: dis_size_pos)

declare dis_instrs.simps [simp del]

definition dis :: "u8 list \<Rightarrow> u32 \<Rightarrow> dis_line list option" where
  "dis buf base_addr = dis_instrs buf 0 base_addr"

subsection \<open>Table look-up by row\<close>

lemma dis_rows_shape:
  "list_all (\<lambda>r. length r = 16) names_816_rows" "length names_816_rows = 16"
  "list_all (\<lambda>r. length r = 16) modes_816_rows" "length modes_816_rows = 16"
  by (simp_all add: names_816_rows_def modes_816_rows_def dis_rows)

lemma length_concat_rows: "list_all (\<lambda>r. length r = k) rs \<Longrightarrow> length (concat rs) = k * length rs"
  by (induction rs) simp_all

lemma concat_full_rows_nth:
  assumes "list_all (\<lambda>r. length r = k) rs" "n < k * length rs" "0 < k"
  shows "concat rs ! n = rs ! (n div k) ! (n mod k)"
proof (rule concat_nth_row)
  show "list_all (\<lambda>r. length r = k) (butlast rs)"
    using assms(1) by (auto simp: list_all_iff dest: in_set_butlastD)
  show "length (last rs) \<le> k" using assms by (cases rs) (auto simp: list_all_iff)
qed (use assms length_concat_rows [OF assms(1)] in \<open>simp_all\<close>)

lemma mode_of_row [dis_rows]: "mode_of b = modes_816_rows ! (unat b div 16) ! (unat b mod 16)"
  unfolding mode_of_def modes_816_def
  using dis_rows_shape unat_u8_less [of b] by (intro concat_full_rows_nth) simp_all

lemma name_of_row [dis_rows]:
  "names_816 ! unat b = names_816_rows ! (unat (b :: u8) div 16) ! (unat b mod 16)"
  unfolding names_816_def
  using dis_rows_shape unat_u8_less [of b] by (intro concat_full_rows_nth) simp_all

subsection \<open>The assembler's instructions, disassembled\<close>

text \<open>
  The opcodes whose size the disassembler gets wrong: seven immediate forms listed as implied,
  \<open>BRK\<close> without its signature byte, and the two instructions the assembler writes too long.
\<close>

definition dis_missized :: "u8 list" where
  "dis_missized = [0x00, 0x29, 0x49, 0x74, 0x96, 0xa0, 0xc0, 0xc2, 0xe0, 0xe2]"

fun plain_opcode :: "call \<Rightarrow> bool" where
  "plain_opcode (OBits op) = False"
| "plain_opcode (OBBits op) = False"
| "plain_opcode (OBITZR op) = False"
| "plain_opcode c = True"

lemma plain_816: "all_calls (\<lambda>op m c. plain_opcode c) gen_816_table"
  by (simp add: all_calls_def all_gen_tables table_defs)

lemma sizes_816:
  "all_calls (\<lambda>op m c. call_op c \<in> set dis_missized \<or>
     dis_size (mode_of (call_op c)) = call_len c True True) gen_816_table"
  by (simp add: all_calls_def all_gen_tables table_defs dis_missized_def dis_rows)

text \<open>Upper case of a letter; characters below \<open>CHR 0x60\<close> stay as they are.\<close>
fun upper_char :: "char \<Rightarrow> char" where
  "upper_char (Char b0 b1 b2 b3 b4 b5 b6 b7) = Char b0 b1 b2 b3 b4 (b5 \<and> \<not> b6) b6 b7"

definition upper :: "string \<Rightarrow> string" where
  "upper cs = map upper_char cs"

fun synonym :: "symbol \<Rightarrow> addr_mode \<Rightarrow> symbol" where
  "synonym op m =
     (if op = sTAD then sTCD else if op = sTAS then sTCS else if op = sTDA then sTDC
      else if op = sTSA then sTSC else if op = sSWA then sXBA
      else if op = sJSR \<and> m = AbsoluteLong then sJSL
      else if op = sJMP \<and> m = AbsoluteIndirectLong then sJML
      else if op = sJML \<and> m \<in> {DirectPage, Absolute, AbsoluteLong} then sJMP
      else op)"

definition dis_misnamed :: "u8 list" where
  "dis_misnamed = [0xad, 0xb3, 0xb4, 0xb5]"

lemma names_816_ok:
  "all_calls (\<lambda>op m c. call_op c \<in> set dis_misnamed \<or>
     names_816 ! unat (call_op c) = upper (token_to_string (synonym op m))) gen_816_table"
  by (simp add: all_calls_def all_gen_tables table_defs dis_misnamed_def dis_rows token_rows
      upper_def)

lemma first_byte: "plain_opcode c \<Longrightarrow> \<not> promoting c \<Longrightarrow> hd (call_bytes c v1 v2 v3 s) = call_op c"
  by (cases c) (simp_all add: promoting_def)

lemma dis_size_branch: "dis_size (mode_of 0x80) = 2" "dis_size (mode_of 0x82) = 3"
  by (simp_all add: dis_rows)

text \<open>The bytes of a selected instruction are as many as the disassembler takes for them.\<close>

lemma dis_size_bytes:
  assumes "select gen_816_table op m v = Emit c" "longa s" "longi s"
    and "hd (call_bytes c v1 v2 v3 s) \<notin> set dis_missized"
  shows "dis_size (mode_of (hd (call_bytes c v1 v2 v3 s))) = length (call_bytes c v1 v2 v3 s)"
proof (cases "promoting c")
  case True
  then show ?thesis
    by (auto simp: promoting_def branch_816_bytes_def dis_size_branch rel16_def)
next
  case False
  with assms show ?thesis
    using select_all_calls [OF assms(1) plain_816] select_all_calls [OF assms(1) sizes_816]
    by (simp add: first_byte length_call_bytes)
qed

text \<open>A stream of lines at consecutive addresses, each as long as the disassembler expects.\<close>

fun contiguous :: "u32 \<Rightarrow> dis_line list \<Rightarrow> bool" where
  "contiguous a [] = True"
| "contiguous a ((a', bs) # ls) =
     (a' = a \<and> bs \<noteq> [] \<and> dis_size (mode_of (hd bs)) = length bs \<and>
      contiguous (a + of_nat (length bs)) ls)"

lemma dis_instrs_stream:
  "contiguous a ls \<Longrightarrow>
     dis_instrs (pre @ concat (map snd ls)) (length pre) a = Some ls"
proof (induction ls arbitrary: pre a)
  case Nil
  show ?case by (simp add: dis_instrs.simps)
next
  case (Cons l ls)
  obtain bs where l: "l = (a, bs)" "bs \<noteq> []" "dis_size (mode_of (hd bs)) = length bs"
      "contiguous (a + of_nat (length bs)) ls"
    using Cons.prems by (cases l) auto
  then obtain b bs' where b: "bs = b # bs'" by (cases bs) auto
  have "dis_instrs ((pre @ bs) @ concat (map snd ls)) (length (pre @ bs)) (a + of_nat (length bs)) = Some ls"
    using Cons.IH l(4) by blast
  then show ?case
    using l b by (subst dis_instrs.simps) (simp add: nth_append Let_def)
qed

text \<open>
  A source program is a list of instructions with their operands; \<open>emitted\<close> lists where each one
  goes and what it is, leaving out those that write nothing.
\<close>

type_synonym line816 = "instr \<times> u32 \<times> u32"

definition assemble :: "line816 list \<Rightarrow> cg \<Rightarrow> cg" where
  "assemble p s = fold (\<lambda>(i, v1, v2). codegen_gen i v1 v2 0) p s"

fun emitted :: "line816 list \<Rightarrow> cg \<Rightarrow> dis_line list" where
  "emitted [] s = []"
| "emitted ((i, v1, v2) # p) s =
     (let bs = gen_bytes i v1 v2 0 s; ls = emitted p (codegen_gen i v1 v2 0 s)
      in if bs = [] then ls else (ucast (addr s), bs) # ls)"

lemma gen_bytes_816:
  assumes "e_machine s = EM_816" "longa s" "longi s" "gen_bytes i v1 v2 0 s \<noteq> []"
    and "hd (gen_bytes i v1 v2 0 s) \<notin> set dis_missized"
  shows "dis_size (mode_of (hd (gen_bytes i v1 v2 0 s))) = length (gen_bytes i v1 v2 0 s)"
proof -
  obtain c where c: "selected EM_816 i v1 = Emit c"
    using assms(1,4) by (cases "selected EM_816 i v1") (auto simp: gen_bytes_def)
  then have "select gen_816_table (opcode i) (resolve_mode (mode i) (modifier i) v1) v1 = Emit c"
    by (simp add: selected_def machine_table_def)
  from dis_size_bytes [OF this assms(2,3)] c assms(1,5) show ?thesis
    by (simp add: gen_bytes_def)
qed

lemma emitted_contiguous:
  assumes "e_machine s = EM_816" "longa s" "longi s"
    and "list_all (\<lambda>(a, bs). hd bs \<notin> set dis_missized) (emitted p s)"
  shows "contiguous (ucast (addr s)) (emitted p s)"
  using assms
proof (induction p s rule: emitted.induct)
  case (2 i v1 v2 p s)
  then show ?case
    by (auto simp: Let_def gen_bytes_816 addr_codegen_gen ucast_plus_32 ucast_of_nat_32 split: if_splits)
qed simp

lemma code_assemble:
  "storing s \<Longrightarrow> code_of (assemble p s) = code_of s @ concat (map snd (emitted p s))"
  by (induction p s rule: emitted.induct)
    (simp_all add: assemble_def Let_def code_codegen_gen storing_codegen_gen)

text \<open>
  C13. Round trip through the object code. Assemble any list of instructions for the 65C816 with
  16-bit registers into an empty section and disassemble the section's bytes from its address:
  the disassembler reads no byte past the end and prints one line per instruction, at the
  address and with the bytes the assembler gave it, provided no instruction has one of the ten
  opcodes whose size the two programs disagree on.
\<close>

theorem dis_assembled:
  assumes "e_machine s = EM_816" "longa s" "longi s" "storing s" "code_of s = []"
    and "list_all (\<lambda>(a, bs). hd bs \<notin> set dis_missized) (emitted p s)"
  shows "dis (code_of (assemble p s)) (ucast (addr s)) = Some (emitted p s)"
  using dis_instrs_stream [OF emitted_contiguous [OF assms(1-3,6)], of "[]"] assms(4,5)
  by (simp add: dis_def code_assemble)

definition demo_program :: "line816 list" where
  "demo_program =
     [(\<lparr>opcode = sLDA, mode = Immediate, modifier = MNone\<rparr>, 0x1234, 0),
      (\<lparr>opcode = sSTA, mode = AbsoluteIndexedX, modifier = MNone\<rparr>, 0x12345, 0),
      (\<lparr>opcode = sBNE, mode = Absolute, modifier = MNone\<rparr>, 0x8000, 0)]"

lemma dis_assembled_witness:
  "dis [0xa9, 0x34, 0x12, 0x9f, 0x45, 0x23, 0x01, 0xd0, 0xf7] 0x8000 =
     Some [(0x8000, [0xa9, 0x34, 0x12]), (0x8003, [0x9f, 0x45, 0x23, 0x01]), (0x8007, [0xd0, 0xf7])]"
proof -
  let ?s = "(demo EM_816)\<lparr>longa := True, longi := True\<rparr>"
  have e: "emitted demo_program ?s =
     [(0x8000, [0xa9, 0x34, 0x12]), (0x8003, [0x9f, 0x45, 0x23, 0x01]), (0x8007, [0xd0, 0xf7])]"
    by code_simp
  have st: "storing ?s" "code_of ?s = []"
    using storing_demo [of EM_816]
    by (simp_all add: storing_def code_of_def demo_def demo_section_def vec_empty_def)
  have m: "e_machine ?s = EM_816" "longa ?s" "longi ?s" "addr ?s = 0x8000"
    by (simp_all add: demo_def)
  show ?thesis
    using dis_assembled [OF m(1-3) st, of demo_program] code_assemble [OF st(1), of demo_program]
    by (simp add: e st(2) m(4) dis_missized_def)
qed

text \<open>
  The mnemonic the disassembler prints for an assembled instruction is the one in the
  source, in upper case and up to the assembler's synonyms, except for four opcodes of \<open>LDA\<close>
  and \<open>LDY\<close> which its table names wrongly.
\<close>

theorem dis_names_assembled:
  assumes "selected EM_816 i v1 = Emit c" "\<not> promoting c" "e_machine s = EM_816"
    and "hd (gen_bytes i v1 v2 v3 s) \<notin> set dis_misnamed"
  shows "names_816 ! unat (hd (gen_bytes i v1 v2 v3 s)) =
    upper (token_to_string (synonym (opcode i) (resolve_mode (mode i) (modifier i) v1)))"
proof -
  have c: "select gen_816_table (opcode i) (resolve_mode (mode i) (modifier i) v1) v1 = Emit c"
    using assms(1) by (simp add: selected_def machine_table_def)
  have h: "hd (gen_bytes i v1 v2 v3 s) = call_op c"
    using assms(1-3) select_all_calls [OF c plain_816] by (simp add: gen_bytes_def first_byte)
  show ?thesis
    using select_all_calls [OF c names_816_ok] assms(4) h by simp
qed

lemma dis_names_assembled_witness: "names_816 ! 0x1b = ''TCS''"
proof -
  let ?i = "\<lparr>opcode = sTAS, mode = Implied, modifier = MNone\<rparr>"
  have c: "selected EM_816 ?i 0 = Emit (OBYTE 0x1b)" by code_simp
  have b: "gen_bytes ?i 0 0 0 (demo EM_816) = [0x1b]" by code_simp
  have e: "e_machine (demo EM_816) = EM_816" by (simp add: demo_def)
  have r: "resolve_mode Implied MNone 0 = Implied" by (simp add: resolve_mode_def)
  show ?thesis
    using dis_names_assembled [OF c _ e, of 0 0]
    by (simp add: b r promoting_def dis_misnamed_def token_rows upper_def)
qed

text \<open>Addresses are printed from a \<open>short\<close>.\<close>

lemma take_bit_16_32:
  "take_bit 16 (take_bit 32 a + take_bit 32 b) = take_bit 16 (a + b :: int)"
  using take_bit_add [of 16 "take_bit 32 a" "take_bit 32 b"] take_bit_add [of 16 a b]
  by simp_all

lemma ucast_plus_16: "(ucast (a + b :: u32) :: u16) = ucast a + ucast b"
  by transfer (simp add: take_bit_add take_bit_16_32)

lemma scast_u8_u16: "(scast (b :: u8) :: u16) = ucast (scast b :: u32)"
  by (rule bit_word_eqI) (auto simp: bit_simps)

text \<open>
  C40. The address printed for a short branch is two less than its target: \<open>pr_pcr\<close> adds the
  displacement to the address of the instruction and not of the next one.
\<close>

theorem dis_branch_shown:
  assumes "\<not> out_of_range8 (displacement 1 v (ucast a + 1))" "mode_of op = d_pcr"
  shows "line_text (a, [op, rel8 v (ucast a + 1)]) =
    raw a [op, rel8 v (ucast a + 1)] ''        '' @ '' $'' @ hex 4 (unat (scast (ucast (v - 2) :: u16) :: u32))"
proof -
  have a: "(ucast (ucast a :: u64) :: u32) = a"
    by (rule bit_word_eqI) (auto simp: bit_simps)
  have "(scast (rel8 v (ucast a + 1)) :: u16) = ucast (v - (a + 2))"
    using rel8_back [OF assms(1)]
    by (simp add: scast_u8_u16 rel8_def displacement_eq ucast_plus_32 a add.commute)
  then have "ucast a + scast (rel8 v (ucast a + 1)) = (ucast (a + (v - (a + 2))) :: u16)"
    by (simp only: ucast_plus_16)
  also have "a + (v - (a + 2)) = v - 2" by simp
  finally show ?thesis
    using assms(2) by (simp add: line_text_def pr_pcr_def)
qed

lemma dis_branch_shown_witness:
  "line_text (0x8007, [0xd0, 0xf7]) = raw 0x8007 [0xd0, 0xf7] ''        '' @ '' $7ffe''"
proof -
  have c: "\<not> out_of_range8 (displacement 1 0x8000 (ucast (0x8007 :: u32) + 1))" by code_simp
  have m: "mode_of 0xd0 = d_pcr" by (simp add: dis_rows)
  have r: "rel8 0x8000 0x8008 = 0xf7" by code_simp
  have h: "hex 4 32766 = ''7ffe''"
    by (simp add: hex_def hex_digits.simps hex_digit_def)
  show ?thesis using dis_branch_shown [OF c m] by (simp add: r h)
qed

end
