(* ===== verification/SymMap.thy ===== *)
theory SymMap
  imports Prelude "HOL-Library.List_Lexorder" "HOL-Library.Char_ord"
begin

text \<open>
  The symbol map of \<open>as-c/src/value.c\<close>: a red-black tree with parent pointers, keyed by the
  first \<open>MAX_LABEL\<close> characters of a name. The C nodes are reached from a root pointer and climb
  by \<open>parent\<close>; here a position in the tree is a zipper, the subtree at a node and the list of
  frames from its parent up to the root, so that \<open>parent\<close>, \<open>grandparent\<close> and \<open>uncle\<close> are the
  first frames. A null pointer is \<open>Null\<close>.
\<close>

subsection \<open>Keys\<close>

definition MAX_LABEL :: nat where "MAX_LABEL = 32"

text \<open>The C library's \<open>strncmp\<close> on strings without NUL characters, by sign.\<close>

fun strncmp :: "nat \<Rightarrow> string \<Rightarrow> string \<Rightarrow> int" where
  "strncmp 0 xs ys = 0"
| "strncmp (Suc n) [] [] = 0"
| "strncmp (Suc n) [] (y # ys) = - 1"
| "strncmp (Suc n) (x # xs) [] = 1"
| "strncmp (Suc n) (x # xs) (y # ys) =
     (if x = y then strncmp n xs ys else if x < y then - 1 else 1)"

text \<open>The part of a name that counts.\<close>

definition lk :: "string \<Rightarrow> string" where
  "lk k = take MAX_LABEL k"

lemma strncmp_take:
  "strncmp n xs ys < 0 \<longleftrightarrow> take n xs < take n ys"
  "0 < strncmp n xs ys \<longleftrightarrow> take n ys < take n xs"
  "strncmp n xs ys = 0 \<longleftrightarrow> take n xs = take n ys"
  by (induction n xs ys rule: strncmp.induct) auto

lemma strncmp_lk [simp]:
  "strncmp MAX_LABEL a b < 0 \<longleftrightarrow> lk a < lk b"
  "0 < strncmp MAX_LABEL a b \<longleftrightarrow> lk b < lk a"
  "strncmp MAX_LABEL a b = 0 \<longleftrightarrow> lk a = lk b"
  by (simp_all add: lk_def strncmp_take)

subsection \<open>Nodes\<close>

datatype color_t = RED | BLACK

datatype 'v map_node =
    Null
  | MapNode color_t "'v map_node" string 'v "'v map_node"

fun color_of :: "'v map_node \<Rightarrow> color_t" where
  "color_of Null = BLACK"
| "color_of (MapNode c l k v r) = c"

fun set_color :: "color_t \<Rightarrow> 'v map_node \<Rightarrow> 'v map_node" where
  "set_color c Null = Null"
| "set_color c (MapNode c' l k v r) = MapNode c l k v r"

text \<open>A frame is the parent seen from its left or its right child.\<close>

datatype 'v frame =
    InLeft color_t string 'v "'v map_node"
  | InRight color_t "'v map_node" string 'v

fun frame_color :: "'v frame \<Rightarrow> color_t" where
  "frame_color (InLeft c k v r) = c"
| "frame_color (InRight c l k v) = c"

fun set_frame_color :: "color_t \<Rightarrow> 'v frame \<Rightarrow> 'v frame" where
  "set_frame_color c (InLeft c' k v r) = InLeft c k v r"
| "set_frame_color c (InRight c' l k v) = InRight c l k v"

fun getSibling :: "'v frame \<Rightarrow> 'v map_node" where
  "getSibling (InLeft c k v r) = r"
| "getSibling (InRight c l k v) = l"

fun set_sibling_color :: "color_t \<Rightarrow> 'v frame \<Rightarrow> 'v frame" where
  "set_sibling_color c (InLeft c' k v r) = InLeft c' k v (set_color c r)"
| "set_sibling_color c (InRight c' l k v) = InRight c' (set_color c l) k v"

fun plug :: "'v frame \<Rightarrow> 'v map_node \<Rightarrow> 'v map_node" where
  "plug (InLeft c k v r) t = MapNode c t k v r"
| "plug (InRight c l k v) t = MapNode c l k v t"

text \<open>Following \<open>parent\<close> to the root.\<close>

definition to_root :: "'v map_node \<Rightarrow> 'v frame list \<Rightarrow> 'v map_node" where
  "to_root t ps = fold plug ps t"

subsection \<open>Insertion\<close>

fun rotateLeft :: "'v map_node \<Rightarrow> 'v map_node" where
  "rotateLeft (MapNode c l k v (MapNode c' l' k' v' r')) = MapNode c' (MapNode c l k v l') k' v' r'"
| "rotateLeft t = t"

fun rotateRight :: "'v map_node \<Rightarrow> 'v map_node" where
  "rotateRight (MapNode c (MapNode c' l' k' v' r') k v r) = MapNode c' l' k' v' (MapNode c r' k v r)"
| "rotateRight t = t"

text \<open>
  The last arm of \<open>insertRepairTree\<close>: parent \<open>p\<close> red, uncle not red, grandparent \<open>g\<close>. An inner
  grandchild is first rotated outwards; then the grandparent is rotated over its child \<open>p\<close>, which
  becomes black, and \<open>g\<close>, now a child of \<open>p\<close>, red.
\<close>

fun left_child :: "'v map_node \<Rightarrow> 'v map_node" where
  "left_child (MapNode c l k v r) = l"
| "left_child Null = Null"

fun right_child :: "'v map_node \<Rightarrow> 'v map_node" where
  "right_child (MapNode c l k v r) = r"
| "right_child Null = Null"

fun map_right :: "('v map_node \<Rightarrow> 'v map_node) \<Rightarrow> 'v map_node \<Rightarrow> 'v map_node" where
  "map_right f (MapNode c l k v r) = MapNode c l k v (f r)"
| "map_right f Null = Null"

fun map_left :: "('v map_node \<Rightarrow> 'v map_node) \<Rightarrow> 'v map_node \<Rightarrow> 'v map_node" where
  "map_left f (MapNode c l k v r) = MapNode c (f l) k v r"
| "map_left f Null = Null"

fun rebalance :: "'v map_node \<Rightarrow> 'v frame \<Rightarrow> 'v frame \<Rightarrow> 'v map_node" where
  "rebalance n (InRight pc pl pk pv) (InLeft gc gk gv gr) =
     map_right (set_color RED) (set_color BLACK
       (rotateRight (plug (InLeft gc gk gv gr) (rotateLeft (plug (InRight pc pl pk pv) n)))))"
| "rebalance n (InLeft pc pk pv pr) (InRight gc gl gk gv) =
     map_left (set_color RED) (set_color BLACK
       (rotateLeft (plug (InRight gc gl gk gv) (rotateRight (plug (InLeft pc pk pv pr) n)))))"
| "rebalance n (InLeft pc pk pv pr) (InLeft gc gk gv gr) =
     map_right (set_color RED) (set_color BLACK
       (rotateRight (plug (InLeft gc gk gv gr) (plug (InLeft pc pk pv pr) n))))"
| "rebalance n (InRight pc pl pk pv) (InRight gc gl gk gv) =
     map_left (set_color RED) (set_color BLACK
       (rotateLeft (plug (InRight gc gl gk gv) (plug (InRight pc pl pk pv) n))))"

fun insertRepairTree :: "'v map_node \<Rightarrow> 'v frame list \<Rightarrow> 'v map_node" where
  "insertRepairTree n [] = set_color BLACK n"
| "insertRepairTree n [p] = to_root n [p]"
| "insertRepairTree n (p # g # gs) =
     (if frame_color p = BLACK then to_root n (p # g # gs)
      else if color_of (getSibling g) = RED then
        insertRepairTree
          (plug (set_frame_color RED (set_sibling_color BLACK g)) (plug (set_frame_color BLACK p) n)) gs
      else to_root (rebalance n p g) gs)"

text \<open>\<open>insertRecurse\<close> walks down to the null pointer where the new node goes.\<close>

fun insertRecurse :: "'v map_node \<Rightarrow> string \<Rightarrow> 'v frame list \<Rightarrow> 'v frame list" where
  "insertRecurse Null key ps = ps"
| "insertRecurse (MapNode c l k v r) key ps =
     (if strncmp MAX_LABEL key k < 0 then insertRecurse l key (InLeft c k v r # ps)
      else insertRecurse r key (InRight c l k v # ps))"

definition insert_node :: "'v map_node \<Rightarrow> string \<Rightarrow> 'v \<Rightarrow> 'v map_node" where
  "insert_node root key v = insertRepairTree (MapNode RED Null key v Null) (insertRecurse root key [])"

fun map_get :: "'v map_node \<Rightarrow> string \<Rightarrow> 'v option" where
  "map_get Null key = None"
| "map_get (MapNode c l k v r) key =
     (if 0 < strncmp MAX_LABEL k key then map_get l key
      else if strncmp MAX_LABEL k key = 0 then Some v
      else map_get r key)"

text \<open>Storing into the node that \<open>map_find\<close> returns.\<close>

fun set_found :: "'v map_node \<Rightarrow> string \<Rightarrow> 'v \<Rightarrow> 'v map_node" where
  "set_found Null key w = Null"
| "set_found (MapNode c l k v r) key w =
     (if 0 < strncmp MAX_LABEL k key then MapNode c (set_found l key w) k v r
      else if strncmp MAX_LABEL k key = 0 then MapNode c l k w r
      else MapNode c l k v (set_found r key w))"

definition map_set :: "'v map_node \<Rightarrow> string \<Rightarrow> 'v \<Rightarrow> 'v map_node" where
  "map_set m key v =
     (if map_get m key = None then
        (if m \<noteq> Null then insert_node m key v else MapNode RED Null key v Null)
      else set_found m key v)"

fun map_count :: "'v map_node \<Rightarrow> nat" where
  "map_count Null = 0"
| "map_count (MapNode c l k v r) = 1 + map_count l + map_count r"

subsection \<open>The entries in order\<close>

fun entries :: "'v map_node \<Rightarrow> (string \<times> 'v) list" where
  "entries Null = []"
| "entries (MapNode c l k v r) = entries l @ (k, v) # entries r"

fun before :: "'v frame list \<Rightarrow> (string \<times> 'v) list" where
  "before [] = []"
| "before (InLeft c k v r # ps) = before ps"
| "before (InRight c l k v # ps) = before ps @ entries l @ [(k, v)]"

fun behind :: "'v frame list \<Rightarrow> (string \<times> 'v) list" where
  "behind [] = []"
| "behind (InLeft c k v r # ps) = (k, v) # entries r @ behind ps"
| "behind (InRight c l k v # ps) = behind ps"

definition keys :: "'v map_node \<Rightarrow> string list" where
  "keys t = map (lk \<circ> fst) (entries t)"

text \<open>Binary search tree on the significant part of the keys, without duplicates.\<close>

definition ordered :: "'v map_node \<Rightarrow> bool" where
  "ordered t \<longleftrightarrow> sorted_wrt (<) (keys t)"

lemma entries_set_color [simp]: "entries (set_color c t) = entries t"
  by (cases t) simp_all

lemma entries_to_root: "entries (to_root t ps) = before ps @ entries t @ behind ps"
  by (induction ps arbitrary: t rule: before.induct) (simp_all add: to_root_def)

lemma entries_rotateLeft [simp]: "entries (rotateLeft t) = entries t"
  by (induction t rule: rotateLeft.induct) simp_all

lemma entries_rotateRight [simp]: "entries (rotateRight t) = entries t"
  by (induction t rule: rotateRight.induct) simp_all

lemma entries_map_child [simp]:
  "entries (map_left (set_color c) t) = entries t" "entries (map_right (set_color c) t) = entries t"
  by (cases t; simp)+

lemma entries_rebalance [simp]:
  "entries (rebalance n p g) = entries (plug g (plug p n))"
  by (induction n p g rule: rebalance.induct) (simp_all del: rotateLeft.simps rotateRight.simps)

lemma entries_repair: "entries (insertRepairTree n ps) = before ps @ entries n @ behind ps"
proof (induction n ps rule: insertRepairTree.induct)
  case (3 n p g gs)
  then show ?case by (cases p; cases g) (simp_all add: entries_to_root)
qed (simp_all add: entries_to_root)

lemma entries_insertRecurse:
  "before (insertRecurse t key ps) @ behind (insertRecurse t key ps) = before ps @ entries t @ behind ps"
  by (induction t key ps rule: insertRecurse.induct) simp_all

lemma map_count_entries: "map_count t = length (entries t)"
  by (induction t) simp_all

subsection \<open>Look-up and update\<close>

text \<open>What the tree means: a map on the significant part of the keys.\<close>

definition assoc :: "'v map_node \<Rightarrow> (string \<times> 'v) list" where
  "assoc t = map (\<lambda>(k, v). (lk k, v)) (entries t)"

definition meaning :: "'v map_node \<Rightarrow> string \<Rightarrow> 'v option" where
  "meaning t = map_of (assoc t)"

lemma keys_assoc: "keys t = map fst (assoc t)"
  by (simp add: keys_def assoc_def comp_def case_prod_beta')

lemma assoc_simps [simp]:
  "assoc Null = []" "assoc (MapNode c l k v r) = assoc l @ (lk k, v) # assoc r"
  by (simp_all add: assoc_def)

lemma keys_simps [simp]:
  "keys Null = []" "keys (MapNode c l k v r) = keys l @ lk k # keys r"
  by (simp_all add: keys_def)

lemma ordered_simps [simp]:
  "ordered Null"
  "ordered (MapNode c l k v r) \<longleftrightarrow> ordered l \<and> ordered r \<and>
     (\<forall>x\<in>set (keys l). x < lk k) \<and> (\<forall>x\<in>set (keys r). lk k < x)"
  by (auto simp: ordered_def sorted_wrt_append intro: less_trans [of _ "lk k"])

lemma map_of_none: "map_of (assoc t) x = None \<longleftrightarrow> x \<notin> set (keys t)"
  by (simp add: map_of_eq_None_iff keys_assoc)

lemma map_get_meaning: "ordered t \<Longrightarrow> map_get t key = meaning t (lk key)"
proof (induction t)
  case (MapNode c l k v r)
  show ?case
  proof (cases "lk k" "lk key" rule: linorder_cases)
    case less
    with equal MapNode.prems have "lk key \<notin> set (keys l)" by auto
    then have "map_of (assoc l) (lk key) = None" by (simp add: map_of_none)
    with less MapNode show ?thesis by (auto simp: meaning_def map_add_def)
  next
    case equal
    with equal MapNode.prems have "lk key \<notin> set (keys l)" by auto
    then have "map_of (assoc l) (lk key) = None" by (simp add: map_of_none)
    with equal show ?thesis by (simp add: meaning_def map_add_def)
  next
    case greater
    with MapNode.prems have "lk key \<notin> set (keys r)" by auto
    then have "map_of (assoc r) (lk key) = None" by (simp add: map_of_none)
    with greater MapNode show ?thesis by (auto simp: meaning_def map_add_def split: option.split)
  qed
qed (simp add: meaning_def)

lemma insertRecurse_position:
  assumes "ordered t" "lk key \<notin> set (keys t)"
    and "\<forall>(k, v)\<in>set (before ps). lk k < lk key" "\<forall>(k, v)\<in>set (behind ps). lk key < lk k"
  shows "(\<forall>(k, v)\<in>set (before (insertRecurse t key ps)). lk k < lk key) \<and>
    (\<forall>(k, v)\<in>set (behind (insertRecurse t key ps)). lk key < lk k)"
  using assms
proof (induction t key ps rule: insertRecurse.induct)
  case (2 c l k v r key ps)
  have in_keys: "lk a \<in> set (keys u)" if "(a, b) \<in> set (entries u)" for a b u
    using that by (force simp: keys_def)
  show ?case
  proof (cases "lk key < lk k")
    case True
    with 2(1,3-) show ?thesis by (fastforce dest: in_keys)
  next
    case False
    with 2(4) have "lk k < lk key" by auto
    with False 2(2,3-) show ?thesis by (fastforce dest: in_keys)
  qed
qed simp

lemma insert_node_entries:
  assumes "ordered t" "lk key \<notin> set (keys t)"
  shows "\<exists>xs ys. entries t = xs @ ys \<and> entries (insert_node t key v) = xs @ (key, v) # ys \<and>
    (\<forall>(k, v)\<in>set xs. lk k < lk key) \<and> (\<forall>(k, v)\<in>set ys. lk key < lk k)"
  using insertRecurse_position [OF assms, of "[]"] entries_insertRecurse [of t key "[]"]
  by (intro exI [of _ "before (insertRecurse t key [])"] exI [of _ "behind (insertRecurse t key [])"])
    (simp add: insert_node_def entries_repair)

lemma ordered_insert_node:
  assumes "ordered t" "lk key \<notin> set (keys t)"
  shows "ordered (insert_node t key v)"
proof -
  obtain xs ys where e: "entries t = xs @ ys" "entries (insert_node t key v) = xs @ (key, v) # ys"
    and lt: "\<forall>(k, v)\<in>set xs. lk k < lk key" "\<forall>(k, v)\<in>set ys. lk key < lk k"
    using insert_node_entries [OF assms] by blast
  have "sorted_wrt (<) (map (lk \<circ> fst) xs)" "sorted_wrt (<) (map (lk \<circ> fst) ys)"
      "\<forall>x\<in>set xs. \<forall>y\<in>set ys. lk (fst x) < lk (fst y)"
    using assms(1) by (auto simp: ordered_def keys_def e sorted_wrt_append)
  with lt show ?thesis
    by (fastforce simp: ordered_def keys_def e sorted_wrt_append)
qed

lemma meaning_insert_node:
  assumes "ordered t" "lk key \<notin> set (keys t)"
  shows "meaning (insert_node t key v) = (meaning t)(lk key \<mapsto> v)"
proof -
  obtain xs ys where e: "entries t = xs @ ys" "entries (insert_node t key v) = xs @ (key, v) # ys"
    and lt: "\<forall>(k, v)\<in>set xs. lk k < lk key"
    using insert_node_entries [OF assms] by blast
  have "map_of (map (\<lambda>(k, v). (lk k, v)) xs) (lk key) = None"
    using lt by (force simp: map_of_eq_None_iff)
  then show ?thesis
    by (auto simp: meaning_def assoc_def e fun_eq_iff map_add_def split: option.split)
qed

lemma keys_set_found [simp]: "keys (set_found t key v) = keys t"
  by (induction t key v rule: set_found.induct) simp_all

lemma ordered_set_found [simp]: "ordered (set_found t key v) = ordered t"
  by (simp add: ordered_def)

lemma meaning_set_found:
  "ordered t \<Longrightarrow> lk key \<in> set (keys t) \<Longrightarrow> meaning (set_found t key v) = (meaning t)(lk key \<mapsto> v)"
proof (induction t)
  case (MapNode c l k w r)
  have none: "map_of (assoc u) x = None" if "x \<notin> set (keys u)" for u :: "'a map_node" and x
    using that by (simp add: map_of_none)
  show ?case
  proof (cases "lk k" "lk key" rule: linorder_cases)
    case less
    from MapNode.prems have "\<forall>x\<in>set (keys l). x < lk k" by simp
    with less have l: "lk key \<notin> set (keys l)" by (meson order.asym)
    with less MapNode have "meaning (set_found r key v) = (meaning r)(lk key \<mapsto> v)" by auto
    with l less show ?thesis by (auto simp: meaning_def map_add_def none fun_eq_iff split: option.split)
  next
    case equal
    with equal MapNode.prems have "lk key \<notin> set (keys l)" by auto
    with equal show ?thesis by (auto simp: meaning_def map_add_def none fun_eq_iff split: option.split)
  next
    case greater
    from MapNode.prems have "\<forall>x\<in>set (keys r). lk k < x" by simp
    with greater have "lk key \<notin> set (keys r)" by (meson order.asym)
    with greater MapNode have "meaning (set_found l key v) = (meaning l)(lk key \<mapsto> v)" by auto
    with greater show ?thesis by (auto simp: meaning_def map_add_def fun_eq_iff split: option.split)
  qed
qed simp

lemma map_get_none: "ordered t \<Longrightarrow> map_get t key = None \<longleftrightarrow> lk key \<notin> set (keys t)"
  by (simp add: map_get_meaning meaning_def map_of_none)

lemma ordered_map_set: "ordered t \<Longrightarrow> ordered (map_set t key v)"
  by (simp add: map_set_def map_get_none ordered_insert_node)

lemma meaning_map_set: "ordered t \<Longrightarrow> meaning (map_set t key v) = (meaning t)(lk key \<mapsto> v)"
proof (cases "map_get t key = None")
  case True
  assume "ordered t"
  with True show ?thesis
    by (cases "t = Null")
      (auto simp: map_set_def map_get_none meaning_insert_node, simp add: meaning_def fun_eq_iff)
next
  case False
  assume "ordered t"
  with False show ?thesis
    by (simp add: map_set_def map_get_none meaning_set_found)
qed

subsection \<open>Balance\<close>

fun black_height :: "'v map_node \<Rightarrow> nat" where
  "black_height Null = 0"
| "black_height (MapNode c l k v r) = black_height l + (if c = BLACK then 1 else 0)"

fun balanced :: "'v map_node \<Rightarrow> bool" where
  "balanced Null = True"
| "balanced (MapNode c l k v r) = (balanced l \<and> balanced r \<and> black_height l = black_height r)"

fun no_red_red :: "'v map_node \<Rightarrow> bool" where
  "no_red_red Null = True"
| "no_red_red (MapNode c l k v r) =
     (no_red_red l \<and> no_red_red r \<and> (c = RED \<longrightarrow> color_of l = BLACK \<and> color_of r = BLACK))"

fun height :: "'v map_node \<Rightarrow> nat" where
  "height Null = 0"
| "height (MapNode c l k v r) = 1 + max (height l) (height r)"

definition rb :: "'v map_node \<Rightarrow> bool" where
  "rb t \<longleftrightarrow> color_of t = BLACK \<and> balanced t \<and> no_red_red t"

text \<open>The path above a hole that takes a balanced subtree of black height \<open>h\<close>.\<close>

fun path_ok :: "'v frame list \<Rightarrow> nat \<Rightarrow> bool" where
  "path_ok [] h = True"
| "path_ok (f # fs) h =
     (no_red_red (getSibling f) \<and> balanced (getSibling f) \<and> black_height (getSibling f) = h \<and>
      (frame_color f = RED \<longrightarrow> color_of (getSibling f) = BLACK \<and>
         (fs \<noteq> [] \<longrightarrow> frame_color (hd fs) = BLACK)) \<and>
      path_ok fs (h + (if frame_color f = BLACK then 1 else 0)))"

definition root_black :: "'v frame list \<Rightarrow> bool" where
  "root_black ps \<longleftrightarrow> (ps \<noteq> [] \<longrightarrow> frame_color (last ps) = BLACK)"

lemma root_black_tl: "root_black (p # ps) \<Longrightarrow> root_black ps"
  by (simp add: root_black_def split: if_splits)

lemma color_cases: "c \<noteq> BLACK \<longleftrightarrow> c = RED"
  by (cases c) simp_all

lemma rb_to_root:
  assumes "no_red_red t" "balanced t" "path_ok ps (black_height t)" "root_black ps"
    and "ps = [] \<Longrightarrow> color_of t = BLACK"
    and "ps \<noteq> [] \<Longrightarrow> frame_color (hd ps) = RED \<Longrightarrow> color_of t = BLACK"
  shows "rb (to_root t ps)"
  using assms
proof (induction ps arbitrary: t)
  case (Cons p ps)
  have "rb (to_root (plug p t) ps)"
  proof (rule Cons.IH)
    show "no_red_red (plug p t)" "balanced (plug p t)" "path_ok ps (black_height (plug p t))"
      using Cons.prems by (cases p; auto)+
    show "root_black ps" using Cons.prems root_black_tl by blast
    show "ps = [] \<Longrightarrow> color_of (plug p t) = BLACK"
      using Cons.prems(4) by (cases p) (simp_all add: root_black_def)
    show "ps \<noteq> [] \<Longrightarrow> frame_color (hd ps) = RED \<Longrightarrow> color_of (plug p t) = BLACK"
      using Cons.prems(3) by (cases p; cases "frame_color p") auto
  qed
  then show ?case by (simp add: to_root_def)
qed (simp add: rb_def to_root_def)

lemma rb_set_black: "balanced t \<Longrightarrow> no_red_red t \<Longrightarrow> rb (set_color BLACK t)"
  by (cases t) (simp_all add: rb_def)

text \<open>A red node with black children, put where the path expects its black height.\<close>

lemma rb_insertRepairTree:
  assumes "color_of n = RED" "no_red_red n" "balanced n" "path_ok ps (black_height n)" "root_black ps"
  shows "rb (insertRepairTree n ps)"
  using assms
proof (induction n ps rule: insertRepairTree.induct)
  case (1 n)
  then show ?case by (simp add: rb_set_black)
next
  case (2 n p)
  have "rb (to_root n [p])"
    by (rule rb_to_root) (use 2 in \<open>auto simp: root_black_def\<close>)
  then show ?case by simp
next
  case (3 n p g gs)
  show ?case
  proof (cases "frame_color p = BLACK")
    case True
    have "rb (to_root n (p # g # gs))"
      by (rule rb_to_root) (use 3(2-) True in auto)
    with True show ?thesis by simp
  next
    case False
    then have p: "frame_color p = RED" by (cases "frame_color p") auto
    with 3(5) have g: "frame_color g = BLACK" by simp
    show ?thesis
    proof (cases "color_of (getSibling g) = RED")
      case True
      let ?g = "plug (set_frame_color RED (set_sibling_color BLACK g)) (plug (set_frame_color BLACK p) n)"
      obtain uc ul uk uv ur where u: "getSibling g = MapNode uc ul uk uv ur"
        using True by (cases "getSibling g") auto
      have "color_of ?g = RED" "no_red_red ?g" "balanced ?g" "path_ok gs (black_height ?g)"
        using 3(2-) p g True u by (cases p; cases g; auto)+
      moreover have "root_black gs" using 3(6) root_black_tl by blast
      ultimately show ?thesis using 3(1) False True by simp
    next
      case False
      then have u: "color_of (getSibling g) = BLACK" by (cases "color_of (getSibling g)") auto
      obtain nl nk nv nr where n: "n = MapNode RED nl nk nv nr"
        using 3(2) by (cases n) auto
      have "rb (to_root (rebalance n p g) gs)"
      proof (rule rb_to_root)
        show "no_red_red (rebalance n p g)" "balanced (rebalance n p g)"
          "path_ok gs (black_height (rebalance n p g))"
          using 3(2-) p g u n by (cases p; cases g; auto)+
        show "root_black gs" using 3(6) root_black_tl by blast
        have "color_of (rebalance n p g) = BLACK"
          using n by (cases p; cases g) auto
        then show "gs = [] \<Longrightarrow> color_of (rebalance n p g) = BLACK"
          "gs \<noteq> [] \<Longrightarrow> frame_color (hd gs) = RED \<Longrightarrow> color_of (rebalance n p g) = BLACK" by simp_all
      qed
      with p False show ?thesis by simp
    qed
  qed
qed

lemma path_ok_insertRecurse:
  assumes "no_red_red t" "balanced t" "path_ok ps (black_height t)" "root_black ps"
    and "ps = [] \<Longrightarrow> color_of t = BLACK"
    and "ps \<noteq> [] \<Longrightarrow> frame_color (hd ps) = RED \<Longrightarrow> color_of t = BLACK"
  shows "path_ok (insertRecurse t key ps) 0 \<and> root_black (insertRecurse t key ps)"
  using assms
proof (induction t key ps rule: insertRecurse.induct)
  case (2 c l k v r key ps)
  have root: "root_black (InLeft c k v r # ps)" "root_black (InRight c l k v # ps)"
    using 2(6,7) by (auto simp: root_black_def)
  show ?case
  proof (cases c)
    case RED
    with 2(7) have ne: "ps \<noteq> []" by auto
    with RED 2(8) have "frame_color (hd ps) = BLACK" by (cases "frame_color (hd ps)") auto
    with ne RED 2 root show ?thesis by auto
  next
    case BLACK
    with 2 root show ?thesis by auto
  qed
qed simp

text \<open>
  The first node of a map keeps the \<open>RED\<close> that \<open>as_mallocz\<close> gives it: up to three nodes may
  all be red. The next insertion that finds a red uncle or rotates makes the root black, and
  from then on the tree is a red-black tree.
\<close>

fun leaf_or_null :: "'v map_node \<Rightarrow> bool" where
  "leaf_or_null Null = True"
| "leaf_or_null (MapNode c l k v r) = (c = RED \<and> l = Null \<and> r = Null)"

fun young :: "'v map_node \<Rightarrow> bool" where
  "young Null = False"
| "young (MapNode c l k v r) = (c = RED \<and> leaf_or_null l \<and> leaf_or_null r)"

definition map_ok :: "'v map_node \<Rightarrow> bool" where
  "map_ok t \<longleftrightarrow> ordered t \<and> (rb t \<or> young t)"

lemma rb_insert_node: "rb t \<Longrightarrow> rb (insert_node t key v)"
  unfolding insert_node_def
  by (rule rb_insertRepairTree)
    (use path_ok_insertRecurse [of t "[]" key] in \<open>auto simp: rb_def root_black_def\<close>)

lemma young_insert_node: "young t \<Longrightarrow> rb (insert_node t key v) \<or> young (insert_node t key v)"
proof (cases t)
  case (MapNode c l k w r)
  assume "young t"
  with MapNode show ?thesis
    by (cases l; cases r) (auto simp: insert_node_def to_root_def rb_def)
qed simp

lemma shape_set_found [simp]:
  "color_of (set_found t key v) = color_of t" "black_height (set_found t key v) = black_height t"
  "balanced (set_found t key v) = balanced t" "no_red_red (set_found t key v) = no_red_red t"
  "height (set_found t key v) = height t" "(set_found t key v = Null) = (t = Null)"
  by (induction t) auto

lemma young_set_found [simp]: "young t \<Longrightarrow> young (set_found t key v)"
proof (cases t)
  case (MapNode c l k w r)
  assume "young t"
  with MapNode show ?thesis by (cases l; cases r) auto
qed simp

lemma map_ok_Null: "map_ok Null"
  by (simp add: map_ok_def rb_def)

lemma map_ok_set: "map_ok t \<Longrightarrow> map_ok (map_set t key v)"
  using rb_insert_node [of t key v] young_insert_node [of t key v] ordered_map_set [of t key v]
  by (auto simp: map_ok_def map_set_def rb_def)

lemma balanced_size: "balanced t \<Longrightarrow> 2 ^ black_height t \<le> map_count t + 1"
  by (induction t) auto

lemma no_red_red_height:
  "balanced t \<Longrightarrow> no_red_red t \<Longrightarrow>
     height t \<le> 2 * black_height t + (if color_of t = RED then 1 else 0)"
  by (induction t) (auto split: if_splits, (metis color_t.exhaust)+)

lemma rb_height:
  assumes "rb t" shows "2 ^ height t \<le> (map_count t + 1) ^ 2"
proof -
  have "height t \<le> 2 * black_height t"
    using assms no_red_red_height [of t] by (simp add: rb_def)
  then have "(2 :: nat) ^ height t \<le> 2 ^ (2 * black_height t)" by (rule power_increasing) simp
  also have "\<dots> = (2 ^ black_height t) ^ 2" by (simp add: power_mult mult.commute)
  also have "\<dots> \<le> (map_count t + 1) ^ 2"
    using assms balanced_size [of t] by (intro power_mono) (simp_all add: rb_def)
  finally show ?thesis .
qed

lemma young_height: "young t \<Longrightarrow> 2 ^ height t \<le> (map_count t + 1) ^ 2"
proof (cases t)
  case (MapNode c l k w r)
  assume "young t"
  with MapNode show ?thesis by (cases l; cases r) (auto simp: power2_eq_square)
qed simp

subsection \<open>The interface the assembler relies on\<close>

text \<open>
  What the users of a symbol map may assume: a setting is found again under every name with the
  same significant part, disturbs no other name, and keeps the representation sound.
\<close>

locale sym_table =
  fixes lookup :: "'m \<Rightarrow> string \<Rightarrow> 'v option"
    and store :: "'m \<Rightarrow> string \<Rightarrow> 'v \<Rightarrow> 'm"
    and sound :: "'m \<Rightarrow> bool"
    and sig :: "string \<Rightarrow> string"
  assumes lookup_store:
      "sound m \<Longrightarrow> lookup (store m k v) k' = (if sig k' = sig k then Some v else lookup m k')"
    and sound_store: "sound m \<Longrightarrow> sound (store m k v)"
begin

definition store_all :: "(string \<times> 'v) list \<Rightarrow> 'm \<Rightarrow> 'm" where
  "store_all kvs m = fold (\<lambda>(k, v) m. store m k v) kvs m"

lemma sound_store_all: "sound m \<Longrightarrow> sound (store_all kvs m)"
  by (induction kvs arbitrary: m) (auto simp: store_all_def sound_store)

lemma lookup_store_all:
  "sound m \<Longrightarrow> lookup (store_all kvs m) k =
     (case map_of (rev (map (\<lambda>(k, v). (sig k, v)) kvs)) (sig k) of
        Some v \<Rightarrow> Some v | None \<Rightarrow> lookup m k)"
proof (induction kvs arbitrary: m)
  case (Cons kv kvs)
  obtain a b where kv: "kv = (a, b)" by (cases kv)
  have "lookup (store_all (kv # kvs) m) k = lookup (store_all kvs (store m a b)) k"
    by (simp add: store_all_def kv)
  also have "\<dots> = (case map_of (rev (map (\<lambda>(k, v). (sig k, v)) kvs)) (sig k) of
        Some v \<Rightarrow> Some v | None \<Rightarrow> lookup (store m a b) k)"
    using Cons by (simp add: sound_store)
  finally show ?case
    using Cons.prems by (auto simp: kv lookup_store map_add_def split: option.split)
qed (simp add: store_all_def)

end

lemma map_get_set:
  "map_ok t \<Longrightarrow> map_get (map_set t k v) k' = (if lk k' = lk k then Some v else map_get t k')"
  using ordered_map_set [of t k v]
  by (simp add: map_ok_def map_get_meaning meaning_map_set)

interpretation symbols: sym_table map_get map_set map_ok lk
  by unfold_locales (simp_all add: map_get_set map_ok_set)

subsection \<open>Properties of the symbol map\<close>

definition map_sets :: "(string \<times> 'v) list \<Rightarrow> 'v map_node" where
  "map_sets kvs = fold (\<lambda>(k, v) m. map_set m k v) kvs Null"

lemma map_sets_store_all: "map_sets kvs = symbols.store_all kvs Null"
  by (simp add: map_sets_def symbols.store_all_def)

lemma map_ok_sets: "map_ok (map_sets kvs)"
  by (simp add: map_sets_store_all symbols.sound_store_all map_ok_Null)

text \<open>
  C7. Refinement: after any sequence of \<open>map_set\<close> calls on a null map, \<open>map_get\<close> finds under a
  name the value set last under a name with the same first 32 characters, and nothing else.
\<close>

theorem map_sets_refine:
  "map_get (map_sets kvs) k = map_of (rev (map (\<lambda>(k, v). (lk k, v)) kvs)) (lk k)"
  by (simp add: map_sets_store_all symbols.lookup_store_all map_ok_Null split: option.split)

text \<open>
  C15. The tree \<open>map_set\<close> builds stays in order without duplicate keys, every path from the root
  has the same number of black nodes, and its height is at most twice the binary logarithm of
  the number of entries plus one, so that a look-up makes at most that many comparisons.
\<close>

theorem map_sets_balanced:
  "sorted_wrt (<) (keys (map_sets kvs)) \<and> balanced (map_sets kvs) \<and>
   2 ^ height (map_sets kvs) \<le> (map_count (map_sets kvs) + 1) ^ 2"
proof -
  have ok: "map_ok (map_sets kvs)" by (rule map_ok_sets)
  have "balanced t" if "young t" for t :: "'v map_node"
  proof (cases t)
    case (MapNode c l k w r)
    with that show ?thesis by (cases l; cases r) auto
  qed simp
  with ok show ?thesis
    using rb_height [of "map_sets kvs"] young_height [of "map_sets kvs"]
    by (auto simp: map_ok_def ordered_def rb_def)
qed

lemma set_keys_dom: "set (keys t) = dom (meaning t)"
  by (simp add: meaning_def keys_assoc dom_map_of_conv_image_fst)

lemma dom_map_sets: "dom (meaning (map_sets kvs)) = lk ` fst ` set kvs"
proof (induction kvs rule: rev_induct)
  case Nil
  show ?case by (simp add: map_sets_def meaning_def)
next
  case (snoc kv kvs)
  obtain k v where kv: "kv = (k, v)" by (cases kv)
  have "map_sets (kvs @ [kv]) = map_set (map_sets kvs) k v" by (simp add: map_sets_def kv)
  then have "meaning (map_sets (kvs @ [kv])) = (meaning (map_sets kvs))(lk k \<mapsto> v)"
    using map_ok_sets [of kvs] by (simp add: map_ok_def meaning_map_set)
  then have "dom (meaning (map_sets (kvs @ [kv]))) = insert (lk k) (dom (meaning (map_sets kvs)))"
    by (simp only: dom_fun_upd option.distinct if_False)
  with snoc show ?case by (simp add: kv)
qed

text \<open>
  \<open>map_count\<close> of the map is the number of different names set, names being different when
  their first 32 characters are.
\<close>

theorem map_sets_count: "map_count (map_sets kvs) = card (lk ` fst ` set kvs)"
proof -
  have "sorted_wrt (<) (keys (map_sets kvs))"
    using map_ok_sets [of kvs] by (simp add: map_ok_def ordered_def)
  then have "distinct (keys (map_sets kvs))" by (simp add: strict_sorted_iff)
  then have "length (keys (map_sets kvs)) = card (set (keys (map_sets kvs)))"
    by (simp add: distinct_card)
  then show ?thesis
    by (simp add: map_count_entries keys_def [symmetric] set_keys_dom dom_map_sets flip: length_map)
      (simp add: keys_def)
qed

text \<open>The second insertion makes two red nodes adjacent.\<close>

lemma map_second_red_red: "\<not> no_red_red (map_sets [(''a'', 1 :: nat), (''b'', 2)])"
  by code_simp

subsection \<open>The debugger's symbols\<close>

text \<open>
  \<open>dsym_add\<close> / \<open>dsym_find\<close>: an unbalanced search tree from addresses (\<open>long\<close>, here \<open>int\<close>, only
  compared) to a symbol type and a name. Its parent pointers are never read.
\<close>

datatype dsym_node =
    DNull
  | DSymNode dsym_node int char string dsym_node

fun insertDSymRecurse :: "dsym_node \<Rightarrow> int \<Rightarrow> char \<Rightarrow> string \<Rightarrow> dsym_node" where
  "insertDSymRecurse DNull a ty v = DSymNode DNull a ty v DNull"
| "insertDSymRecurse (DSymNode l key t w r) a ty v =
     (if a < key then DSymNode (insertDSymRecurse l a ty v) key t w r
      else DSymNode l key t w (insertDSymRecurse r a ty v))"

definition dsym_add :: "dsym_node \<Rightarrow> int \<Rightarrow> char \<Rightarrow> string \<Rightarrow> dsym_node" where
  "dsym_add d a ty v = insertDSymRecurse d a ty v"

fun dsym_find :: "dsym_node \<Rightarrow> int \<Rightarrow> (char \<times> string) option" where
  "dsym_find DNull a = None"
| "dsym_find (DSymNode l key t w r) a =
     (if key = a then Some (t, w) else if key > a then dsym_find l a else dsym_find r a)"

lemma dsym_find_add:
  "dsym_find (dsym_add d a ty v) b =
     (if b = a \<and> dsym_find d a = None then Some (ty, v) else dsym_find d b)"
  unfolding dsym_add_def by (induction d) auto

definition dsym_adds :: "(int \<times> char \<times> string) list \<Rightarrow> dsym_node" where
  "dsym_adds xs = fold (\<lambda>(a, ty, v) d. dsym_add d a ty v) xs DNull"

text \<open>
  \<open>dsym_find\<close> returns, of the symbols added at an address, the one added first.
\<close>

theorem dsym_adds_find: "dsym_find (dsym_adds xs) a = map_of xs a"
proof (induction xs rule: rev_induct)
  case (snoc x xs)
  obtain b ty v where x: "x = (b, ty, v)" by (cases x)
  have "dsym_adds (xs @ [x]) = dsym_add (dsym_adds xs) b ty v" by (simp add: dsym_adds_def x)
  with snoc show ?case
    by (auto simp: dsym_find_add x map_add_def split: option.split)
qed (simp add: dsym_adds_def)

end
