(* ===== verification/Objects.thy ===== *)
theory Objects
  imports SymMap "HOL-Library.Signed_Division"
begin

text \<open>
  The objects of \<open>as-c/src/value.c\<close>: what a symbol, a constant of the program or an entry of the
  expression stack is, and the arithmetic on them. \<open>type\<close> pointers are compared with the
  singletons \<open>typeInt\<close>, \<open>typeString\<close>, ..., one for each form, so the model keeps the form.

  The union of an object is \<open>val\<close>. Reading \<open>int_val\<close> of an object that holds a pointer gives a
  number that depends on the machine's addresses; such a read is \<open>None\<close>. A \<open>double\<close> is only ever
  made from an integer, which \<open>Real\<close> keeps; its bits read as \<open>int_val\<close> are \<open>None\<close> too. Arithmetic is on
  \<open>long\<close> and wraps, where C leaves overflow undefined; a division by zero, the overflowing
  quotient and a shift by 64 or more, which C leaves undefined, are \<open>None\<close>.
\<close>

datatype form =
    ByteForm | BoolForm | CharForm | IntForm | RealForm | PointerForm | NilTypeForm | NoTypeForm
  | ProcForm | ModForm | StringForm | ArrayForm | RecordForm | SetForm | MapForm | MacroForm

datatype omode = Const | Var | Par | Fld | Typ | SProc | SFunc | Macro | Reg

datatype payload =
    Num u64
  | Real int
  | Str string
  | MacroPtr nat

record obj =
  form :: form
  omode :: omode
  val :: payload
  level :: int
  parent :: "nat option"
  desc :: "nat map_node"
  oaddr :: u32
  exported :: bool
  readonly :: bool
  is_local :: bool
  is_global :: bool

definition object_new :: "omode \<Rightarrow> form \<Rightarrow> obj" where
  "object_new m f =
     \<lparr>form = f, omode = m, val = Num 0, level = 0, parent = None, desc = Null, oaddr = 0,
      exported = False, readonly = False, is_local = False, is_global = False\<rparr>"

fun int_of :: "payload \<Rightarrow> u64 option" where
  "int_of (Num n) = Some n"
| "int_of _ = None"

definition int_val :: "obj \<Rightarrow> u64 option" where
  "int_val x = int_of (val x)"

definition int_object :: "u64 \<Rightarrow> obj" where
  "int_object n = (object_new Const IntForm)\<lparr>val := Num n\<rparr>"

definition truth :: "bool \<Rightarrow> u64" where
  "truth b = (if b then 1 else 0)"

subsection \<open>Arithmetic\<close>

text \<open>Every operation makes a new \<open>typeInt\<close> object from the \<open>int_val\<close> of its operands.\<close>

definition lift1 :: "(u64 \<Rightarrow> u64 option) \<Rightarrow> obj \<Rightarrow> obj option" where
  "lift1 f l = Option.bind (int_val l) (\<lambda>a. map_option int_object (f a))"

definition lift2 :: "(u64 \<Rightarrow> u64 \<Rightarrow> u64 option) \<Rightarrow> obj \<Rightarrow> obj \<Rightarrow> obj option" where
  "lift2 f l r =
     Option.bind (int_val l) (\<lambda>a. Option.bind (int_val r) (\<lambda>b. map_option int_object (f a b)))"

text \<open>\<open>/\<close> and \<open>%\<close> of C: towards zero, with a trap for the two undefined cases.\<close>

definition divisible :: "u64 \<Rightarrow> u64 \<Rightarrow> bool" where
  "divisible a b \<longleftrightarrow> b \<noteq> 0 \<and> \<not> (sint a = - (2 ^ 63) \<and> sint b = - 1)"

definition object_add :: "obj \<Rightarrow> obj \<Rightarrow> obj option" where
  "object_add = lift2 (\<lambda>a b. Some (a + b))"

definition object_sub :: "obj \<Rightarrow> obj \<Rightarrow> obj option" where
  "object_sub = lift2 (\<lambda>a b. Some (a - b))"

definition object_mul :: "obj \<Rightarrow> obj \<Rightarrow> obj option" where
  "object_mul = lift2 (\<lambda>a b. Some (a * b))"

definition object_div :: "obj \<Rightarrow> obj \<Rightarrow> obj option" where
  "object_div = lift2 (\<lambda>a b. if divisible a b then Some (word_of_int (sint a sdiv sint b)) else None)"

definition object_idiv :: "obj \<Rightarrow> obj \<Rightarrow> obj option" where
  "object_idiv = lift2 (\<lambda>a b. if divisible a b then Some (word_of_int (sint a sdiv sint b)) else None)"

definition object_mod :: "obj \<Rightarrow> obj \<Rightarrow> obj option" where
  "object_mod = lift2 (\<lambda>a b. if divisible a b then Some (word_of_int (sint a smod sint b)) else None)"

definition object_and :: "obj \<Rightarrow> obj \<Rightarrow> obj option" where
  "object_and = lift2 (\<lambda>a b. Some (a AND b))"

definition object_or :: "obj \<Rightarrow> obj \<Rightarrow> obj option" where
  "object_or = lift2 (\<lambda>a b. Some (a OR b))"

definition object_not :: "obj \<Rightarrow> obj option" where
  "object_not = lift1 (\<lambda>a. Some (truth (a = 0)))"

definition object_lowbyte :: "obj \<Rightarrow> obj option" where
  "object_lowbyte = lift1 (\<lambda>a. Some (a AND 0xff))"

definition object_highbyte :: "obj \<Rightarrow> obj option" where
  "object_highbyte = lift1 (\<lambda>a. Some (signed_drop_bit 8 a AND 0xff))"

definition object_bankbyte :: "obj \<Rightarrow> obj option" where
  "object_bankbyte = lift1 (\<lambda>a. Some (signed_drop_bit 16 a AND 0xff))"

definition object_neg :: "obj \<Rightarrow> obj option" where
  "object_neg = lift1 (\<lambda>a. Some (- a))"

text \<open>
  Equality looks at the type of the left operand only. Left operands that are neither integers
  nor strings leave the zero of the new object.
\<close>

definition object_equal :: "obj \<Rightarrow> obj \<Rightarrow> obj option" where
  "object_equal l r =
     (if form l = IntForm then lift2 (\<lambda>a b. Some (truth (a = b))) l r
      else if form l = StringForm then
        (case (val l, val r) of
           (Str a, Str b) \<Rightarrow> Some (int_object (truth (strncmp 20 a b = 0)))
         | _ \<Rightarrow> None)
      else Some (int_object 0))"

definition object_notequal :: "obj \<Rightarrow> obj \<Rightarrow> obj option" where
  "object_notequal = lift2 (\<lambda>a b. Some (truth (a \<noteq> b)))"

definition object_greaterthan :: "obj \<Rightarrow> obj \<Rightarrow> obj option" where
  "object_greaterthan = lift2 (\<lambda>a b. Some (truth (b <s a)))"

definition object_greaterthanequal :: "obj \<Rightarrow> obj \<Rightarrow> obj option" where
  "object_greaterthanequal = lift2 (\<lambda>a b. Some (truth (b \<le>s a)))"

definition object_lessthan :: "obj \<Rightarrow> obj \<Rightarrow> obj option" where
  "object_lessthan = lift2 (\<lambda>a b. Some (truth (a <s b)))"

definition object_lessthanequal :: "obj \<Rightarrow> obj \<Rightarrow> obj option" where
  "object_lessthanequal = lift2 (\<lambda>a b. Some (truth (a \<le>s b)))"

definition object_leftshift :: "obj \<Rightarrow> obj \<Rightarrow> obj option" where
  "object_leftshift = lift2 (\<lambda>a b. if unat b < 64 then Some (push_bit (unat b) a) else None)"

definition object_rightshift :: "obj \<Rightarrow> obj \<Rightarrow> obj option" where
  "object_rightshift = lift2 (\<lambda>a b. if unat b < 64 then Some (signed_drop_bit (unat b) a) else None)"

text \<open>
  \<open>object_set\<close> copies the flags always and the value for five of the types; the type of the
  target stays. Into a string it copies with \<open>as_strdup\<close>, which accepts a null pointer and
  otherwise needs a string. (\<open>object_copy\<close> is not used by the assembler.)
\<close>

definition object_set :: "obj \<Rightarrow> obj \<Rightarrow> obj option" where
  "object_set t f =
     (let t1 = t\<lparr>readonly := readonly f, exported := exported f, is_local := is_local f\<rparr>
      in if form t \<in> {ByteForm, CharForm, IntForm, RealForm} then Some (t1\<lparr>val := val f\<rparr>)
         else if form t = StringForm then
           (case val f of Str x \<Rightarrow> Some (t1\<lparr>val := Str x\<rparr>)
            | v \<Rightarrow> if v = Num 0 then Some (t1\<lparr>val := v\<rparr>) else None)
         else Some t1)"

lemmas object_ops =
  object_add_def object_sub_def object_mul_def object_div_def object_idiv_def object_mod_def
  object_and_def object_or_def object_not_def object_lowbyte_def object_highbyte_def
  object_bankbyte_def object_neg_def object_notequal_def object_greaterthan_def
  object_greaterthanequal_def object_lessthan_def object_lessthanequal_def
  object_leftshift_def object_rightshift_def

lemma int_val_object [simp]: "int_val (int_object n) = Some n"
  by (simp add: int_val_def int_object_def)

lemma form_int_object [simp]: "form (int_object n) = IntForm"
  by (simp add: int_object_def object_new_def)

end
