(* ===== verification/Scope.thy ===== *)
theory Scope
  imports Objects Encoder
begin

text \<open>
  The assembler's state and its scopes: \<open>scope_*\<close> of \<open>as-c/src/value.c\<close> and \<open>as_get_symbol\<close> /
  \<open>as_define_symbol\<close> of \<open>as-c/src/as.c\<close>.

  Objects are shared by pointers (a symbol's entry, a stack entry and the constant of an
  instruction may be one object), so they live in a store: an \<open>Object*\<close> is a position in
  \<open>heap\<close>, allocation appends. Reference counts and freeing are left out: no object of the model
  dies. A dereference of a null pointer is \<open>None\<close>.
\<close>

subsection \<open>State\<close>

type_synonym ptr = nat

text \<open>
  The instructions of the immediate form (\<open>enum OpType\<close>, \<open>struct Op\<close> of as-c/include/interp.h),
  with the object or the machine instruction of the union. \<open>OpJump\<close>, which nothing emits, is
  left out.
\<close>

datatype op =
    OpPush ptr | OpPushVar ptr | OpPop | OpPopVar ptr | OpDup
  | OpAdd | OpSub | OpMul | OpDiv | OpIDiv | OpMod | OpAnd | OpOr | OpNeg | OpNot
  | OpLowByte | OpHighByte | OpBankByte
  | OpEqual | OpNotEqual | OpGreaterThan | OpGreaterThanEqual | OpLessThan | OpLessThanEqual
  | OpLeftShift | OpRightShift
  | OpEmit instr
  | OpIfBegin | OpElseBegin | OpElseIfBegin | OpScopeBegin ptr | OpScopeEnd
  | OpError ptr | OpErrorIf ptr | OpMessage ptr | OpLabel ptr
  | OpFillByte ptr | OpFillWord ptr | OpFillLong ptr | OpConCat
  | OpByte ptr | OpWord ptr | OpLong ptr | OpFloat ptr | OpDouble ptr
  | OpText ptr | OpTextBit7 ptr | OpTextLen ptr | OpTextZero ptr
  | OpListLine ptr | OpMacroCall ptr | OpTitle ptr | OpSubheading ptr | OpPageBreak

record asm =
  heap :: "obj list"
  scope :: ptr
  current_level :: int
  current_label :: "ptr option"
  stack :: "ptr option vec"
  stack_pointer :: nat
  gen :: cg
  pc :: u32
  dbreg :: u16
  dpage :: u16
  pbreg :: u16
  e_entry :: u32
  pass :: u8
  cur_file :: "(string \<times> u32) option"
  error_count :: nat
  macros :: "op list list"

definition as_error :: "asm \<Rightarrow> asm" where
  "as_error s = s\<lparr>error_count := error_count s + 1\<rparr>"

definition deref :: "asm \<Rightarrow> ptr \<Rightarrow> obj" where
  "deref s a = heap s ! a"

definition update :: "ptr \<Rightarrow> (obj \<Rightarrow> obj) \<Rightarrow> asm \<Rightarrow> asm" where
  "update a f s = s\<lparr>heap := (heap s)[a := f (heap s ! a)]\<rparr>"

definition alloc :: "obj \<Rightarrow> asm \<Rightarrow> ptr \<times> asm" where
  "alloc x s = (length (heap s), s\<lparr>heap := heap s @ [x]\<rparr>)"

subsection \<open>Scopes\<close>

definition scope_push_object :: "ptr \<Rightarrow> asm \<Rightarrow> asm" where
  "scope_push_object a s =
     (if parent (deref s a) = Some (scope s)
      then s\<lparr>scope := a, current_level := current_level s + 1\<rparr>
      else as_error s)"

definition scope_pop :: "asm \<Rightarrow> asm" where
  "scope_pop s =
     (case parent (deref s (scope s)) of
        Some p \<Rightarrow> s\<lparr>scope := p, current_level := current_level s - 1\<rparr>
      | None \<Rightarrow> as_error s)"

definition scope_get_object :: "string \<Rightarrow> asm \<Rightarrow> ptr option" where
  "scope_get_object name s = map_get (desc (deref s (scope s))) name"

text \<open>
  The loop of \<open>scope_find_object\<close> climbs \<open>parent\<close> until a scope has the name or none is left.
  A chain longer than the store is a cycle, on which the C loop never ends: outer \<open>None\<close>.
\<close>

fun climb :: "nat \<Rightarrow> asm \<Rightarrow> ptr \<Rightarrow> string \<Rightarrow> ptr option option" where
  "climb 0 s a name = None"
| "climb (Suc n) s a name =
     (case map_get (desc (deref s a)) name of
        Some x \<Rightarrow> Some (Some x)
      | None \<Rightarrow> (case parent (deref s a) of None \<Rightarrow> Some None | Some p \<Rightarrow> climb n s p name))"

definition scope_find_object :: "string \<Rightarrow> asm \<Rightarrow> ptr option option" where
  "scope_find_object name s =
     (let start = (case map_get (desc (deref s (scope s))) ''.'' of Some l \<Rightarrow> l | None \<Rightarrow> scope s)
      in climb (length (heap s) + 1) s start name)"

definition scope_add_object :: "string \<Rightarrow> ptr \<Rightarrow> asm \<Rightarrow> asm option" where
  "scope_add_object name a s =
     (if is_local (deref s a) then
        (let (l, s1) =
           (case map_get (desc (deref s (scope s))) ''.'' of
              Some l \<Rightarrow> (l, s)
            | None \<Rightarrow>
                (let (l, s1) = alloc (object_new Const MapForm) s;
                     s2 = update (scope s) (\<lambda>x. x\<lparr>desc := map_set (desc x) ''.'' l\<rparr>) s1
                 in (l, update l (\<lambda>x. x\<lparr>parent := Some (scope s), level := current_level s\<rparr>) s2)));
             s2 = update l (\<lambda>x. x\<lparr>desc := map_set (desc x) name a\<rparr>) s1
         in Some (update a (\<lambda>x. x\<lparr>parent := Some l, level := current_level s + 1\<rparr>) s2))
      else
        Option.bind
          (case map_get (desc (deref s (scope s))) name of
             None \<Rightarrow> Some (update (scope s) (\<lambda>x. x\<lparr>desc := map_set (desc x) name a\<rparr>) s)
           | Some b \<Rightarrow>
               map_option (\<lambda>y. update b (\<lambda>_. y) s) (object_set (deref s b) (deref s a)))
          (\<lambda>s1. Some (update a (\<lambda>x. x\<lparr>parent := Some (scope s), level := current_level s\<rparr>) s1)))"

subsection \<open>Symbols with a meaning of their own\<close>

text \<open>\<open>strcasecmp(a, b) == 0\<close>.\<close>

definition to_lower :: "char \<Rightarrow> char" where
  "to_lower c =
     (if 65 \<le> (of_char c :: nat) \<and> of_char c \<le> (90 :: nat) then char_of (of_char c + 32 :: nat) else c)"

definition same_nocase :: "string \<Rightarrow> string \<Rightarrow> bool" where
  "same_nocase a b \<longleftrightarrow> map to_lower a = map to_lower b"

definition cpu_string :: "u16 \<Rightarrow> string" where
  "cpu_string em =
     (if em = EM_NONE then ''None'' else if em = EM_816 then ''65C816''
      else if em = EM_C02 then ''65C02'' else if em = EM_02 then ''6502''
      else if em = EM_RC02 then ''Rockwell 65C02'' else if em = EM_RC19 then ''Rockwell C19''
      else ''Unknown'')"

definition make_value_str :: "string \<Rightarrow> asm \<Rightarrow> ptr \<times> asm" where
  "make_value_str x s = alloc ((object_new Const StringForm)\<lparr>val := Str x\<rparr>) s"

text \<open>The \<open>int\<close> parameter is sign-extended into \<open>int_val\<close>.\<close>

definition make_value_int :: "u32 \<Rightarrow> asm \<Rightarrow> ptr \<times> asm" where
  "make_value_int i s = alloc (int_object (scast i)) s"

definition found :: "ptr \<times> asm \<Rightarrow> (ptr option \<times> asm) option" where
  "found = (\<lambda>(a, s). Some (Some a, s))"

definition bool32 :: "bool \<Rightarrow> u32" where
  "bool32 b = (if b then 1 else 0)"

text \<open>
  \<open>as_get_symbol\<close>: the inner option is the returned pointer. \<open>file\<close> is null once the sources
  have been read, so \<open>__FILE__\<close> and \<open>__LINE__\<close> dereference a null pointer in the interpreter.
\<close>

definition as_get_symbol :: "string \<Rightarrow> asm \<Rightarrow> (ptr option \<times> asm) option" where
  "as_get_symbol ident s =
     (if ident = ''__FILE__'' then
        Option.bind (cur_file s) (\<lambda>(name, line). found (make_value_str name s))
      else if ident = ''__LINE__'' then
        Option.bind (cur_file s) (\<lambda>(name, line). found (make_value_int line s))
      else if same_nocase ''org'' ident then found (make_value_int (sh_addr (sec (gen s))) s)
      else if same_nocase ''addr'' ident then found (make_value_int (ucast (codegen_here (gen s))) s)
      else if same_nocase ''pc'' ident then found (make_value_int (pc s) s)
      else if same_nocase ''longa'' ident then found (make_value_int (bool32 (longa (gen s))) s)
      else if same_nocase ''longi'' ident then found (make_value_int (bool32 (longi (gen s))) s)
      else if same_nocase ''cpu'' ident then found (make_value_str (cpu_string (e_machine (gen s))) s)
      else if same_nocase ''pass'' ident then found (make_value_int (ucast (pass s)) s)
      else if same_nocase ''dbreg'' ident then found (make_value_int (ucast (dbreg s)) s)
      else if same_nocase ''dpage'' ident then found (make_value_int (ucast (dpage s)) s)
      else if same_nocase ''pbreg'' ident then found (make_value_int (ucast (pbreg s)) s)
      else map_option (\<lambda>x. (x, s)) (scope_find_object ident s))"

text \<open>
  The machine a \<open>cpu\<close> string selects. The chain of \<open>if\<close>s assigns a local variable that has no
  initial value; for any other string the code reads it uninitialised.
\<close>

definition cpu_of_string :: "string \<Rightarrow> u16 option" where
  "cpu_of_string x =
     (if same_nocase x ''RC19'' then Some EM_RC19 else if same_nocase x ''C19'' then Some EM_RC19
      else if same_nocase x ''816'' then Some EM_816 else if same_nocase x ''65C816'' then Some EM_816
      else if same_nocase x ''R6501Q'' then Some EM_RC01
      else if same_nocase x ''R65C02'' then Some EM_RC02
      else if same_nocase x ''65C02'' then Some EM_C02
      else if same_nocase x ''6502'' then Some EM_02 else None)"

definition set_gen :: "(cg \<Rightarrow> cg) \<Rightarrow> asm \<Rightarrow> asm" where
  "set_gen f s = s\<lparr>gen := f (gen s)\<rparr>"

definition set_org :: "u64 \<Rightarrow> asm \<Rightarrow> asm" where
  "set_org n s =
     set_gen (\<lambda>g. let g1 = codegen_addr n g in g1\<lparr>sec := (sec g1)\<lparr>sh_addr := ucast n\<rparr>\<rparr>) s"

definition as_define_symbol :: "string \<Rightarrow> ptr \<Rightarrow> asm \<Rightarrow> asm option" where
  "as_define_symbol name a s =
     (let x = deref s a; num = int_val x in
      if name = ''__FILE__'' \<or> name = ''__LINE__'' \<or> name = ''__65AS__'' \<or> same_nocase ''pass'' name
        then Some (as_error s)
      else if same_nocase ''org'' name then map_option (\<lambda>n. set_org n s) num
      else if same_nocase ''addr'' name then map_option (\<lambda>n. set_gen (codegen_addr n) s) num
      else if same_nocase ''pc'' name then map_option (\<lambda>n. s\<lparr>pc := ucast n\<rparr>) num
      else if same_nocase ''longa'' name then map_option (\<lambda>n. set_gen (codegen_setlonga (n \<noteq> 0)) s) num
      else if same_nocase ''longi'' name then map_option (\<lambda>n. set_gen (codegen_setlongi (n \<noteq> 0)) s) num
      else if same_nocase ''cpu'' name then
        (if form x = StringForm then
           (case val x of
              Str t \<Rightarrow> map_option (\<lambda>em. set_gen (\<lambda>g. g\<lparr>e_machine := em\<rparr>) s) (cpu_of_string t)
            | _ \<Rightarrow> None)
         else Some (as_error s))
      else if same_nocase ''dbreg'' name then map_option (\<lambda>n. s\<lparr>dbreg := ucast n\<rparr>) num
      else if same_nocase ''dpage'' name then map_option (\<lambda>n. s\<lparr>dpage := ucast n\<rparr>) num
      else if same_nocase ''pbreg'' name then map_option (\<lambda>n. s\<lparr>pbreg := ucast n\<rparr>) num
      else if same_nocase ''entry'' name then map_option (\<lambda>n. s\<lparr>e_entry := ucast n\<rparr>) num
      else scope_add_object name a s)"

definition as_get_macro :: "string \<Rightarrow> asm \<Rightarrow> nat option option" where
  "as_get_macro ident s =
     map_option
       (\<lambda>f. case f of
              Some a \<Rightarrow>
                (if omode (deref s a) = Macro
                 then (case val (deref s a) of MacroPtr m \<Rightarrow> Some m | _ \<Rightarrow> None) else None)
            | None \<Rightarrow> None)
       (scope_find_object ident s)"

end
