(* ===== verification/Interp.thy ===== *)
theory Interp
  imports Scope
begin

text \<open>
  \<open>as-c/src/interp.c\<close>: the stack machine that runs the immediate form of a program, evaluates
  its expressions, defines its symbols and drives the code generator. Every operation returns
  the new state, or \<open>None\<close> where the C code dereferences a null pointer, leaves an array, or
  computes with a pointer as a number.

  The machine's text output (listing file, messages, warnings) is not part of the state; an
  error counts in \<open>error_count\<close>. \<open>objectZero\<close> is the object at position 0.
\<close>

subsection \<open>The stack\<close>

definition objectZero :: ptr where "objectZero = 0"

definition stack_push :: "ptr \<Rightarrow> asm \<Rightarrow> asm" where
  "stack_push a s =
     (let s1 = (if stack_pointer s = length (items (stack s))
                then s\<lparr>stack := list_add (Some a) (stack s)\<rparr>
                else s\<lparr>stack := (stack s)\<lparr>items := (items (stack s))[stack_pointer s := Some a]\<rparr>\<rparr>)
      in s1\<lparr>stack_pointer := stack_pointer s + 1\<rparr>)"

text \<open>The popped pointer may be null; the callers dereference it.\<close>

definition stack_pop :: "asm \<Rightarrow> (ptr \<times> asm) option" where
  "stack_pop s =
     (if 0 < stack_pointer s \<and> stack_pointer s \<le> length (items (stack s)) then
        (let n = stack_pointer s - 1 in
         case items (stack s) ! n of
           None \<Rightarrow> None
         | Some a \<Rightarrow>
             Some (a, s\<lparr>stack := (stack s)\<lparr>items := (items (stack s))[n := None]\<rparr>, stack_pointer := n\<rparr>))
      else None)"

text \<open>\<open>stack_top\<close> reads the entry above the top.\<close>

definition stack_top :: "asm \<Rightarrow> ptr option" where
  "stack_top s =
     (if stack_pointer s < length (items (stack s)) then items (stack s) ! stack_pointer s else None)"

definition stack_dup :: "asm \<Rightarrow> asm option" where
  "stack_dup s = map_option (\<lambda>a. stack_push a s) (stack_top s)"

fun stack_delete :: "nat \<Rightarrow> asm \<Rightarrow> asm option" where
  "stack_delete 0 s = Some s"
| "stack_delete (Suc n) s = Option.bind (stack_pop s) (\<lambda>(a, s1). stack_delete n s1)"

text \<open>Pushing a newly made object.\<close>

definition push_new :: "obj \<Rightarrow> asm \<Rightarrow> asm" where
  "push_new x s = (let (a, s1) = alloc x s in stack_push a s1)"

definition stack_op1 :: "(obj \<Rightarrow> obj option) \<Rightarrow> asm \<Rightarrow> asm option" where
  "stack_op1 f s =
     Option.bind (stack_pop s) (\<lambda>(l, s1).
       map_option (\<lambda>x. push_new x s1) (f (deref s1 l)))"

definition stack_op2 :: "(obj \<Rightarrow> obj \<Rightarrow> obj option) \<Rightarrow> asm \<Rightarrow> asm option" where
  "stack_op2 f s =
     Option.bind (stack_pop s) (\<lambda>(r, s1).
       Option.bind (stack_pop s1) (\<lambda>(l, s2).
         map_option (\<lambda>x. push_new x s2) (f (deref s2 l) (deref s2 r))))"

definition stack_add :: "asm \<Rightarrow> asm option" where "stack_add = stack_op2 object_add"
definition stack_sub :: "asm \<Rightarrow> asm option" where "stack_sub = stack_op2 object_sub"
definition stack_mul :: "asm \<Rightarrow> asm option" where "stack_mul = stack_op2 object_mul"
definition stack_div :: "asm \<Rightarrow> asm option" where "stack_div = stack_op2 object_div"
definition stack_idiv :: "asm \<Rightarrow> asm option" where "stack_idiv = stack_op2 object_idiv"
definition stack_mod :: "asm \<Rightarrow> asm option" where "stack_mod = stack_op2 object_mod"
definition stack_and :: "asm \<Rightarrow> asm option" where "stack_and = stack_op2 object_and"
definition stack_or :: "asm \<Rightarrow> asm option" where "stack_or = stack_op2 object_or"
definition stack_neg :: "asm \<Rightarrow> asm option" where "stack_neg = stack_op1 object_neg"
definition stack_not :: "asm \<Rightarrow> asm option" where "stack_not = stack_op1 object_not"
definition stack_lowbyte :: "asm \<Rightarrow> asm option" where "stack_lowbyte = stack_op1 object_lowbyte"
definition stack_highbyte :: "asm \<Rightarrow> asm option" where "stack_highbyte = stack_op1 object_highbyte"
definition stack_bankbyte :: "asm \<Rightarrow> asm option" where "stack_bankbyte = stack_op1 object_bankbyte"
definition stack_equal :: "asm \<Rightarrow> asm option" where "stack_equal = stack_op2 object_equal"
definition stack_notequal :: "asm \<Rightarrow> asm option" where "stack_notequal = stack_op2 object_notequal"
definition stack_greaterthan :: "asm \<Rightarrow> asm option" where
  "stack_greaterthan = stack_op2 object_greaterthan"
definition stack_greaterthanequal :: "asm \<Rightarrow> asm option" where
  "stack_greaterthanequal = stack_op2 object_greaterthanequal"

text \<open>\<open>stack_lessthan\<close> calls \<open>object_lessthanequal\<close>.\<close>

definition stack_lessthan :: "asm \<Rightarrow> asm option" where
  "stack_lessthan = stack_op2 object_lessthanequal"
definition stack_lessthanequal :: "asm \<Rightarrow> asm option" where
  "stack_lessthanequal = stack_op2 object_lessthanequal"
definition stack_leftshift :: "asm \<Rightarrow> asm option" where "stack_leftshift = stack_op2 object_leftshift"
definition stack_rightshift :: "asm \<Rightarrow> asm option" where
  "stack_rightshift = stack_op2 object_rightshift"

subsection \<open>Symbols\<close>

text \<open>\<open>string_val\<close> of an object that holds a string.\<close>

definition string_val :: "obj \<Rightarrow> string option" where
  "string_val x = (case val x of Str t \<Rightarrow> Some t | _ \<Rightarrow> None)"

text \<open>The tokens \<open>strtok(.., ".")\<close> finds.\<close>

fun split_dots :: "string \<Rightarrow> string \<Rightarrow> string list" where
  "split_dots w [] = (if w = [] then [] else [rev w])"
| "split_dots w (c # cs) =
     (if c = CHR ''.'' then (if w = [] then split_dots [] cs else rev w # split_dots [] cs)
      else split_dots (c # w) cs)"

definition tokens :: "string \<Rightarrow> string list" where
  "tokens x = split_dots [] x"

fun walk_members :: "ptr option \<Rightarrow> string list \<Rightarrow> asm \<Rightarrow> ptr option" where
  "walk_members v [] s = v"
| "walk_members None (t # ts) s = None"
| "walk_members (Some a) (t # ts) s = walk_members (map_get (desc (deref s a)) t) ts s"

definition push_found :: "ptr option \<Rightarrow> asm \<Rightarrow> asm" where
  "push_found v s = stack_push (case v of Some a \<Rightarrow> a | None \<Rightarrow> objectZero) s"

definition stack_push_var :: "ptr \<Rightarrow> asm \<Rightarrow> asm option" where
  "stack_push_var lb s =
     (let x = deref s lb in
      Option.bind (string_val x) (\<lambda>name.
        case (is_local x, current_label s) of
          (True, Some cl) \<Rightarrow>
            Option.bind (string_val (deref s cl)) (\<lambda>cname.
              Option.bind (as_get_symbol cname s) (\<lambda>(p, s1).
                map_option (\<lambda>a. push_found (map_get (desc (deref s1 a)) name) s1) p))
        | _ \<Rightarrow>
            (case tokens name of
               [] \<Rightarrow> None
             | t # ts \<Rightarrow>
                 map_option (\<lambda>(v, s1). push_found (walk_members v ts s1) s1) (as_get_symbol t s))))"

definition stack_pop_var :: "ptr \<Rightarrow> asm \<Rightarrow> asm option" where
  "stack_pop_var v s =
     Option.bind (string_val (deref s v)) (\<lambda>name.
       Option.bind (stack_pop s) (\<lambda>(a, s1). as_define_symbol name a s1))"

subsection \<open>Emitting instructions and data\<close>

text \<open>The \<open>int\<close> value of the first operand of an instruction.\<close>

definition operand_value :: "obj \<Rightarrow> u32 option" where
  "operand_value v =
     (if form v = IntForm then map_option ucast (int_val v)
      else if form v = ProcForm then Some (oaddr v)
      else if omode v = Macro then map_option ucast (int_val v)
      else Some 0)"

definition pop_operand :: "bool \<Rightarrow> (obj \<Rightarrow> u32 option) \<Rightarrow> asm \<Rightarrow> (u32 \<times> asm) option" where
  "pop_operand wanted f s =
     (if wanted then
        Option.bind (stack_pop s) (\<lambda>(a, s1). map_option (\<lambda>n. (n, s1)) (f (deref s1 a)))
      else Some (0, s))"

definition emit_instr :: "instr \<Rightarrow> asm \<Rightarrow> asm option" where
  "emit_instr i s =
     (let params = codegen_params i; num = \<lambda>v. map_option ucast (int_val v) in
      Option.bind (pop_operand (0 < params) operand_value s) (\<lambda>(v0, s0).
        Option.bind (pop_operand (1 < params) num s0) (\<lambda>(v1, s1).
          Option.bind (pop_operand (2 < params) num s1) (\<lambda>(v2, s2).
            Some (set_gen (codegen_gen i v0 v1 v2) s2)))))"

text \<open>
  The entries \<open>stack[stack_pointer - i]\<close> for \<open>i = n, ..., 1\<close>, oldest first. The count comes from
  the instruction's object.
\<close>

definition count_of :: "ptr \<Rightarrow> asm \<Rightarrow> nat option" where
  "count_of v s =
     Option.bind (int_val (deref s v)) (\<lambda>n. if 0 \<le> sint n then Some (unat n) else None)"

definition top_entries :: "nat \<Rightarrow> asm \<Rightarrow> obj list option" where
  "top_entries n s =
     (if n \<le> stack_pointer s \<and> stack_pointer s \<le> length (items (stack s)) then
        those (map (map_option (deref s)) (drop (stack_pointer s - n) (take (stack_pointer s) (items (stack s)))))
      else None)"

definition put_byte :: "u8 \<Rightarrow> cg \<Rightarrow> cg" where
  "put_byte b g = codegen_byte (ucast b) g"

definition put_bytes :: "u8 list \<Rightarrow> asm \<Rightarrow> asm" where
  "put_bytes bs s = set_gen (fold put_byte bs) s"

text \<open>
  The escapes of \<open>emit_text\<close>: the character after a backslash is dropped when it has no meaning,
  and a backslash at the end of the string reads past its terminator.
\<close>

definition char_byte :: "char \<Rightarrow> u8" where
  "char_byte c = of_nat (of_char c)"

fun escape_code :: "char \<Rightarrow> u8" where
  "escape_code c =
     (if c = CHR ''n'' then 0x0a else if c = CHR ''t'' then 0x09 else if c = CHR ''b'' then 0x08
      else if c = CHR ''r'' then 0x0d else if c = CHR ''a'' then 0x07
      else if c = CHR 0x27 then 0x27 else if c = CHR 0x22 then 0x22
      else if c = CHR 0x5C then 0x5c else if c = CHR ''f'' then 0x0c
      else if c = CHR ''v'' then 0x0b else if c = CHR ''0'' then 0x00
      else 0x5c)"

fun string_bytes :: "string \<Rightarrow> u8 list option" where
  "string_bytes [] = Some []"
| "string_bytes [c] = (if c = CHR 0x5C then None else Some [char_byte c])"
| "string_bytes (c # d # cs) =
     (if c = CHR 0x5C then map_option (Cons (escape_code d)) (string_bytes cs)
      else map_option (Cons (char_byte c)) (string_bytes (d # cs)))"

datatype text_kind = TextPlain | TextBit7 | TextLen | TextZero

text \<open>\<open>codegen_byte(c | 0x80)\<close> for the last character of the last entry.\<close>

definition mark_last :: "u8 list \<Rightarrow> u8 list" where
  "mark_last bs = (if bs = [] then [] else butlast bs @ [last bs OR 0x80])"

definition text_item :: "text_kind \<Rightarrow> bool \<Rightarrow> obj \<Rightarrow> u8 list option" where
  "text_item k is_last v =
     (if form v = IntForm then
        map_option (\<lambda>n. (if 0xff <s n then [ucast (signed_drop_bit 8 n)] else []) @ [ucast n]) (int_val v)
      else if form v = StringForm then
        Option.bind (string_val v) (\<lambda>x.
          map_option (\<lambda>bs. if k = TextBit7 \<and> is_last then mark_last bs else bs) (string_bytes x))
      else Some [])"

fun text_items :: "text_kind \<Rightarrow> obj list \<Rightarrow> u8 list option" where
  "text_items k [] = Some []"
| "text_items k (v # vs) =
     Option.bind (text_item k (vs = []) v) (\<lambda>bs. map_option ((@) bs) (text_items k vs))"

text \<open>The length byte: integers count 0 or 2, strings their source text.\<close>

fun text_len :: "obj list \<Rightarrow> nat option" where
  "text_len [] = Some 0"
| "text_len (v # vs) =
     Option.bind
       (if form v = IntForm then map_option (\<lambda>n. if 0xff <s n then 2 else 0) (int_val v)
        else if form v = StringForm then map_option length (string_val v)
        else Some 0)
       (\<lambda>n. map_option ((+) n) (text_len vs))"

definition emit_text :: "ptr \<Rightarrow> text_kind \<Rightarrow> asm \<Rightarrow> asm option" where
  "emit_text v k s =
     Option.bind (count_of v s) (\<lambda>n.
       Option.bind (top_entries n s) (\<lambda>vs.
         Option.bind (if k = TextLen then map_option (\<lambda>l. [of_nat l]) (text_len vs) else Some [])
           (\<lambda>pre.
             Option.bind (text_items k vs) (\<lambda>bs.
               let bad = (if k = TextLen
                          then length (filter (\<lambda>x. form x \<notin> {IntForm, StringForm}) vs) else 0);
                   s1 = s\<lparr>error_count := error_count s + bad\<rparr>
               in stack_delete n
                    (put_bytes (pre @ bs @ (if k = TextZero then [0] else [])) s1)))))"

definition data_byte :: "obj \<Rightarrow> u8 list option" where
  "data_byte v =
     (if form v = RealForm then
        (case val v of Real r \<Rightarrow> if - (2 ^ 31) \<le> r \<and> r < 2 ^ 31 then Some [word_of_int r] else None
         | _ \<Rightarrow> None)
      else if form v = StringForm then map_option (map char_byte) (string_val v)
      else map_option (\<lambda>n. [ucast n]) (int_val v))"

definition stack_byte :: "ptr \<Rightarrow> asm \<Rightarrow> asm option" where
  "stack_byte count s =
     Option.bind (count_of count s) (\<lambda>n.
       Option.bind (top_entries n s) (\<lambda>vs.
         Option.bind (those (map data_byte vs)) (\<lambda>bs. stack_delete n (put_bytes (concat bs) s))))"

definition stack_word :: "ptr \<Rightarrow> asm \<Rightarrow> asm option" where
  "stack_word count s =
     Option.bind (count_of count s) (\<lambda>n.
       if n = 0 then Some s
       else
         Option.bind (top_entries n s) (\<lambda>vs.
           Option.bind (those (map int_val vs)) (\<lambda>ns.
             stack_delete n (set_gen (fold (\<lambda>w g. codegen_word (ucast w) g) ns) s))))"

text \<open>
  \<open>stack_fill\<close>: the first entry is a number of bytes, the others the pattern repeated. With no
  pattern the C loop reads the entry above the top, which is null.
\<close>

definition stack_fill :: "ptr \<Rightarrow> asm \<Rightarrow> asm option" where
  "stack_fill v s =
     Option.bind (count_of v s) (\<lambda>n.
       Option.bind (top_entries n s) (\<lambda>vs.
         case vs of
           [] \<Rightarrow> None
         | x # pat \<Rightarrow>
             Option.bind (int_val x) (\<lambda>bytes.
               let m = nat (sint (ucast bytes :: u32)) in
               if m = 0 then stack_delete n s
               else if pat = [] then None
               else
                 Option.bind (those (map (\<lambda>i. int_val (pat ! (i mod length pat))) [0..<m])) (\<lambda>ns.
                   stack_delete n (put_bytes (map ucast ns) s)))))"

subsection \<open>Conditions, errors, labels\<close>

text \<open>\<open>stack_if\<close> pops; any string is true, a type it does not name is false.\<close>

definition if_value :: "obj \<Rightarrow> bool option" where
  "if_value v =
     (if form v \<in> {ByteForm, BoolForm, CharForm, IntForm, SetForm} then
        map_option (\<lambda>n. n \<noteq> 0) (int_val v)
      else if form v = RealForm then (case val v of Real r \<Rightarrow> Some (r \<noteq> 0) | _ \<Rightarrow> None)
      else Some (form v = StringForm))"

definition stack_if :: "asm \<Rightarrow> (bool \<times> asm) option" where
  "stack_if s =
     Option.bind (stack_pop s) (\<lambda>(a, s1). map_option (\<lambda>b. (b, s1)) (if_value (deref s1 a)))"

text \<open>
  The message of \<open>stack_error\<close> is built in a buffer of 132 characters whose bound the code does
  not check; messages are taken to fit.
\<close>

definition stack_error :: "ptr \<Rightarrow> asm \<Rightarrow> asm option" where
  "stack_error v s =
     Option.bind (count_of v s) (\<lambda>n. stack_delete n (if pass s = 0 then as_error s else s))"

text \<open>The condition is popped in the last pass only.\<close>

definition stack_error_if :: "asm \<Rightarrow> asm option" where
  "stack_error_if s =
     (if pass s = 0 then map_option (\<lambda>(b, s1). if b then as_error s1 else s1) (stack_if s) else Some s)"

definition stack_message :: "ptr \<Rightarrow> asm \<Rightarrow> asm option" where
  "stack_message v s = Option.bind (count_of v s) (\<lambda>n. stack_delete n s)"

definition set_label_impl :: "ptr \<Rightarrow> asm \<Rightarrow> asm option" where
  "set_label_impl lb s =
     Option.bind (string_val (deref s lb)) (\<lambda>name.
       Option.bind (scope_find_object name s) (\<lambda>x.
         Option.bind
           (case x of
              Some a \<Rightarrow> Some (a, s)
            | None \<Rightarrow>
                (let (a, s1) = alloc ((object_new Const IntForm)\<lparr>is_global := is_global (deref s lb)\<rparr>) s
                 in map_option (Pair a) (scope_add_object name a s1)))
           (\<lambda>(a, s1).
             let here = codegen_here (gen s1) in
             Some (update a (\<lambda>y. if form y = ProcForm then y\<lparr>oaddr := ucast here\<rparr>
                                 else y\<lparr>val := Num here\<rparr>) s1))))"

definition set_label :: "ptr \<Rightarrow> asm \<Rightarrow> asm option" where
  "set_label lb s =
     (case (is_local (deref s lb), current_label s) of
        (True, Some cl) \<Rightarrow>
          Option.bind (string_val (deref s cl)) (\<lambda>cname.
            Option.bind (scope_get_object cname s) (\<lambda>a.
              map_option scope_pop (set_label_impl lb (scope_push_object a s))))
      | _ \<Rightarrow> set_label_impl lb (s\<lparr>current_label := Some lb\<rparr>))"

text \<open>\<open>scope_begin\<close> looks up the name its object holds; the parser gives the object none.\<close>

definition scope_begin :: "ptr \<Rightarrow> asm \<Rightarrow> asm option" where
  "scope_begin v s =
     Option.bind (string_val (deref s v)) (\<lambda>name.
       Option.bind (scope_get_object name s) (\<lambda>a.
         let s1 = scope_push_object a s in
         Some (update a (\<lambda>y. y\<lparr>oaddr := ucast (codegen_here (gen s1))\<rparr>) s1)))"

definition set_title :: "string \<Rightarrow> asm \<Rightarrow> asm option" where
  "set_title name s = Option.bind (stack_pop s) (\<lambda>(a, s1). as_define_symbol name a s1)"

subsection \<open>The interpreter\<close>

text \<open>
  An operation that neither changes the level of conditional assembly nor calls a macro.
  Operations the C switch leaves empty (\<open>OpConCat\<close>, \<open>OpLong\<close>, \<open>OpFloat\<close>, \<open>OpDouble\<close>) leave
  the state alone.
\<close>

fun exec_op :: "op \<Rightarrow> asm \<Rightarrow> asm option" where
  "exec_op (OpPush a) s = Some (stack_push a s)"
| "exec_op (OpPushVar a) s = stack_push_var a s"
| "exec_op OpPop s = map_option snd (stack_pop s)"
| "exec_op (OpPopVar a) s = stack_pop_var a s"
| "exec_op OpDup s = stack_dup s"
| "exec_op OpAdd s = stack_add s"
| "exec_op OpSub s = stack_sub s"
| "exec_op OpMul s = stack_mul s"
| "exec_op OpDiv s = stack_div s"
| "exec_op OpIDiv s = stack_idiv s"
| "exec_op OpMod s = stack_mod s"
| "exec_op OpAnd s = stack_and s"
| "exec_op OpOr s = stack_or s"
| "exec_op OpNeg s = stack_neg s"
| "exec_op OpNot s = stack_not s"
| "exec_op OpLowByte s = stack_lowbyte s"
| "exec_op OpHighByte s = stack_highbyte s"
| "exec_op OpBankByte s = stack_bankbyte s"
| "exec_op OpEqual s = stack_equal s"
| "exec_op OpNotEqual s = stack_notequal s"
| "exec_op OpGreaterThan s = stack_greaterthan s"
| "exec_op OpGreaterThanEqual s = stack_greaterthanequal s"
| "exec_op OpLessThan s = stack_lessthan s"
| "exec_op OpLessThanEqual s = stack_lessthanequal s"
| "exec_op OpLeftShift s = stack_leftshift s"
| "exec_op OpRightShift s = stack_rightshift s"
| "exec_op (OpEmit i) s = emit_instr i s"
| "exec_op (OpError v) s = stack_error v s"
| "exec_op (OpErrorIf v) s = stack_error_if s"
| "exec_op (OpMessage v) s = stack_message v s"
| "exec_op (OpLabel v) s = set_label v s"
| "exec_op (OpFillByte v) s = stack_fill v s"
| "exec_op (OpFillWord v) s = stack_fill v s"
| "exec_op (OpFillLong v) s = stack_fill v s"
| "exec_op (OpByte v) s = stack_byte v s"
| "exec_op (OpWord v) s = stack_word v s"
| "exec_op (OpText v) s = emit_text v TextPlain s"
| "exec_op (OpTextBit7 v) s = emit_text v TextBit7 s"
| "exec_op (OpTextLen v) s = emit_text v TextLen s"
| "exec_op (OpTextZero v) s = emit_text v TextZero s"
| "exec_op (OpTitle v) s = set_title ''title'' s"
| "exec_op (OpSubheading v) s = set_title ''subheading'' s"
| "exec_op _ s = Some s"

text \<open>
  The state of conditional assembly: the array \<open>exec[16]\<close>, shared with the caller of a macro,
  and the local variables \<open>exec_level\<close> and \<open>last_exec\<close>. Writing past the array is \<open>None\<close>.
\<close>

record cond =
  exec :: "bool list"
  exec_level :: nat
  last_exec :: bool

definition enter :: "bool \<Rightarrow> cond \<Rightarrow> cond option" where
  "enter b c =
     (if exec_level c + 1 < length (exec c)
      then Some (c\<lparr>exec_level := exec_level c + 1, exec := (exec c)[exec_level c + 1 := b]\<rparr>)
      else None)"

definition scope_end :: "cond \<Rightarrow> cond" where
  "scope_end c =
     (if 0 < exec_level c
      then c\<lparr>last_exec := exec c ! exec_level c, exec_level := exec_level c - 1\<rparr> else c)"

definition active :: "cond \<Rightarrow> bool" where
  "active c = exec c ! exec_level c"

text \<open>One operation under conditional assembly, macro calls apart.\<close>

definition with_cond :: "cond option \<Rightarrow> asm \<Rightarrow> (cond \<times> asm) option" where
  "with_cond c s = map_option (\<lambda>c1. (c1, s)) c"

fun exec_cond :: "op \<Rightarrow> cond \<Rightarrow> asm \<Rightarrow> (cond \<times> asm) option" where
  "exec_cond OpIfBegin c s = Option.bind (stack_if s) (\<lambda>(b, s1). with_cond (enter b c) s1)"
| "exec_cond OpElseIfBegin c s = Option.bind (stack_if s) (\<lambda>(b, s1). with_cond (enter b c) s1)"
| "exec_cond OpElseBegin c s = with_cond (enter (\<not> last_exec c) c) s"
| "exec_cond (OpScopeBegin v) c s = Option.bind (scope_begin v s) (with_cond (enter True c))"
| "exec_cond x c s = map_option (Pair c) (exec_op x s)"

definition macro_call :: "op \<Rightarrow> ptr option" where
  "macro_call x = (case x of OpMacroCall v \<Rightarrow> Some v | _ \<Rightarrow> None)"

definition is_list_line :: "op \<Rightarrow> bool" where
  "is_list_line x = (case x of OpListLine v \<Rightarrow> True | _ \<Rightarrow> False)"

text \<open>\<open>depth\<close> bounds the nesting of macro calls; a deeper nesting overflows the C stack.\<close>

function interp_interp :: "nat \<Rightarrow> op list \<Rightarrow> cond \<Rightarrow> asm \<Rightarrow> (cond \<times> asm) option" where
  "interp_interp depth [] c s = Some (c, s)"
| "interp_interp depth (x # xs) c s =
     (if x = OpScopeEnd then interp_interp depth xs (scope_end c) s
      else if is_list_line x then interp_interp depth xs c s
      else if active c then
        Option.bind
          (case macro_call x of
             None \<Rightarrow> exec_cond x c s
           | Some v \<Rightarrow>
               Option.bind (string_val (deref s v)) (\<lambda>name.
                 Option.bind (as_get_macro name s) (\<lambda>m.
                   case m of
                     None \<Rightarrow> Some (c, as_error s)
                   | Some k \<Rightarrow>
                       (case depth of
                          0 \<Rightarrow> None
                        | Suc d \<Rightarrow>
                            map_option (\<lambda>(c1, s1). (c\<lparr>exec := exec c1\<rparr>, scope_pop s1))
                              (interp_interp d (macros s ! k) c s)))))
          (\<lambda>(c1, s1). interp_interp depth xs (c1\<lparr>last_exec := active c1\<rparr>) s1)
      else interp_interp depth xs c s)"
  by pat_completeness auto
termination
  by (relation "measures [\<lambda>(d, xs, c, s). d, \<lambda>(d, xs, c, s). length xs]") auto

declare interp_interp.simps(2) [simp del]

end
