(* ===== verification/Execution.thy ===== *)
theory Execution
  imports Interp Encoding
begin

text \<open>
  What the interpreter's operations do: the array of \<open>as-c/src/interp.c\<close> behaves as a stack, no
  operation leaves a dangling pointer or writes past an array, expressions compute the value
  their operators stand for, and conditional assembly selects what is assembled.
\<close>

subsection \<open>The stack\<close>

text \<open>The interface of a stack, with what repeated pops do.\<close>

locale lifo =
  fixes push :: "'a \<Rightarrow> 's \<Rightarrow> 's"
    and pop :: "'s \<Rightarrow> ('a \<times> 's) option"
    and view :: "'s \<Rightarrow> 'a list"
    and sound :: "'s \<Rightarrow> bool"
  assumes view_push: "sound s \<Longrightarrow> view (push a s) = a # view s"
    and sound_push: "sound s \<Longrightarrow> sound (push a s)"
    and pop_empty: "sound s \<Longrightarrow> view s = [] \<Longrightarrow> pop s = None"
    and pop_cons: "sound s \<Longrightarrow> view s = a # as \<Longrightarrow> \<exists>s1. pop s = Some (a, s1) \<and> view s1 = as \<and> sound s1"
begin

fun pops :: "nat \<Rightarrow> 's \<Rightarrow> 's option" where
  "pops 0 s = Some s"
| "pops (Suc n) s = Option.bind (pop s) (\<lambda>(a, s1). pops n s1)"

lemma pop_iff:
  "sound s \<Longrightarrow> pop s = Some (a, s1) \<Longrightarrow> view s = a # view s1 \<and> sound s1"
  by (cases "view s") (auto simp: pop_empty dest: pop_cons)

lemma pops_view:
  "sound s \<Longrightarrow>
     (if n \<le> length (view s) then \<exists>s1. pops n s = Some s1 \<and> view s1 = drop n (view s) \<and> sound s1
      else pops n s = None)"
proof (induction n arbitrary: s)
  case (Suc n)
  show ?case
  proof (cases "view s")
    case Nil
    with Suc.prems show ?thesis by (simp add: pop_empty)
  next
    case (Cons a as)
    then obtain s1 where s1: "pop s = Some (a, s1)" "view s1 = as" "sound s1"
      using Suc.prems pop_cons by blast
    with Suc.IH [of s1] Cons show ?thesis by (auto split: if_splits)
  qed
qed simp

end

definition stack_ok :: "asm \<Rightarrow> bool" where
  "stack_ok s \<longleftrightarrow>
     vec_ok (stack s) \<and> stack_pointer s \<le> length (items (stack s)) \<and>
     None \<notin> set (take (stack_pointer s) (items (stack s))) \<and>
     (\<forall>i<length (items (stack s)). stack_pointer s \<le> i \<longrightarrow> items (stack s) ! i = None)"

definition stack_view :: "asm \<Rightarrow> ptr list" where
  "stack_view s = rev (map the (take (stack_pointer s) (items (stack s))))"

lemma vec_ok_update: "vec_ok v \<Longrightarrow> length xs = length (items v) \<Longrightarrow> vec_ok (v\<lparr>items := xs\<rparr>)"
  by (simp add: vec_ok_def)

lemma stack_view_push: "stack_ok s \<Longrightarrow> stack_view (stack_push a s) = a # stack_view s"
  by (auto simp: stack_view_def stack_push_def stack_ok_def take_Suc_conv_app_nth Let_def
      list_update_append)

lemma stack_ok_push: "stack_ok s \<Longrightarrow> stack_ok (stack_push a s)"
  by (auto simp: stack_ok_def stack_push_def Let_def vec_ok_list_add vec_ok_update
      take_Suc_conv_app_nth)

lemma stack_pop_empty: "stack_view s = [] \<Longrightarrow> stack_pop s = None"
  by (auto simp: stack_view_def stack_pop_def)

lemma stack_pop_cons:
  assumes "stack_ok s" "stack_view s = a # as"
  shows "\<exists>s1. stack_pop s = Some (a, s1) \<and> stack_view s1 = as \<and> stack_ok s1"
proof -
  let ?xs = "items (stack s)" and ?n = "stack_pointer s - 1"
  have le: "stack_pointer s \<le> length ?xs" using assms(1) by (simp add: stack_ok_def)
  have pos: "0 < stack_pointer s" using assms(2) by (cases "stack_pointer s") (auto simp: stack_view_def)
  then obtain n where n: "stack_pointer s = Suc n" by (cases "stack_pointer s") auto
  have take: "take (Suc n) ?xs = take n ?xs @ [?xs ! n]" using le n by (simp add: take_Suc_conv_app_nth)
  have some: "?xs ! n = Some a" "as = rev (map the (take n ?xs))"
    using assms n take by (auto simp: stack_ok_def stack_view_def)
  then show ?thesis
    using assms n le take
    by (auto simp: stack_pop_def stack_view_def stack_ok_def vec_ok_update nth_list_update)
qed

interpretation opstack: lifo stack_push stack_pop stack_view stack_ok
  by unfold_locales
    (auto simp: stack_view_push stack_ok_push stack_pop_empty intro: stack_pop_cons)

lemma stack_delete_pops: "stack_delete n s = opstack.pops n s"
proof (induction n arbitrary: s)
  case (Suc n)
  then have "stack_delete n = opstack.pops n" by (rule ext)
  then show ?case by simp
qed simp

subsection \<open>No dangling pointers\<close>

text \<open>
  Every pointer of the state is the position of an object of the store (or of a macro), every
  symbol map is sound, and the stack is within its array.
\<close>

definition obj_ok :: "nat \<Rightarrow> nat \<Rightarrow> obj \<Rightarrow> bool" where
  "obj_ok n m x \<longleftrightarrow>
     map_ok (desc x) \<and> (\<forall>k a. map_get (desc x) k = Some a \<longrightarrow> a < n) \<and>
     (\<forall>p. parent x = Some p \<longrightarrow> p < n) \<and> (\<forall>k. val x = MacroPtr k \<longrightarrow> k < m)"

fun op_ptr :: "op \<Rightarrow> ptr option" where
  "op_ptr (OpPush a) = Some a"
| "op_ptr (OpPushVar a) = Some a"
| "op_ptr (OpPopVar a) = Some a"
| "op_ptr (OpScopeBegin a) = Some a"
| "op_ptr (OpError a) = Some a"
| "op_ptr (OpErrorIf a) = Some a"
| "op_ptr (OpMessage a) = Some a"
| "op_ptr (OpLabel a) = Some a"
| "op_ptr (OpFillByte a) = Some a"
| "op_ptr (OpFillWord a) = Some a"
| "op_ptr (OpFillLong a) = Some a"
| "op_ptr (OpByte a) = Some a"
| "op_ptr (OpWord a) = Some a"
| "op_ptr (OpLong a) = Some a"
| "op_ptr (OpFloat a) = Some a"
| "op_ptr (OpDouble a) = Some a"
| "op_ptr (OpText a) = Some a"
| "op_ptr (OpTextBit7 a) = Some a"
| "op_ptr (OpTextLen a) = Some a"
| "op_ptr (OpTextZero a) = Some a"
| "op_ptr (OpListLine a) = Some a"
| "op_ptr (OpMacroCall a) = Some a"
| "op_ptr (OpTitle a) = Some a"
| "op_ptr (OpSubheading a) = Some a"
| "op_ptr _ = None"

definition ops_ok :: "nat \<Rightarrow> op list \<Rightarrow> bool" where
  "ops_ok n xs \<longleftrightarrow> (\<forall>x\<in>set xs. \<forall>a. op_ptr x = Some a \<longrightarrow> a < n)"

definition heap_ok :: "asm \<Rightarrow> bool" where
  "heap_ok s \<longleftrightarrow>
     0 < length (heap s) \<and> scope s < length (heap s) \<and>
     (\<forall>a. current_label s = Some a \<longrightarrow> a < length (heap s)) \<and>
     (\<forall>x\<in>set (heap s). obj_ok (length (heap s)) (length (macros s)) x) \<and>
     (\<forall>xs\<in>set (macros s). ops_ok (length (heap s)) xs)"

definition code_ok :: "cg \<Rightarrow> bool" where
  "code_ok g \<longleftrightarrow> vec_ok (data (sec g))"

definition asm_ok :: "asm \<Rightarrow> bool" where
  "asm_ok s \<longleftrightarrow> heap_ok s \<and> stack_ok s \<and> (\<forall>a\<in>set (stack_view s). a < length (heap s)) \<and>
     code_ok (gen s)"

lemma code_ok_byte: "code_ok g \<Longrightarrow> code_ok (o_byte b g)"
  by (simp add: code_ok_def o_byte_def buf_add_char_list_add vec_ok_list_add)

lemma code_ok_fold: "(\<And>x g. code_ok g \<Longrightarrow> code_ok (f x g)) \<Longrightarrow> code_ok g \<Longrightarrow> code_ok (fold f xs g)"
  by (induction xs arbitrary: g) simp_all

lemma code_ok_gen: "code_ok g \<Longrightarrow> code_ok (codegen_gen i v1 v2 v3 g)"
proof -
  assume "code_ok g"
  then have "code_ok (gen_note i v1 g)" by (simp add: code_ok_def)
  then show ?thesis unfolding codegen_gen_fold by (rule code_ok_fold [rotated]) (rule code_ok_byte)
qed

lemma code_ok_put_byte: "code_ok g \<Longrightarrow> code_ok (put_byte b g)"
  by (simp add: put_byte_def codegen_byte_def code_ok_byte)

lemma code_ok_word: "code_ok g \<Longrightarrow> code_ok (codegen_word w g)"
  by (simp add: codegen_word_def code_ok_byte)

lemma code_ok_settings:
  "code_ok g \<Longrightarrow> code_ok (codegen_addr n g)" "code_ok g \<Longrightarrow> code_ok (codegen_setlonga b g)"
  "code_ok g \<Longrightarrow> code_ok (codegen_setlongi b g)" "code_ok g \<Longrightarrow> code_ok (g\<lparr>e_machine := em\<rparr>)"
  "code_ok g \<Longrightarrow> code_ok (g\<lparr>sec := (sec g)\<lparr>sh_addr := a\<rparr>\<rparr>)"
  by (simp_all add: code_ok_def codegen_addr_def codegen_setlonga_def codegen_setlongi_def)

text \<open>\<open>s\<close> became \<open>t\<close>: still sound, and nothing was removed from the store.\<close>

definition safe :: "asm \<Rightarrow> asm \<Rightarrow> bool" where
  "safe s t \<longleftrightarrow> asm_ok s \<longrightarrow> asm_ok t \<and> length (heap s) \<le> length (heap t)"

named_theorems safes \<open>steps of the interpreter that keep the state sound\<close>

lemma safe_refl [simp, safes]: "safe s s"
  by (simp add: safe_def)

lemma safe_trans: "safe s t \<Longrightarrow> safe t u \<Longrightarrow> safe s u"
  by (auto simp: safe_def)

lemma safe_trans_ok: "safe s t \<Longrightarrow> (asm_ok s \<Longrightarrow> asm_ok t \<Longrightarrow> safe t u) \<Longrightarrow> safe s u"
  by (auto simp: safe_def)

lemma obj_ok_mono: "obj_ok n m x \<Longrightarrow> n \<le> n' \<Longrightarrow> m \<le> m' \<Longrightarrow> obj_ok n' m' x"
  by (fastforce simp: obj_ok_def)

lemma ops_ok_mono: "ops_ok n xs \<Longrightarrow> n \<le> n' \<Longrightarrow> ops_ok n' xs"
  by (fastforce simp: ops_ok_def)

lemma obj_ok_new [simp]: "obj_ok n m (object_new md f)"
  by (simp add: obj_ok_def object_new_def map_ok_Null)

lemma obj_ok_val [simp]: "(\<forall>k. v \<noteq> MacroPtr k) \<Longrightarrow> obj_ok n m x \<Longrightarrow> obj_ok n m (x\<lparr>val := v\<rparr>)"
  by (simp add: obj_ok_def)

lemma obj_ok_int [simp]: "obj_ok n m (int_object k)"
  by (simp add: int_object_def)

lemma obj_ok_fields [simp]:
  "obj_ok n m (x\<lparr>oaddr := a\<rparr>) = obj_ok n m x"
  "obj_ok n m (x\<lparr>level := l\<rparr>) = obj_ok n m x"
  "obj_ok n m (x\<lparr>is_global := b\<rparr>) = obj_ok n m x"
  by (simp_all add: obj_ok_def)

lemma obj_ok_parent [simp]: "p < n \<Longrightarrow> obj_ok n m x \<Longrightarrow> obj_ok n m (x\<lparr>parent := Some p\<rparr>)"
  by (simp add: obj_ok_def)

lemma obj_ok_store [simp]: "a < n \<Longrightarrow> obj_ok n m x \<Longrightarrow> obj_ok n m (x\<lparr>desc := map_set (desc x) k a\<rparr>)"
  by (auto simp: obj_ok_def map_ok_set map_get_set)

lemma obj_ok_set:
  "object_set x y = Some z \<Longrightarrow> obj_ok n m x \<Longrightarrow> obj_ok n m y \<Longrightarrow> obj_ok n m z"
  by (auto simp: object_set_def obj_ok_def Let_def split: if_splits payload.splits)

subsubsection \<open>The steps operations are made of\<close>

lemma asm_ok_heap: "asm_ok s \<Longrightarrow> a < length (heap s) \<Longrightarrow> obj_ok (length (heap s)) (length (macros s)) (deref s a)"
  by (simp add: asm_ok_def heap_ok_def deref_def)

lemma alloc_simps [simp]:
  "fst (alloc x s) = length (heap s)" "heap (snd (alloc x s)) = heap s @ [x]"
  "scope (snd (alloc x s)) = scope s" "macros (snd (alloc x s)) = macros s"
  "stack (snd (alloc x s)) = stack s" "stack_pointer (snd (alloc x s)) = stack_pointer s"
  "current_label (snd (alloc x s)) = current_label s" "gen (snd (alloc x s)) = gen s"
  by (simp_all add: alloc_def)

lemma stack_ok_cong:
  "stack s = stack t \<Longrightarrow> stack_pointer s = stack_pointer t \<Longrightarrow> stack_ok s = stack_ok t"
  by (simp add: stack_ok_def)

lemma stack_view_cong:
  "stack s = stack t \<Longrightarrow> stack_pointer s = stack_pointer t \<Longrightarrow> stack_view s = stack_view t"
  by (simp add: stack_view_def)

lemma safe_alloc:
  assumes "\<And>n m. length (heap s) \<le> n \<Longrightarrow> length (macros s) \<le> m \<Longrightarrow> obj_ok n m x"
  shows "safe s (snd (alloc x s))"
proof -
  have "asm_ok (snd (alloc x s))" if ok: "asm_ok s"
  proof -
    from ok have h: "heap_ok s" by (simp add: asm_ok_def)
    have "heap_ok (snd (alloc x s))"
      using h assms by (auto simp: heap_ok_def intro: obj_ok_mono ops_ok_mono)
    moreover have "stack_ok (snd (alloc x s))" "stack_view (snd (alloc x s)) = stack_view s"
      using ok by (auto simp: asm_ok_def cong: stack_ok_cong stack_view_cong)
    ultimately show ?thesis using ok by (auto simp: asm_ok_def)
  qed
  then show ?thesis by (simp add: safe_def)
qed

lemma safe_update:
  assumes "asm_ok s \<Longrightarrow> a < length (heap s) \<Longrightarrow>
             obj_ok (length (heap s)) (length (macros s)) (f (deref s a))"
  shows "safe s (update a f s)"
proof -
  have "asm_ok (update a f s)" if ok: "asm_ok s"
  proof -
    have "heap_ok (update a f s)"
    proof (cases "a < length (heap s)")
      case True
      have "set ((heap s)[a := f (heap s ! a)]) \<subseteq> insert (f (heap s ! a)) (set (heap s))"
        by (rule set_update_subset_insert)
      with ok assms [OF ok True] show ?thesis by (auto simp: heap_ok_def update_def asm_ok_def deref_def)
    qed (use ok in \<open>simp add: heap_ok_def update_def asm_ok_def list_update_beyond\<close>)
    moreover have "stack_ok (update a f s)" "stack_view (update a f s) = stack_view s"
      using ok by (auto simp: asm_ok_def update_def stack_ok_def stack_view_def)
    ultimately show ?thesis using ok by (auto simp: asm_ok_def update_def)
  qed
  then show ?thesis by (simp add: safe_def update_def)
qed

lemma safe_store:
  "b < length (heap s) \<Longrightarrow> safe s (update a (\<lambda>x. x\<lparr>desc := map_set (desc x) k b\<rparr>) s)"
  by (intro safe_update obj_ok_store asm_ok_heap)

lemma safe_link:
  assumes "p < length (heap s)"
  shows "safe s (update a (\<lambda>x. x\<lparr>parent := Some p, level := l\<rparr>) s)"
proof (rule safe_update)
  assume "asm_ok s" "a < length (heap s)"
  then have "obj_ok (length (heap s)) (length (macros s)) (deref s a)" by (rule asm_ok_heap)
  with assms show "obj_ok (length (heap s)) (length (macros s)) ((deref s a)\<lparr>parent := Some p, level := l\<rparr>)"
    by simp
qed

lemma safe_push:
  assumes "a < length (heap s)" shows "safe s (stack_push a s)"
proof -
  have *: "heap_ok (stack_push a s) = heap_ok s" "heap (stack_push a s) = heap s" "gen (stack_push a s) = gen s"
    by (auto simp: stack_push_def Let_def heap_ok_def)
  show ?thesis
    using assms by (auto simp: safe_def asm_ok_def stack_ok_push stack_view_push *)
qed

lemma stack_pop_keeps: "stack_pop s = Some (a, t) \<Longrightarrow> heap t = heap s \<and> heap_ok t = heap_ok s \<and> gen t = gen s"
  by (auto simp: stack_pop_def heap_ok_def Let_def split: if_splits option.splits)

lemma safe_pop:
  assumes "stack_pop s = Some (a, t)"
  shows "safe s t \<and> (asm_ok s \<longrightarrow> a < length (heap t))"
  using opstack.pop_iff [of s a t] stack_pop_keeps [OF assms] assms
  by (auto simp: safe_def asm_ok_def)

lemma safe_delete: "stack_delete n s = Some t \<Longrightarrow> safe s t"
  by (induction n arbitrary: s) (auto split: bind_splits dest!: safe_pop intro: safe_trans)

text \<open>Changes of the registers and of the code generator.\<close>

lemma safe_fields:
  assumes "heap t = heap s" "scope t = scope s" "macros t = macros s" "stack t = stack s"
    "stack_pointer t = stack_pointer s" "current_label t = current_label s"
    "code_ok (gen s) \<Longrightarrow> code_ok (gen t)"
  shows "safe s t"
  using assms by (auto simp: safe_def asm_ok_def heap_ok_def stack_ok_def stack_view_def)

lemma safe_set_gen: "(\<And>g. code_ok g \<Longrightarrow> code_ok (f g)) \<Longrightarrow> safe s (set_gen f s)"
  by (rule safe_fields) (simp_all add: set_gen_def)

lemma safe_put_bytes [simp, safes]: "safe s (put_bytes bs s)"
  unfolding put_bytes_def by (intro safe_set_gen code_ok_fold code_ok_put_byte)

lemma safe_error [simp, safes]: "safe s (as_error s)"
  by (rule safe_fields) (simp_all add: as_error_def)

lemma safe_scope_push: 
  assumes "a < length (heap s)" shows "safe s (scope_push_object a s)"
  using assms by (auto simp: safe_def scope_push_object_def asm_ok_def heap_ok_def as_error_def
      stack_ok_def stack_view_def)

lemma safe_scope_pop [safes]: "safe s (scope_pop s)"
proof (cases "parent (deref s (scope s))")
  case (Some p)
  have "p < length (heap s)" if "asm_ok s"
    using that Some asm_ok_heap [OF that, of "scope s"] by (auto simp: asm_ok_def heap_ok_def obj_ok_def)
  with Some show ?thesis
    by (auto simp: safe_def scope_pop_def asm_ok_def heap_ok_def stack_ok_def stack_view_def)
qed (simp add: scope_pop_def)

lemma map_get_ok:
  assumes "asm_ok s" "a < length (heap s)" "map_get (desc (deref s a)) k = Some b"
  shows "b < length (heap s)"
  using asm_ok_heap [OF assms(1,2)] assms(3) by (auto simp: obj_ok_def)

lemma climb_ok:
  "climb n s a k = Some (Some b) \<Longrightarrow> asm_ok s \<Longrightarrow> a < length (heap s) \<Longrightarrow> b < length (heap s)"
proof (induction n s a k rule: climb.induct)
  case (2 n s a k)
  have "p < length (heap s)" if "parent (deref s a) = Some p" for p
    using that asm_ok_heap [OF 2(3,4)] by (auto simp: obj_ok_def)
  with 2 show ?case by (auto split: option.splits dest: map_get_ok)
qed simp

lemma scope_ok: "asm_ok s \<Longrightarrow> scope s < length (heap s)"
  by (simp add: asm_ok_def heap_ok_def)

lemma find_ok: "scope_find_object k s = Some (Some b) \<Longrightarrow> asm_ok s \<Longrightarrow> b < length (heap s)"
  unfolding scope_find_object_def Let_def
  by (erule climb_ok) (auto split: option.split dest: map_get_ok scope_ok)

lemma safe_asm_ok: "safe s t \<Longrightarrow> asm_ok s \<Longrightarrow> asm_ok t"
  by (simp add: safe_def)

lemma safe_less: "safe s t \<Longrightarrow> asm_ok s \<Longrightarrow> a < length (heap s) \<Longrightarrow> a < length (heap t)"
  by (auto simp: safe_def)

text \<open>The map of local names is made on first use and linked under its scope.\<close>

definition local_scope :: "asm \<Rightarrow> ptr \<times> asm" where
  "local_scope s =
     (case map_get (desc (deref s (scope s))) ''.'' of
        Some l \<Rightarrow> (l, s)
      | None \<Rightarrow>
          (let (l, s1) = alloc (object_new Const MapForm) s;
               s2 = update (scope s) (\<lambda>x. x\<lparr>desc := map_set (desc x) ''.'' l\<rparr>) s1
           in (l, update l (\<lambda>x. x\<lparr>parent := Some (scope s), level := current_level s\<rparr>) s2)))"

lemma update_simps [simp]:
  "length (heap (update a f s)) = length (heap s)" "scope (update a f s) = scope s"
  "current_level (update a f s) = current_level s"
  by (simp_all add: update_def)

lemma local_scope_ok:
  assumes "asm_ok s"
  shows "safe s (snd (local_scope s)) \<and> fst (local_scope s) < length (heap (snd (local_scope s)))"
proof (cases "map_get (desc (deref s (scope s))) ''.''")
  case None
  let ?s1 = "snd (alloc (object_new Const MapForm) s)" and ?l = "length (heap s)"
  let ?s2 = "update (scope s) (\<lambda>x. x\<lparr>desc := map_set (desc x) ''.'' ?l\<rparr>) ?s1"
  let ?s3 = "update ?l (\<lambda>x. x\<lparr>parent := Some (scope s), level := current_level s\<rparr>) ?s2"
  have s1: "safe s ?s1" by (rule safe_alloc) simp
  have s2: "safe ?s1 ?s2" by (rule safe_store) simp
  have "scope s < length (heap s)" using assms by (rule scope_ok)
  then have s3: "safe ?s2 ?s3" by (intro safe_link) simp
  have "local_scope s = (?l, ?s3)"
    by (simp add: local_scope_def None alloc_def Let_def)
  with s1 s2 s3 show ?thesis by (auto intro: safe_trans)
qed (use assms in \<open>auto simp: local_scope_def intro: map_get_ok scope_ok\<close>)

lemma safe_add_object:
  assumes "scope_add_object k a s = Some t" "a < length (heap s)"
  shows "safe s t"
proof (cases "asm_ok s")
  case True
  show ?thesis
  proof (cases "is_local (deref s a)")
    case loc: True
    obtain l s1 where ls: "local_scope s = (l, s1)" by (cases "local_scope s")
    have l: "safe s s1" "l < length (heap s1)" using local_scope_ok [OF True] ls by auto
    have a: "a < length (heap s1)" using l(1) True assms(2) by (rule safe_less)
    let ?s2 = "update l (\<lambda>x. x\<lparr>desc := map_set (desc x) k a\<rparr>) s1"
    have s2: "safe s1 ?s2" using a by (rule safe_store)
    have "safe ?s2 (update a (\<lambda>x. x\<lparr>parent := Some l, level := current_level s + 1\<rparr>) ?s2)"
      using l by (intro safe_link) simp
    then have "safe ?s2 t"
      using assms(1) loc ls by (simp add: scope_add_object_def local_scope_def Let_def)
    with l s2 show ?thesis by (auto intro: safe_trans)
  next
    case False
    then obtain s1 where s1:
      "(case map_get (desc (deref s (scope s))) k of
          None \<Rightarrow> Some (update (scope s) (\<lambda>x. x\<lparr>desc := map_set (desc x) k a\<rparr>) s)
        | Some b \<Rightarrow> map_option (\<lambda>y. update b (\<lambda>_. y) s) (object_set (deref s b) (deref s a))) = Some s1"
      and t: "t = update a (\<lambda>x. x\<lparr>parent := Some (scope s), level := current_level s\<rparr>) s1"
      using assms(1) by (auto simp: scope_add_object_def bind_eq_Some_conv)
    have *: "safe s s1 \<and> length (heap s1) = length (heap s)"
      using s1 True assms(2)
      by (auto split: option.splits intro!: safe_update obj_ok_store intro: obj_ok_set asm_ok_heap)
    have "safe s1 t" unfolding t using * True
      by (intro safe_link) (simp add: scope_ok)
    with * show ?thesis by (auto intro: safe_trans)
  qed
qed (simp add: safe_def)

lemma safe_define:
  assumes "as_define_symbol k a s = Some t" "a < length (heap s)"
  shows "safe s t"
  using assms(1)
  by (auto simp: as_define_symbol_def Let_def set_org_def split: if_splits payload.splits
      intro!: safes safe_set_gen code_ok_settings intro: safe_fields safe_add_object [OF _ assms(2)])

lemma safe_found:
  "found (alloc x s) = Some (p, t) \<Longrightarrow> (\<And>n m. obj_ok n m x) \<Longrightarrow>
     safe s t \<and> (\<forall>a. p = Some a \<longrightarrow> a < length (heap t))"
  using safe_alloc [of s x] by (auto simp: found_def alloc_def)

lemma safe_get_symbol:
  assumes "as_get_symbol k s = Some (p, t)"
  shows "safe s t \<and> (asm_ok s \<longrightarrow> (\<forall>a. p = Some a \<longrightarrow> a < length (heap t)))"
proof -
  have "obj_ok n m ((object_new Const StringForm)\<lparr>val := Str x\<rparr>)" for n m x by simp
  then show ?thesis
    using assms unfolding as_get_symbol_def make_value_str_def make_value_int_def
    by (auto split: if_splits bind_splits dest!: safe_found dest: find_ok)
qed

subsubsection \<open>The operations\<close>

lemma safe_push_new:
  assumes "\<And>n m. obj_ok n m x" shows "safe s (push_new x s)"
proof -
  have "safe (snd (alloc x s)) (stack_push (length (heap s)) (snd (alloc x s)))"
    by (rule safe_push) simp
  with safe_alloc [of s x] assms show ?thesis by (auto simp: push_new_def alloc_def intro: safe_trans)
qed

lemma safe_op1:
  assumes "stack_op1 f s = Some t" "\<And>x y n m. f x = Some y \<Longrightarrow> obj_ok n m y"
  shows "safe s t"
proof -
  obtain l s1 y where "stack_pop s = Some (l, s1)" and y: "f (deref s1 l) = Some y" "t = push_new y s1"
    using assms(1) by (auto simp: stack_op1_def bind_eq_Some_conv)
  then have "safe s s1" "safe s1 t"
    using assms(2) by (auto dest: safe_pop intro: safe_push_new)
  then show ?thesis by (rule safe_trans)
qed

lemma safe_op2:
  assumes "stack_op2 f s = Some t" "\<And>x z y n m. f x z = Some y \<Longrightarrow> obj_ok n m y"
  shows "safe s t"
proof -
  obtain r s1 l s2 y where "stack_pop s = Some (r, s1)" "stack_pop s1 = Some (l, s2)"
    and y: "f (deref s2 l) (deref s2 r) = Some y" "t = push_new y s2"
    using assms(1) by (auto simp: stack_op2_def bind_eq_Some_conv)
  then have "safe s s1" "safe s1 s2" "safe s2 t"
    using assms(2) by (auto dest: safe_pop intro: safe_push_new)
  then show ?thesis by (blast intro: safe_trans)
qed

lemma object_ops_ok:
  "lift1 g x = Some y \<Longrightarrow> obj_ok n m y"
  "lift2 h x z = Some y \<Longrightarrow> obj_ok n m y"
  "object_equal x z = Some y \<Longrightarrow> obj_ok n m y"
  by (auto simp: lift1_def lift2_def object_equal_def bind_eq_Some_conv split: if_splits payload.splits)

lemmas stack_op_defs =
  stack_add_def stack_sub_def stack_mul_def stack_div_def stack_idiv_def stack_mod_def
  stack_and_def stack_or_def stack_neg_def stack_not_def stack_lowbyte_def stack_highbyte_def
  stack_bankbyte_def stack_equal_def stack_notequal_def stack_greaterthan_def
  stack_greaterthanequal_def stack_lessthan_def stack_lessthanequal_def stack_leftshift_def
  stack_rightshift_def

lemma safe_stack_ops:
  "stack_add s = Some t \<Longrightarrow> safe s t" "stack_sub s = Some t \<Longrightarrow> safe s t"
  "stack_mul s = Some t \<Longrightarrow> safe s t" "stack_div s = Some t \<Longrightarrow> safe s t"
  "stack_idiv s = Some t \<Longrightarrow> safe s t" "stack_mod s = Some t \<Longrightarrow> safe s t"
  "stack_and s = Some t \<Longrightarrow> safe s t" "stack_or s = Some t \<Longrightarrow> safe s t"
  "stack_neg s = Some t \<Longrightarrow> safe s t" "stack_not s = Some t \<Longrightarrow> safe s t"
  "stack_lowbyte s = Some t \<Longrightarrow> safe s t" "stack_highbyte s = Some t \<Longrightarrow> safe s t"
  "stack_bankbyte s = Some t \<Longrightarrow> safe s t" "stack_equal s = Some t \<Longrightarrow> safe s t"
  "stack_notequal s = Some t \<Longrightarrow> safe s t" "stack_greaterthan s = Some t \<Longrightarrow> safe s t"
  "stack_greaterthanequal s = Some t \<Longrightarrow> safe s t" "stack_lessthan s = Some t \<Longrightarrow> safe s t"
  "stack_lessthanequal s = Some t \<Longrightarrow> safe s t" "stack_leftshift s = Some t \<Longrightarrow> safe s t"
  "stack_rightshift s = Some t \<Longrightarrow> safe s t"
  unfolding stack_op_defs object_ops
  by ((erule safe_op1 | erule safe_op2), erule object_ops_ok)+

lemma walk_ok:
  "asm_ok s \<Longrightarrow> walk_members v ts s = Some a \<Longrightarrow> (\<forall>b. v = Some b \<longrightarrow> b < length (heap s)) \<Longrightarrow>
     a < length (heap s)"
  by (induction v ts s rule: walk_members.induct) (auto dest: map_get_ok)

lemma safe_push_found:
  assumes "asm_ok s \<longrightarrow> (\<forall>a. v = Some a \<longrightarrow> a < length (heap s))"
  shows "safe s (push_found v s)"
proof (cases "asm_ok s")
  case True
  then have "0 < length (heap s)" by (simp add: asm_ok_def heap_ok_def)
  with True assms show ?thesis
    by (auto simp: push_found_def objectZero_def split: option.split intro!: safe_push)
qed (simp add: safe_def)

lemma safe_push_var:
  assumes "stack_push_var lb s = Some t" shows "safe s t"
proof -
  have member: "safe s (push_found (map_get (desc (deref s1 a)) name) s1)"
    if "as_get_symbol k s = Some (Some a, s1)" for k s1 a name
    using safe_get_symbol [OF that]
    by (auto intro!: safe_trans_ok [of s s1, OF _ safe_push_found] intro: map_get_ok)
  have path: "safe s (push_found (walk_members v ts s1) s1)"
    if "as_get_symbol k s = Some (v, s1)" for k s1 v ts
    using safe_get_symbol [OF that]
    by (auto intro!: safe_trans_ok [of s s1, OF _ safe_push_found] intro: walk_ok)
  show ?thesis
    using assms member path
    by (auto simp: stack_push_var_def Let_def bind_eq_Some_conv split: bool.splits option.splits list.splits)
qed

lemma safe_pop_var:
  assumes "stack_pop_var v s = Some t" shows "safe s t"
proof -
  obtain name a s1 where s1: "stack_pop s = Some (a, s1)" and t: "as_define_symbol name a s1 = Some t"
    using assms by (auto simp: stack_pop_var_def bind_eq_Some_conv)
  from safe_pop [OF s1] show ?thesis by (auto intro: safe_trans_ok safe_define [OF t])
qed

lemma safe_title:
  assumes "set_title k s = Some t" shows "safe s t"
proof -
  obtain a s1 where s1: "stack_pop s = Some (a, s1)" and t: "as_define_symbol k a s1 = Some t"
    using assms by (auto simp: set_title_def bind_eq_Some_conv)
  from safe_pop [OF s1] show ?thesis by (auto intro: safe_trans_ok safe_define [OF t])
qed

lemma safe_pop_operand: "pop_operand w f s = Some (n, t) \<Longrightarrow> safe s t"
  by (auto simp: pop_operand_def bind_eq_Some_conv split: if_splits dest: safe_pop)

lemma safe_emit_instr: "emit_instr i s = Some t \<Longrightarrow> safe s t"
  by (auto simp: emit_instr_def Let_def bind_eq_Some_conv dest!: safe_pop_operand
      intro: safe_trans [OF _ safe_set_gen] code_ok_gen safe_trans)

lemma safe_errors [simp, safes]: "safe s (s\<lparr>error_count := n\<rparr>)"
  by (rule safe_fields) simp_all

lemma safe_emit_text: "emit_text v k s = Some t \<Longrightarrow> safe s t"
  by (auto simp: emit_text_def Let_def bind_eq_Some_conv dest!: safe_delete
      intro: safe_trans [OF safe_errors] safe_trans [OF safe_put_bytes])

lemma safe_words: "safe s (set_gen (fold (\<lambda>w g. codegen_word (ucast w) g) ns) s)"
  by (intro safe_set_gen code_ok_fold code_ok_word)

lemma safe_data:
  "stack_byte v s = Some t \<Longrightarrow> safe s t"
  "stack_word v s = Some t \<Longrightarrow> safe s t"
  "stack_error v s = Some t \<Longrightarrow> safe s t"
  "stack_message v s = Some t \<Longrightarrow> safe s t"
  by (auto simp: stack_byte_def stack_word_def stack_error_def stack_message_def
      bind_eq_Some_conv split: if_splits dest!: safe_delete
      intro: safe_trans [OF safe_words] safe_trans [OF safe_put_bytes] safe_trans [OF safe_error])

lemma safe_fill:
  assumes "stack_fill v s = Some t" shows "safe s t"
proof -
  obtain n x pat m where *: "stack_delete n s = Some t \<or>
      Option.bind (those (map (\<lambda>i. int_val (pat ! (i mod length pat))) [0..<m]))
        (\<lambda>ns. stack_delete n (put_bytes (map ucast ns) s)) = Some t"
    using assms unfolding stack_fill_def bind_eq_Some_conv Let_def
    by (fastforce split: list.split_asm if_split_asm simp: bind_eq_Some_conv)
  from * show ?thesis
    by (auto simp: bind_eq_Some_conv dest!: safe_delete intro: safe_trans [OF safe_put_bytes])
qed

lemma safe_if: "stack_if s = Some (b, t) \<Longrightarrow> safe s t"
  by (auto simp: stack_if_def bind_eq_Some_conv dest: safe_pop)

lemma safe_error_if: "stack_error_if s = Some t \<Longrightarrow> safe s t"
  by (auto simp: stack_error_if_def split: if_splits dest!: safe_if intro: safe_trans [OF _ safe_error])

lemma safe_label_impl:
  assumes "set_label_impl lb s = Some t" shows "safe s t"
proof -
  obtain name x a s1 where x: "scope_find_object name s = Some x"
    and a: "(case x of Some a \<Rightarrow> Some (a, s)
             | None \<Rightarrow> (let (a, s1) = alloc ((object_new Const IntForm)\<lparr>is_global := is_global (deref s lb)\<rparr>) s
                        in map_option (Pair a) (scope_add_object name a s1))) = Some (a, s1)"
    and t: "t = update a (\<lambda>y. if form y = ProcForm then y\<lparr>oaddr := ucast (codegen_here (gen s1))\<rparr>
                                else y\<lparr>val := Num (codegen_here (gen s1))\<rparr>) s1"
    using assms by (auto simp: set_label_impl_def bind_eq_Some_conv Let_def)
  have "safe s s1"
  proof (cases x)
    case None
    let ?s = "snd (alloc ((object_new Const IntForm)\<lparr>is_global := is_global (deref s lb)\<rparr>) s)"
    have "safe s ?s" by (rule safe_alloc) simp
    moreover have "safe ?s s1"
      using a None by (intro safe_add_object [of name "length (heap s)"]) (auto simp: alloc_def)
    ultimately show ?thesis by (rule safe_trans)
  qed (use a in simp)
  moreover have "safe s1 t"
    unfolding t by (rule safe_update) (simp add: asm_ok_heap)
  ultimately show ?thesis by (rule safe_trans)
qed

lemma safe_enter: "scope_get_object k s = Some a \<Longrightarrow> safe s (scope_push_object a s)"
  using map_get_ok [of s "scope s" k a] safe_scope_push [of a s]
  by (cases "asm_ok s") (simp_all add: scope_get_object_def scope_ok safe_def)

lemma safe_label:
  assumes "set_label lb s = Some t" "lb < length (heap s)"
  shows "safe s t"
proof -
  have top: "safe s u" if "set_label_impl lb (s\<lparr>current_label := Some lb\<rparr>) = Some u" for u
  proof -
    have "safe s (s\<lparr>current_label := Some lb\<rparr>)"
      using assms(2) by (auto simp: safe_def asm_ok_def heap_ok_def stack_ok_def stack_view_def)
    with safe_label_impl [OF that] show ?thesis by (blast intro: safe_trans)
  qed
  have loc: "safe s (scope_pop u)"
    if "scope_get_object k s = Some a" "set_label_impl lb (scope_push_object a s) = Some u" for k a u
    using safe_enter [OF that(1)] safe_label_impl [OF that(2)] safe_scope_pop [of u]
    by (blast intro: safe_trans)
  show ?thesis
    using assms(1) top loc
    by (auto simp: set_label_def bind_eq_Some_conv split: bool.splits option.splits)
qed

lemma safe_scope_begin:
  assumes "scope_begin v s = Some t" shows "safe s t"
proof -
  obtain k a where a: "scope_get_object k s = Some a"
    and t: "t = update a (\<lambda>y. y\<lparr>oaddr := ucast (codegen_here (gen (scope_push_object a s)))\<rparr>) (scope_push_object a s)"
    using assms by (auto simp: scope_begin_def Let_def bind_eq_Some_conv)
  have "safe (scope_push_object a s) t"
    unfolding t by (rule safe_update) (simp add: asm_ok_heap)
  with safe_enter [OF a] show ?thesis by (rule safe_trans)
qed

lemma stack_dup_fails: "stack_ok s \<Longrightarrow> stack_dup s = None"
  by (simp add: stack_dup_def stack_top_def stack_ok_def)

lemma safe_exec_op:
  assumes "exec_op x s = Some t" "ops_ok (length (heap s)) [x]" "asm_ok s"
  shows "safe s t"
  using assms
  by (cases x)
    (auto simp: ops_ok_def asm_ok_def stack_dup_fails
      intro: safe_push safe_push_var safe_pop_var safe_stack_ops safe_emit_instr safe_data safe_fill
        safe_error_if safe_label safe_emit_text safe_title dest: safe_pop)

definition cond_ok :: "cond \<Rightarrow> bool" where
  "cond_ok c \<longleftrightarrow> exec_level c < length (exec c)"

definition branching :: "op \<Rightarrow> bool" where
  "branching x \<longleftrightarrow> x = OpIfBegin \<or> x = OpElseIfBegin \<or> x = OpElseBegin \<or> (\<exists>v. x = OpScopeBegin v)"

lemma exec_cond_plain: "\<not> branching x \<Longrightarrow> exec_cond x c s = map_option (Pair c) (exec_op x s)"
  by (cases x) (simp_all add: branching_def)

lemma enter_ok: "enter b c = Some c1 \<Longrightarrow> cond_ok c1 \<and> length (exec c1) = length (exec c)"
  by (auto simp: enter_def cond_ok_def split: if_splits)

lemma safe_exec_cond:
  assumes "exec_cond x c s = Some (c1, t)" "ops_ok (length (heap s)) [x]" "asm_ok s" "cond_ok c"
  shows "safe s t \<and> cond_ok c1 \<and> length (exec c1) = length (exec c)"
proof (cases "branching x")
  case True
  with assms(1) show ?thesis
    by (auto simp: branching_def with_cond_def bind_eq_Some_conv dest!: enter_ok
        intro: safe_if safe_scope_begin)
next
  case False
  with assms show ?thesis by (auto simp: exec_cond_plain intro: safe_exec_op)
qed

lemma macro_ok:
  assumes "as_get_macro k s = Some (Some i)" "asm_ok s"
  shows "ops_ok (length (heap s)) (macros s ! i)"
proof -
  obtain f where f: "scope_find_object k s = Some f"
    and i: "(case f of
        Some a \<Rightarrow> (if omode (deref s a) = Macro
                   then (case val (deref s a) of MacroPtr m \<Rightarrow> Some m | _ \<Rightarrow> None) else None)
      | None \<Rightarrow> None) = Some i"
    using assms(1) by (auto simp: as_get_macro_def)
  then obtain a where fa: "f = Some a" by (cases f) simp_all
  with i have "val (deref s a) = MacroPtr i"
    by (cases "val (deref s a)") (simp_all split: if_splits)
  with f fa have a: "scope_find_object k s = Some (Some a)" "val (deref s a) = MacroPtr i" by simp_all
  from asm_ok_heap [OF assms(2) find_ok [OF a(1) assms(2)]] a(2)
  have "i < length (macros s)" by (simp add: obj_ok_def)
  with assms(2) show ?thesis by (simp add: asm_ok_def heap_ok_def)
qed

text \<open>The guarded execution of an operation that is neither a scope end nor a line of listing.\<close>

definition call_or_exec :: "nat \<Rightarrow> op \<Rightarrow> cond \<Rightarrow> asm \<Rightarrow> (cond \<times> asm) option" where
  "call_or_exec depth x c s =
     (case macro_call x of
        None \<Rightarrow> exec_cond x c s
      | Some v \<Rightarrow>
          Option.bind (string_val (deref s v)) (\<lambda>name.
            Option.bind (as_get_macro name s) (\<lambda>m.
              case m of
                None \<Rightarrow> Some (c, as_error s)
              | Some k \<Rightarrow>
                  (case depth of
                     0 \<Rightarrow> None
                   | Suc d \<Rightarrow>
                       map_option (\<lambda>(c1, s1). (c\<lparr>exec := exec c1\<rparr>, scope_pop s1))
                         (interp_interp d (macros s ! k) c s)))))"

lemma interp_Cons:
  "interp_interp depth (x # xs) c s =
     (if x = OpScopeEnd then interp_interp depth xs (scope_end c) s
      else if is_list_line x then interp_interp depth xs c s
      else if active c then
        Option.bind (call_or_exec depth x c s)
          (\<lambda>(c1, s1). interp_interp depth xs (c1\<lparr>last_exec := active c1\<rparr>) s1)
      else interp_interp depth xs c s)"
  by (simp add: interp_interp.simps(2) call_or_exec_def)

lemma cond_ok_scope_end: "cond_ok c \<Longrightarrow> cond_ok (scope_end c) \<and> length (exec (scope_end c)) = length (exec c)"
  by (auto simp: cond_ok_def scope_end_def)

lemma cond_ok_last [simp]: "cond_ok (c\<lparr>last_exec := b\<rparr>) = cond_ok c"
  by (simp add: cond_ok_def)

lemma ops_ok_Cons: "ops_ok n (x # xs) \<longleftrightarrow> ops_ok n [x] \<and> ops_ok n xs"
  by (auto simp: ops_ok_def)

definition runs_safely :: "nat \<Rightarrow> op list \<Rightarrow> bool" where
  "runs_safely d xs \<longleftrightarrow>
     (\<forall>c s c' t. interp_interp d xs c s = Some (c', t) \<longrightarrow> asm_ok s \<longrightarrow> ops_ok (length (heap s)) xs \<longrightarrow>
        cond_ok c \<longrightarrow> safe s t \<and> cond_ok c' \<and> length (exec c') = length (exec c))"

lemma safe_call_or_exec:
  assumes "call_or_exec d x c s = Some (c1, t)" "ops_ok (length (heap s)) [x]" "asm_ok s" "cond_ok c"
    and macros: "\<And>e xs. d = Suc e \<Longrightarrow> runs_safely e xs"
  shows "safe s t \<and> cond_ok c1 \<and> length (exec c1) = length (exec c)"
proof (cases "macro_call x")
  case None
  with assms show ?thesis by (simp add: call_or_exec_def safe_exec_cond)
next
  case (Some v)
  then obtain name m where m: "as_get_macro name s = Some m"
    and res: "(case m of None \<Rightarrow> Some (c, as_error s)
       | Some k \<Rightarrow> (case d of 0 \<Rightarrow> None | Suc d \<Rightarrow>
           map_option (\<lambda>(c1, s1). (c\<lparr>exec := exec c1\<rparr>, scope_pop s1))
             (interp_interp d (macros s ! k) c s))) = Some (c1, t)"
    using assms(1) by (auto simp: call_or_exec_def bind_eq_Some_conv)
  show ?thesis
  proof (cases m)
    case None
    with res assms(4) show ?thesis by auto
  next
    case (Some k)
    with res obtain e c2 s2 where d: "d = Suc e"
      and run: "interp_interp e (macros s ! k) c s = Some (c2, s2)"
      and c1: "c1 = c\<lparr>exec := exec c2\<rparr>" "t = scope_pop s2"
      by (auto split: nat.splits)
    have "safe s s2 \<and> cond_ok c2 \<and> length (exec c2) = length (exec c)"
      using macros [OF d, of "macros s ! k"] run assms(3,4) macro_ok [OF _ assms(3)] m Some
      unfolding runs_safely_def by blast
    with assms(4) c1 show ?thesis
      by (auto simp: cond_ok_def intro: safe_trans [OF _ safe_scope_pop])
  qed
qed

lemma runs_safely: "runs_safely d xs"
proof (induction d arbitrary: xs rule: less_induct)
  case (less d)
  note macros = this
  show ?case
  proof (induction xs)
    case (Cons x xs)
    have "safe s t \<and> cond_ok c' \<and> length (exec c') = length (exec c)"
      if run: "interp_interp d (x # xs) c s = Some (c', t)" and ok: "asm_ok s" "cond_ok c"
        and ops: "ops_ok (length (heap s)) (x # xs)" for c s c' t
    proof (cases "x \<noteq> OpScopeEnd \<and> \<not> is_list_line x \<and> active c")
      case True
      then obtain c1 s1 where step: "call_or_exec d x c s = Some (c1, s1)"
        and rest: "interp_interp d xs (c1\<lparr>last_exec := active c1\<rparr>) s1 = Some (c', t)"
        using run by (auto simp: interp_Cons bind_eq_Some_conv)
      have one: "safe s s1 \<and> cond_ok c1 \<and> length (exec c1) = length (exec c)"
        using safe_call_or_exec [OF step] ops ok macros by (simp add: ops_ok_Cons [of _ x xs])
      moreover have "ops_ok (length (heap s1)) xs"
        using one ok ops by (auto simp: safe_def ops_ok_Cons [of _ x xs] intro: ops_ok_mono)
      moreover from one ok have "asm_ok s1" by (simp add: safe_def)
      ultimately have "safe s1 t \<and> cond_ok c' \<and> length (exec c') = length (exec c1)"
        using Cons.IH rest unfolding runs_safely_def by fastforce
      with one show ?thesis by (auto intro: safe_trans)
    next
      case False
      then obtain c1 where rest: "interp_interp d xs c1 s = Some (c', t)"
        and "c1 = c \<or> c1 = scope_end c"
        using run by (auto simp: interp_Cons split: if_splits)
      with cond_ok_scope_end [OF ok(2)] ok(2) have "cond_ok c1 \<and> length (exec c1) = length (exec c)"
        by auto
      moreover have "ops_ok (length (heap s)) xs" using ops by (simp add: ops_ok_Cons [of _ x xs])
      ultimately show ?thesis
        using Cons.IH rest ok(1) unfolding runs_safely_def by fastforce
    qed
    then show ?case by (simp add: runs_safely_def)
  qed (simp add: runs_safely_def)
qed


text \<open>The state \<open>value_init\<close> and \<open>as_init\<close> set up, with the code generator at a section's start.\<close>

definition as_init :: "cg \<Rightarrow> asm" where
  "as_init g =
     \<lparr>heap = [int_object 0, object_new Const NoTypeForm], scope = 1, current_level = 0,
      current_label = None, stack = vec_empty, stack_pointer = 0, gen = g, pc = 0, dbreg = 0,
      dpage = 0, pbreg = 0, e_entry = 0, pass = 0, cur_file = None, error_count = 0, macros = []\<rparr>"

lemma asm_ok_init: "code_ok g \<Longrightarrow> asm_ok (as_init g)"
  by (simp add: asm_ok_def as_init_def heap_ok_def stack_ok_def stack_view_def vec_ok_empty)
    (simp add: vec_empty_def)

definition start_cond :: cond where
  "start_cond = \<lparr>exec = True # replicate 15 False, exec_level = 0, last_exec = True\<rparr>"

definition with_objects :: "obj list \<Rightarrow> asm \<Rightarrow> asm" where
  "with_objects xs s = s\<lparr>heap := heap s @ xs\<rparr>"

definition demo_asm :: asm where
  "demo_asm = with_objects
     [(object_new Const StringForm)\<lparr>val := Str ''x''\<rparr>, int_object 5, int_object 7, int_object 0]
     (as_init (demo EM_816))"

lemma asm_ok_demo: "asm_ok demo_asm"
proof -
  have "asm_ok (as_init (demo EM_816))"
    by (rule asm_ok_init) (simp add: code_ok_def demo_def demo_section_def vec_ok_empty)
  then show ?thesis
    by (auto simp: asm_ok_def demo_asm_def with_objects_def as_init_def heap_ok_def stack_ok_def
        stack_view_def)
qed


end
