(* ===== verification/Conditional.thy ===== *)
theory Conditional
  imports Execution
begin

text \<open>
  Conditional assembly: what \<open>interp_interp\<close> runs of the operations the parser emits for
  \<open>if c1 { b1 } else if c2 { b2 } ... else { b }\<close>.
\<close>

subsection \<open>Straight-line operations\<close>

definition plain :: "op list \<Rightarrow> bool" where
  "plain xs \<longleftrightarrow> (\<forall>x\<in>set xs. \<not> branching x \<and> x \<noteq> OpScopeEnd \<and> macro_call x = None)"

fun run_ops :: "op list \<Rightarrow> asm \<Rightarrow> asm option" where
  "run_ops [] s = Some s"
| "run_ops (x # xs) s = Option.bind (exec_op x s) (run_ops xs)"

lemma run_ops_append: "run_ops (xs @ ys) s = Option.bind (run_ops xs s) (run_ops ys)"
proof (induction xs arbitrary: s)
  case (Cons x xs)
  then show ?case by (cases "exec_op x s") simp_all
qed simp

lemma interp_append:
  "interp_interp d (xs @ ys) c s =
     Option.bind (interp_interp d xs c s) (\<lambda>(c1, s1). interp_interp d ys c1 s1)"
proof (induction xs arbitrary: c s)
  case (Cons x xs)
  then have "(\<lambda>c. interp_interp d (xs @ ys) c) =
     (\<lambda>c s. Option.bind (interp_interp d xs c s) (\<lambda>(c1, s1). interp_interp d ys c1 s1))"
    by (simp add: fun_eq_iff)
  then show ?case
    by (auto simp: interp_Cons split: prod.split option.split intro!: bind_option_cong)
qed simp

lemma exec_op_list_line: "is_list_line x \<Longrightarrow> exec_op x s = Some s"
  by (cases x) (simp_all add: is_list_line_def)

text \<open>Where nothing is to be assembled, straight-line operations are skipped.\<close>

lemma interp_skip: "\<not> active c \<Longrightarrow> plain xs \<Longrightarrow> interp_interp d xs c s = Some (c, s)"
  by (induction xs) (auto simp: interp_Cons plain_def)

lemma interp_skip_append:
  "\<not> active c \<Longrightarrow> plain xs \<Longrightarrow> interp_interp d (xs @ ys) c s = interp_interp d ys c s"
  by (simp add: interp_append interp_skip)

text \<open>Where it is, each is executed; \<open>last_exec\<close> is set by the first that is not a listing line.\<close>

definition ran :: "op list \<Rightarrow> cond \<Rightarrow> cond" where
  "ran xs c = c\<lparr>last_exec := last_exec c \<or> (\<exists>x\<in>set xs. \<not> is_list_line x)\<rparr>"

lemma ran_simps [simp]:
  "active (ran xs c) = active c" "exec (ran xs c) = exec c" "exec_level (ran xs c) = exec_level c"
  by (simp_all add: ran_def active_def)

lemma interp_plain:
  "active c \<Longrightarrow> plain xs \<Longrightarrow> interp_interp d xs c s = map_option (Pair (ran xs c)) (run_ops xs s)"
proof (induction xs arbitrary: c s)
  case (Cons x xs)
  have xs: "plain xs" using Cons.prems by (simp add: plain_def)
  show ?case
  proof (cases "is_list_line x")
    case True
    then have "x \<noteq> OpScopeEnd" by (auto simp: is_list_line_def)
    with True Cons xs show ?thesis by (simp add: interp_Cons exec_op_list_line ran_def)
  next
    case False
    have "call_or_exec d x c s = map_option (Pair c) (exec_op x s)"
      using Cons.prems by (simp add: call_or_exec_def plain_def exec_cond_plain)
    moreover have "active (c\<lparr>last_exec := True\<rparr>)" "ran (x # xs) c = ran xs (c\<lparr>last_exec := True\<rparr>)"
      using Cons.prems(1) False by (simp_all add: active_def ran_def)
    ultimately show ?thesis
      using False Cons.prems Cons.IH [OF _ xs, of "c\<lparr>last_exec := True\<rparr>"]
      by (cases "exec_op x s") (simp_all add: interp_Cons plain_def)
  qed
qed (simp add: ran_def)

subsection \<open>The arms of a conditional\<close>

text \<open>
  What \<open>parse_if\<close> emits: every arm ends with a scope end, and \<open>OpIfBegin\<close> and \<open>OpElseIfBegin\<close>
  are executed alike.
\<close>

fun arm_ops :: "op \<Rightarrow> (op list \<times> op list) list \<Rightarrow> op list" where
  "arm_ops begins [] = []"
| "arm_ops begins ((cnd, body) # ars) =
     cnd @ begins # body @ OpScopeEnd # arm_ops OpElseIfBegin ars"

definition else_ops :: "op list \<Rightarrow> op list" where
  "else_ops body = OpElseBegin # body @ [OpScopeEnd]"

text \<open>The meaning found: the condition of every arm is evaluated, and the arm run when it holds.\<close>

fun run_arms :: "bool \<Rightarrow> (op list \<times> op list) list \<Rightarrow> asm \<Rightarrow> (bool \<times> asm) option" where
  "run_arms b [] s = Some (b, s)"
| "run_arms b ((cnd, body) # ars) s =
     Option.bind (run_ops cnd s) (\<lambda>s1.
       Option.bind (stack_if s1) (\<lambda>(b1, s2).
         Option.bind (if b1 then run_ops body s2 else Some s2) (run_arms b1 ars)))"

definition plain_arms :: "(op list \<times> op list) list \<Rightarrow> bool" where
  "plain_arms ars \<longleftrightarrow> (\<forall>(cnd, body)\<in>set ars. plain cnd \<and> plain body)"

text \<open>The state of conditional assembly after an arm or an else part whose condition was \<open>b\<close>.\<close>

definition after_arm :: "bool \<Rightarrow> cond \<Rightarrow> cond" where
  "after_arm b c = c\<lparr>exec := (exec c)[exec_level c + 1 := b], last_exec := b\<rparr>"

lemma after_arm_simps [simp]:
  "active (after_arm b c) = active c" "exec_level (after_arm b c) = exec_level c"
  "length (exec (after_arm b c)) = length (exec c)"
  "last_exec (after_arm b c) = b"
  "after_arm b (after_arm b' c) = after_arm b c" "after_arm b (ran xs c) = after_arm b c"
  by (simp_all add: after_arm_def active_def ran_def)

lemma interp_block:
  assumes "enter b c = Some c1" "plain body"
  shows "interp_interp d (body @ OpScopeEnd # ys) (c1\<lparr>last_exec := active c1\<rparr>) s =
           Option.bind (if b then run_ops body s else Some s) (interp_interp d ys (after_arm b c))"
proof -
  let ?c = "c1\<lparr>last_exec := active c1\<rparr>"
  have c1: "c1 = c\<lparr>exec_level := exec_level c + 1, exec := (exec c)[exec_level c + 1 := b]\<rparr>"
    and room: "exec_level c + 1 < length (exec c)"
    using assms(1) by (auto simp: enter_def split: if_splits)
  then have act: "active ?c = b" by (simp add: active_def)
  have closed: "scope_end (ran xs ?c) = after_arm b c" "scope_end ?c = after_arm b c" for xs
    using c1 room by (simp_all add: scope_end_def ran_def after_arm_def)
  show ?thesis
  proof (cases b)
    case True
    with act assms(2) closed show ?thesis
      by (cases "run_ops body s") (simp_all add: interp_append interp_plain interp_Cons)
  next
    case False
    with act assms(2) closed show ?thesis
      by (simp add: interp_skip_append interp_Cons)
  qed
qed

lemma interp_arm:
  assumes "active c" "exec_level c + 1 < length (exec c)" "plain cnd" "plain body"
    and "begins = OpIfBegin \<or> begins = OpElseIfBegin"
  shows "interp_interp d (cnd @ begins # body @ OpScopeEnd # ys) c s =
           Option.bind (run_ops cnd s) (\<lambda>s1.
             Option.bind (stack_if s1) (\<lambda>(b, s2).
               Option.bind (if b then run_ops body s2 else Some s2)
                 (interp_interp d ys (after_arm b c))))"
proof -
  have begin_op: "begins \<noteq> OpScopeEnd" "\<not> is_list_line begins" "macro_call begins = None"
    using assms(5) by (auto simp: is_list_line_def macro_call_def)
  have begins: "interp_interp d (begins # body @ OpScopeEnd # ys) c1 s1 =
      Option.bind (stack_if s1) (\<lambda>(b, s2).
        Option.bind (if b then run_ops body s2 else Some s2) (interp_interp d ys (after_arm b c)))"
    if c1: "c1 = ran cnd c" for c1 s1
  proof (cases "stack_if s1")
    case (Some r)
    obtain b s2 where r: "r = (b, s2)" by (cases r)
    obtain c2 where c2: "enter b c1 = Some c2" using assms(2) c1 by (simp add: enter_def)
    have "call_or_exec d begins c1 s1 = Some (c2, s2)"
      using assms(5) begin_op Some r c2 by (auto simp: call_or_exec_def with_cond_def)
    with begin_op assms(1) c1 interp_block [OF c2 assms(4)] Some r
    show ?thesis by (simp add: interp_Cons)
  qed (use assms(1,5) begin_op c1 in \<open>auto simp: interp_Cons call_or_exec_def\<close>)
  show ?thesis
    using assms(1,3) begins
    by (cases "run_ops cnd s") (simp_all add: interp_append interp_plain)
qed

lemma interp_else:
  assumes "active c" "exec_level c + 1 < length (exec c)" "plain body"
  shows "interp_interp d (else_ops body @ ys) c s =
           Option.bind (if last_exec c then Some s else run_ops body s)
             (interp_interp d ys (after_arm (\<not> last_exec c) c))"
proof -
  obtain c1 where c1: "enter (\<not> last_exec c) c = Some c1" using assms(2) by (simp add: enter_def)
  then have "call_or_exec d OpElseBegin c s = Some (c1, s)"
    by (simp add: call_or_exec_def macro_call_def with_cond_def)
  with interp_block [OF c1 assms(3)] assms(1) show ?thesis
    by (simp add: else_ops_def interp_Cons is_list_line_def)
qed

lemma interp_arms:
  assumes "active c" "exec_level c + 1 < length (exec c)" "plain_arms ars"
    "begins = OpIfBegin \<or> begins = OpElseIfBegin" "ars \<noteq> []"
  shows "interp_interp d (arm_ops begins ars @ ys) c s =
           Option.bind (run_arms b ars s) (\<lambda>(b1, s1). interp_interp d ys (after_arm b1 c) s1)"
  using assms
proof (induction ars arbitrary: begins c s b)
  case (Cons arm ars)
  obtain cnd body where arm: "arm = (cnd, body)" by (cases arm)
  have tail: "interp_interp d (arm_ops OpElseIfBegin ars @ ys) (after_arm b1 c) s1 =
      Option.bind (run_arms b1 ars s1) (\<lambda>(b2, s2). interp_interp d ys (after_arm b2 c) s2)" for b1 s1
    using Cons.IH [of "after_arm b1 c" OpElseIfBegin s1 b1] Cons.prems
    by (cases "ars = []") (simp_all add: plain_arms_def)
  show ?case
    using Cons.prems arm
    by (simp add: interp_arm plain_arms_def split_def tail cong: if_cong split: option.split bind_splits)
qed simp

lemma interp_if_else:
  assumes "active c" "exec_level c + 1 < length (exec c)" "plain cnd" "plain body" "plain other"
  shows "interp_interp d (cnd @ OpIfBegin # body @ OpScopeEnd # OpElseBegin # other @ [OpScopeEnd]) c s =
           Option.bind (run_ops cnd s) (\<lambda>s1.
             Option.bind (stack_if s1) (\<lambda>(b, s2).
               map_option (Pair (after_arm (\<not> b) c)) (run_ops (if b then body else other) s2)))"
proof -
  have other: "interp_interp d (OpElseBegin # other @ [OpScopeEnd]) (after_arm b c) s2 =
      map_option (Pair (after_arm (\<not> b) c)) (if b then Some s2 else run_ops other s2)" for b s2
    using interp_else [of "after_arm b c" other d "[]" s2] assms
    by (cases b; cases "run_ops other s2") (simp_all add: else_ops_def)
  have chosen: "Option.bind (if b then run_ops body s2 else Some s2)
        (interp_interp d (OpElseBegin # other @ [OpScopeEnd]) (after_arm b c)) =
      map_option (Pair (after_arm (\<not> b) c)) (run_ops (if b then body else other) s2)" for b s2
    by (cases b; cases "run_ops body s2") (simp_all add: other)
  show ?thesis using assms by (simp add: interp_arm chosen)
qed

subsection \<open>What a conditional assembles\<close>





text \<open>
  C28. An \<open>if\<close> inside a block that is not assembled: its begin is skipped but its end is not, so
  what follows it in the outer block is assembled although the outer condition is false.
\<close>

theorem nested_if_reactivates:
  assumes "active c" "exec_level c + 1 < length (exec c)" "stack_if s = Some (False, s1)"
    and "plain cnd" "plain body" "plain after"
  shows "map_option snd (interp_interp d
           (OpIfBegin # cnd @ OpIfBegin # body @ OpScopeEnd # after @ [OpScopeEnd]) c s) =
         run_ops after s1"
proof -
  obtain c1 where c1: "enter False c = Some c1" using assms(2) by (simp add: enter_def)
  let ?c1 = "c1\<lparr>last_exec := active c1\<rparr>"
  have off: "\<not> active ?c1" using c1 assms(2) by (auto simp: enter_def active_def split: if_splits)
  have "interp_interp d (cnd @ OpIfBegin # body @ OpScopeEnd # after @ [OpScopeEnd]) ?c1 s1 =
        interp_interp d (body @ OpScopeEnd # after @ [OpScopeEnd]) ?c1 s1"
    using off assms(4) by (simp add: interp_skip_append interp_Cons is_list_line_def)
  also have "\<dots> = interp_interp d (after @ [OpScopeEnd]) (after_arm False c) s1"
    using interp_block [OF c1 assms(5)] by simp
  also have "map_option snd \<dots> = run_ops after s1"
    using assms(1,6) by (cases "run_ops after s1") (simp_all add: interp_append interp_plain interp_Cons)
  finally show ?thesis
    using assms(1,3) c1
    by (simp add: interp_Cons is_list_line_def call_or_exec_def macro_call_def with_cond_def)
qed

definition demo_false :: asm where
  "demo_false = stack_push 5 demo_asm"

lemma nested_if_reactivates_witness:
  "map_option snd (interp_interp 0
     (OpIfBegin # [OpPush 3] @ OpIfBegin # [] @ OpScopeEnd # [OpPush 4] @ [OpScopeEnd]) start_cond demo_false) =
   run_ops [OpPush 4] (snd (the (stack_if demo_false)))"
proof -
  have c: "active start_cond" "exec_level start_cond + 1 < length (exec start_cond)"
    by (simp_all add: start_cond_def active_def)
  have "map_option fst (stack_if demo_false) = Some False" by code_simp
  then have f: "stack_if demo_false = Some (False, snd (the (stack_if demo_false)))" by auto
  have p: "plain [OpPush 3]" "plain []" "plain [OpPush 4]"
    by (simp_all add: plain_def branching_def macro_call_def)
  show ?thesis by (rule nested_if_reactivates [OF c f p])
qed

end
