(* ===== verification/Symbols.thy ===== *)
theory Symbols
  imports Conditional
begin

text \<open>
  Symbols as programs see them: assignment, labels and the symbols with a meaning of their own.
\<close>

subsection \<open>The processor\<close>

text \<open>
  Reading the symbol \<open>cpu\<close> and assigning the string back selects the same processor for the
  65C816, the 65C02 and the 6502 only: the strings \<open>cpu_string\<close> gives for the others are none
  \<open>as_define_symbol\<close> knows, and the variable it then writes to the ELF header has no value.
\<close>

theorem cpu_reads_back:
  "cpu_of_string (cpu_string em) = (if em \<in> {EM_816, EM_C02, EM_02} then Some em else None)"
proof -
  have "cpu_of_string ''None'' = None" "cpu_of_string ''65C816'' = Some EM_816"
    "cpu_of_string ''65C02'' = Some EM_C02" "cpu_of_string ''6502'' = Some EM_02"
    "cpu_of_string ''Rockwell 65C02'' = None" "cpu_of_string ''Rockwell C19'' = None"
    "cpu_of_string ''Unknown'' = None"
    by code_simp+
  then show ?thesis
    by (simp add: cpu_string_def EM_NONE_def EM_816_def EM_C02_def EM_02_def EM_RC02_def EM_RC19_def)
qed

subsection \<open>Assignment\<close>

definition two_names :: "u64 \<Rightarrow> u64 \<Rightarrow> asm" where
  "two_names m n = with_objects
     [(object_new Const StringForm)\<lparr>val := Str ''x''\<rparr>, (object_new Const StringForm)\<lparr>val := Str ''y''\<rparr>,
      int_object m, int_object n] (as_init (demo EM_816))"

definition value_of :: "string \<Rightarrow> asm \<Rightarrow> payload option" where
  "value_of k s = map_option (\<lambda>a. val (deref s a)) (map_get (desc (deref s (scope s))) k)"


subsection \<open>Data\<close>

text \<open>The operands of a data directive, pushed in the order they are written.\<close>

definition ints_on_stack :: "u64 list \<Rightarrow> asm \<Rightarrow> bool" where
  "ints_on_stack ns s \<longleftrightarrow>
     (\<exists>ps. length ps = length ns \<and> take (length ns) (stack_view s) = rev ps \<and>
       (\<forall>i<length ns. form (deref s (ps ! i)) = IntForm \<and> val (deref s (ps ! i)) = Num (ns ! i)))"

lemma those_map_the: "None \<notin> set xs \<Longrightarrow> those (map (map_option f) xs) = Some (map (\<lambda>x. f (the x)) xs)"
proof (induction xs)
  case (Cons x xs)
  then show ?case by (cases x) auto
qed simp

lemma those_all: "(\<And>x. x \<in> set xs \<Longrightarrow> f x = Some (g x)) \<Longrightarrow> those (map f xs) = Some (map g xs)"
  by (induction xs) auto

lemma top_entries_view:
  assumes "stack_ok s" "n \<le> length (stack_view s)"
  shows "top_entries n s = Some (map (deref s) (rev (take n (stack_view s))))"
proof -
  let ?xs = "take (stack_pointer s) (items (stack s))"
  have le: "stack_pointer s \<le> length (items (stack s))" "n \<le> stack_pointer s"
    using assms by (simp_all add: stack_ok_def stack_view_def)
  have "None \<notin> set (drop (stack_pointer s - n) ?xs)"
    using assms(1) by (auto simp: stack_ok_def dest: in_set_dropD)
  then show ?thesis
    using le by (simp add: top_entries_def those_map_the stack_view_def rev_take take_rev drop_map)
qed

lemma u8_round [simp]: "(ucast ((ucast (b :: u8) :: u32) AND 0xff) :: u8) = b"
  by (simp add: ucast_and_ff) (rule bit_word_eqI, simp add: bit_simps)

lemma code_put_bytes:
  assumes "storing (gen s)" shows "code_of (gen (put_bytes bs s)) = code_of (gen s) @ bs"
proof -
  have "fold put_byte bs g = fold o_byte bs g" for g
    by (induction bs arbitrary: g) (simp_all add: put_byte_def codegen_byte_def)
  with assms show ?thesis by (simp add: put_bytes_def set_gen_def sink.contents_fold)
qed

lemma word_bytes:
  assumes "storing g"
  shows "storing (codegen_word w g) \<and> code_of (codegen_word w g) = code_of g @ [byte_at 0 w, byte_at 1 w]"
  using assms sink.contents_push [of g] sink.within_push [of g] sink.contents_push sink.within_push
  by (simp add: codegen_word_def ucast_and_ff byte_at_0)

lemma code_put_words:
  "storing g \<Longrightarrow> code_of (fold codegen_word ws g) = code_of g @ concat (map (\<lambda>w. [byte_at 0 w, byte_at 1 w]) ws)"
  by (induction ws arbitrary: g) (simp_all add: word_bytes)

lemma stack_delete_keeps: "stack_delete n s = Some t \<Longrightarrow> gen t = gen s \<and> heap t = heap s"
  by (induction n arbitrary: s) (auto split: bind_splits dest!: stack_pop_keeps)

lemma stack_delete_view:
  assumes "stack_ok s" "stack_view s = qs @ rest" "n = length qs"
  shows "\<exists>t. stack_delete n s = Some t \<and> stack_view t = rest \<and> gen t = gen s \<and> heap t = heap s"
  using opstack.pops_view [OF assms(1), of n] assms(2,3) stack_delete_keeps
  by (auto simp: stack_delete_pops)

text \<open>The integers \<open>ns\<close> were pushed in this order, on top of \<open>rest\<close>.\<close>

definition pushed :: "u64 list \<Rightarrow> ptr list \<Rightarrow> asm \<Rightarrow> bool" where
  "pushed ns rest s \<longleftrightarrow>
     stack_ok s \<and> (\<exists>ps. stack_view s = rev ps @ rest \<and>
       list_all2 (\<lambda>p n. form (deref s p) = IntForm \<and> val (deref s p) = Num n) ps ns)"

lemma pushed_entries:
  assumes "pushed ns rest s"
  shows "\<exists>vs. top_entries (length ns) s = Some vs \<and>
     list_all2 (\<lambda>v n. form v = IntForm \<and> val v = Num n) vs ns"
proof -
  obtain ps where ps: "stack_view s = rev ps @ rest"
    "list_all2 (\<lambda>p n. form (deref s p) = IntForm \<and> val (deref s p) = Num n) ps ns"
    using assms by (auto simp: pushed_def)
  have len: "length ps = length ns" using ps(2) by (rule list_all2_lengthD)
  have "top_entries (length ns) s = Some (map (deref s) ps)"
    using assms ps len top_entries_view [of s "length ns"] by (simp add: pushed_def)
  with ps(2) show ?thesis by (simp add: list.rel_map)
qed

lemma stack_view_gen [simp]: "stack_view (set_gen f s) = stack_view s" "stack_ok (set_gen f s) = stack_ok s"
  "gen (set_gen f s) = f (gen s)" "heap (set_gen f s) = heap s"
  by (simp_all add: set_gen_def stack_view_def stack_ok_def)

lemma pushed_delete:
  assumes "pushed ns rest s"
  shows "\<exists>t. stack_delete (length ns) (set_gen f s) = Some t \<and> stack_view t = rest \<and> gen t = f (gen s)"
proof -
  obtain ps where ps: "stack_view s = rev ps @ rest" "length ps = length ns"
    using assms list_all2_lengthD by (auto simp: pushed_def)
  with assms show ?thesis
    using stack_delete_view [of "set_gen f s" "rev ps" rest "length ns"]
    by (auto simp: pushed_def)
qed

lemma map_entries:
  assumes "list_all2 (\<lambda>v n. form v = IntForm \<and> val v = Num n) vs ns"
    and "\<And>v n. form v = IntForm \<Longrightarrow> val v = Num n \<Longrightarrow> f v = Some (g n)"
  shows "those (map f vs) = Some (map g ns)"
  using assms(1) by (induction rule: list_all2_induct) (simp_all add: assms(2))

text \<open>
  C31. \<open>.byte\<close> with integer operands stores their low bytes in the order they were written and
  takes them off the stack.
\<close>

theorem stack_byte_stores:
  assumes "storing (gen s)" "pushed ns rest s" "count_of v s = Some (length ns)"
  shows "\<exists>t. stack_byte v s = Some t \<and> code_of (gen t) = code_of (gen s) @ map ucast ns \<and>
    stack_view t = rest"
proof -
  obtain vs where vs: "top_entries (length ns) s = Some vs"
    "list_all2 (\<lambda>v n. form v = IntForm \<and> val v = Num n) vs ns"
    using pushed_entries [OF assms(2)] by blast
  have "those (map data_byte vs) = Some (map (\<lambda>n. [ucast n]) ns)"
    using vs(2) by (rule map_entries) (simp add: data_byte_def int_val_def)
  moreover obtain t where "stack_delete (length ns) (put_bytes (map ucast ns) s) = Some t"
    "stack_view t = rest" "gen t = gen (put_bytes (map ucast ns) s)"
    using pushed_delete [OF assms(2)] by (fastforce simp: put_bytes_def)
  ultimately show ?thesis
    using vs(1) assms code_put_bytes [OF assms(1)]
    by (simp add: stack_byte_def concat_map_singleton flip: map_map)
qed

text \<open>
  \<open>.word\<close> with integer operands stores each as two bytes, low byte first.
\<close>

theorem stack_word_stores:
  assumes "storing (gen s)" "pushed ns rest s" "count_of v s = Some (length ns)"
  shows "\<exists>t. stack_word v s = Some t \<and>
    code_of (gen t) = code_of (gen s) @ concat (map (\<lambda>n. [byte_at 0 (ucast n), byte_at 1 (ucast n)]) ns) \<and>
    stack_view t = rest"
proof -
  let ?put = "fold (\<lambda>w g. codegen_word (ucast w) g) ns"
  have put: "?put g = fold codegen_word (map ucast ns) g" for g by (simp add: fold_map comp_def)
  obtain vs where vs: "top_entries (length ns) s = Some vs"
    "list_all2 (\<lambda>v n. form v = IntForm \<and> val v = Num n) vs ns"
    using pushed_entries [OF assms(2)] by blast
  have "those (map int_val vs) = Some (map (\<lambda>n. n) ns)"
    using vs(2) by (rule map_entries) (simp add: int_val_def)
  moreover obtain t where "stack_delete (length ns) (set_gen ?put s) = Some t" "stack_view t = rest"
    "gen t = ?put (gen s)"
    using pushed_delete [OF assms(2)] by blast
  moreover have "stack_view s = rest" if "ns = []"
    using assms(2) that by (simp add: pushed_def)
  ultimately show ?thesis
    using vs(1) assms by (auto simp: stack_word_def put code_put_words comp_def)
qed

text \<open>The operands 5 and 7 have been pushed; their count is the object at 6.\<close>

definition demo_data :: asm where
  "demo_data = stack_push 4 (stack_push 3 (with_objects [int_object 2] demo_asm))"

lemma demo_data_facts:
  "storing (gen demo_data)" "code_of (gen demo_data) = []" "count_of 6 demo_data = Some (length [5, 7 :: u64])"
proof -
  have "gen demo_data = demo EM_816"
    by (simp add: demo_data_def stack_push_def Let_def with_objects_def demo_asm_def as_init_def)
  then show "storing (gen demo_data)" "code_of (gen demo_data) = []"
    by (simp_all add: storing_demo) (simp add: code_of_def demo_def demo_section_def vec_empty_def)
  show "count_of 6 demo_data = Some (length [5, 7 :: u64])" by code_simp
qed

lemma pushed_demo: "pushed [5, 7] [] demo_data"
proof -
  have "stack_ok (with_objects [int_object 2] demo_asm)"
    using asm_ok_demo by (simp add: asm_ok_def with_objects_def stack_ok_def)
  then have ok: "stack_ok demo_data" by (simp add: demo_data_def stack_ok_push)
  have view: "stack_view demo_data = [4, 3]" by code_simp
  have "list_all2 (\<lambda>p n. form (deref demo_data p) = IntForm \<and> val (deref demo_data p) = Num n) [3, 4] [5, 7]"
    by code_simp
  with ok view show ?thesis unfolding pushed_def by (intro conjI exI [of _ "[3, 4]"]) simp_all
qed

lemma stack_byte_stores_witness: "\<exists>t. stack_byte 6 demo_data = Some t \<and> code_of (gen t) = [5, 7]"
  using stack_byte_stores [OF demo_data_facts(1) pushed_demo demo_data_facts(3)] demo_data_facts(2)
  by auto

lemma stack_word_stores_witness:
  "\<exists>t. stack_word 6 demo_data = Some t \<and> code_of (gen t) = [5, 0, 7, 0]"
proof -
  have "byte_at 0 (ucast (5 :: u64)) = 5" "byte_at 1 (ucast (5 :: u64)) = 0"
    "byte_at 0 (ucast (7 :: u64)) = 7" "byte_at 1 (ucast (7 :: u64)) = 0"
    by code_simp+
  then show ?thesis
    using stack_word_stores [OF demo_data_facts(1) pushed_demo demo_data_facts(3)] demo_data_facts(2)
    by auto
qed

subsection \<open>Labels\<close>

lemma deref_update:
  "deref (update a f s) b = (if b = a \<and> a < length (heap s) then f (deref s a) else deref s b)"
  by (auto simp: deref_def update_def list_update_beyond)

lemma climb_cong:
  assumes "\<And>b. desc (deref t b) = desc (deref s b) \<and> parent (deref t b) = parent (deref s b)"
  shows "climb n t a k = climb n s a k"
  using assms by (induction n s a k rule: climb.induct) (auto split: option.split)

lemma find_update:
  assumes "\<And>x. desc (f x) = desc x \<and> parent (f x) = parent x"
  shows "scope_find_object k (update a f s) = scope_find_object k s"
proof -
  have "desc (deref (update a f s) b) = desc (deref s b) \<and> parent (deref (update a f s) b) = parent (deref s b)" for b
    using assms by (simp add: deref_update)
  then show ?thesis by (simp add: scope_find_object_def climb_cong [of "update a f s" s] cong: option.case_cong)
qed

text \<open>The address a symbol holds: \<open>addr\<close> for a procedure, \<open>int_val\<close> otherwise.\<close>

definition holds_address :: "obj \<Rightarrow> u64 \<Rightarrow> bool" where
  "holds_address x n \<longleftrightarrow> (if form x = ProcForm then oaddr x = ucast n else val x = Num n)"

text \<open>
  C14. A label that is not local names the address the code generator is at: afterwards its name
  is found, and the object found holds the address, whether the name was new or not. Nothing is
  assembled.
\<close>

theorem label_holds_address:
  assumes "asm_ok s" "\<not> is_local (deref s lb)" "string_val (deref s lb) = Some k"
    and "scope_find_object k s = Some x" "map_get (desc (deref s (scope s))) ''.'' = None" "lk k \<noteq> ''.''"
  shows "\<exists>t a. set_label lb s = Some t \<and> scope_find_object k t = Some (Some a) \<and>
    holds_address (deref t a) (addr (gen s)) \<and> gen t = gen s"
proof -
  let ?s = "s\<lparr>current_label := Some lb\<rparr>"
  let ?put = "\<lambda>y. if form y = ProcForm then y\<lparr>oaddr := ucast (addr (gen s))\<rparr> else y\<lparr>val := Num (addr (gen s))\<rparr>"
  have same: "deref ?s = deref s" by (simp add: deref_def fun_eq_iff)
  have climb_s: "climb n ?s a k = climb n s a k" for n a by (rule climb_cong) (simp add: same)
  have find: "scope_find_object k ?s = Some x"
    using assms(4) by (simp add: scope_find_object_def same climb_s cong: option.case_cong)
  have label: "set_label lb s = set_label_impl lb ?s"
    using assms(2) by (simp add: set_label_def)
  show ?thesis
  proof (cases x)
    case (Some a)
    have "a < length (heap s)" using find_ok [OF _ assms(1)] assms(4) Some by blast
    let ?t = "update a ?put ?s"
    have "set_label lb s = Some ?t"
      using find Some assms(3) by (simp add: label set_label_impl_def same codegen_here_def Let_def cong: if_cong)
    moreover have "scope_find_object k ?t = Some (Some a)"
      using find_update [of ?put k a ?s] find Some by simp
    moreover have "holds_address (deref ?t a) (addr (gen s))"
      using \<open>a < length (heap s)\<close> by (simp add: deref_update same holds_address_def)
    moreover have "gen ?t = gen s" by (simp add: update_def)
    ultimately show ?thesis by blast
  next
    case None
    let ?n = "length (heap s)"
    let ?x = "(object_new Const IntForm)\<lparr>is_global := is_global (deref s lb)\<rparr>"
    let ?s1 = "?s\<lparr>heap := heap s @ [?x]\<rparr>"
    let ?s2 = "update (scope s) (\<lambda>x. x\<lparr>desc := map_set (desc x) k ?n\<rparr>) ?s1"
    let ?s3 = "update ?n (\<lambda>x. x\<lparr>parent := Some (scope s), level := current_level s\<rparr>) ?s2"
    let ?t = "update ?n ?put ?s3"
    have sc: "scope s < ?n" using assms(1) by (rule scope_ok)
    have d1: "deref ?s1 b = (if b = ?n then ?x else deref s b)" if "b \<le> ?n" for b
      using that by (auto simp: deref_def nth_append)
    have none: "map_get (desc (deref s (scope s))) k = None"
      using assms(4,5) None by (auto simp: scope_find_object_def Let_def split: option.splits)
    have add: "scope_add_object k ?n ?s1 = Some ?s3"
    proof -
      have "\<not> is_local (deref ?s1 ?n)" by (simp add: d1) (simp add: object_new_def)
      moreover have "deref ?s1 (scope s) = deref s (scope s)" using sc by (simp add: d1)
      ultimately show ?thesis using none by (simp add: scope_add_object_def)
    qed
    have t: "set_label lb s = Some ?t"
      using find None assms(3) add
      by (simp add: label set_label_impl_def same alloc_def codegen_here_def Let_def cong: if_cong) (simp add: update_def)
    have ok: "map_ok (desc (deref s (scope s)))"
      using asm_ok_heap [OF assms(1) sc] by (simp add: obj_ok_def)
    have root: "desc (deref ?t (scope s)) = map_set (desc (deref s (scope s))) k ?n"
      using sc by (simp add: deref_update d1)
    have "lk ''.'' \<noteq> lk k" using assms(6) by (simp add: lk_def MAX_LABEL_def)
    then have "scope_find_object k ?t = Some (Some ?n)"
      using assms(5) ok by (simp add: scope_find_object_def root map_get_set Let_def)
    moreover have "holds_address (deref ?t ?n) (addr (gen s))"
      using sc by (simp add: deref_update d1 holds_address_def object_new_def)
    moreover have "gen ?t = gen s" by (simp add: update_def)
    ultimately show ?thesis using t by blast
  qed
qed

lemma label_holds_address_witness:
  "\<exists>t a. set_label 2 demo_asm = Some t \<and> scope_find_object ''x'' t = Some (Some a) \<and>
    holds_address (deref t a) 0x8000 \<and> gen t = demo EM_816"
proof -
  have f: "\<not> is_local (deref demo_asm 2)" "string_val (deref demo_asm 2) = Some ''x''"
    "scope_find_object ''x'' demo_asm = Some None"
    "map_get (desc (deref demo_asm (scope demo_asm))) ''.'' = None" "lk ''x'' \<noteq> ''.''"
    by code_simp+
  have g: "gen demo_asm = demo EM_816" "addr (demo EM_816) = 0x8000"
    by (simp_all add: demo_asm_def with_objects_def as_init_def demo_def)
  from label_holds_address [OF asm_ok_demo f] show ?thesis unfolding g .
qed

text \<open>
  A local label with the name of a global symbol moves that symbol: \<open>set_label_impl\<close> looks the name
  up through the enclosing scopes, too. Here \<open>x:\<close> is at 8000, \<open>main:\<close> follows a one-byte
  instruction, and \<open>.x\<close> in it another.
\<close>

definition two_labels :: asm where
  "two_labels = with_objects
     [(object_new Const StringForm)\<lparr>val := Str ''x''\<rparr>, (object_new Const StringForm)\<lparr>val := Str ''main''\<rparr>,
      (object_new Const StringForm)\<lparr>val := Str ''x'', is_local := True\<rparr>] (as_init (demo EM_816))"

lemma local_label_moves_global:
  "map_option (value_of ''x'')
     (run_ops [OpLabel 2, OpEmit \<lparr>opcode = sNOP, mode = Implied, modifier = MNone\<rparr>, OpLabel 3] two_labels) =
     Some (Some (Num 0x8000))"
  "map_option (value_of ''x'')
     (run_ops [OpLabel 2, OpEmit \<lparr>opcode = sNOP, mode = Implied, modifier = MNone\<rparr>, OpLabel 3,
               OpEmit \<lparr>opcode = sNOP, mode = Implied, modifier = MNone\<rparr>, OpLabel 4] two_labels) =
     Some (Some (Num 0x8002))"
  by code_simp+

end
