(* ===== verification/BufferedFile.thy ===== *)
theory BufferedFile
  imports Prelude
begin

text \<open>
  \<open>shared/src/buffered_file.c\<close>: the stack of open source files and \<open>bf_next\<close>, which reads one
  character of the innermost file and falls back to the file that included it at the end.

  A \<open>char\<close> is its signed value. \<open>buffer\<close> holds what has been read from the file descriptor and
  not yet been returned, \<open>disk\<close> what is still to be read; the sentinel \<open>CH_EOB\<close> behind the buffer
  is the case of an empty buffer. A buffer in memory (\<open>bf_memory\<close>) has nothing on disk and ends
  with \<open>CH_EOF\<close>. \<open>read\<close> is taken to fill the buffer while the file lasts.
\<close>

definition CH_EOF :: int where "CH_EOF = - 1"
definition CH_EOB :: int where "CH_EOB = - 2"
definition IO_BUF_SIZE :: nat where "IO_BUF_SIZE = 4096"

record bfile =
  buffer :: "int list"
  disk :: "int list"
  line_num :: int
  line_pos :: int

definition bf_open :: "int list \<Rightarrow> bfile list \<Rightarrow> bfile list" where
  "bf_open content fs = \<lparr>buffer = [], disk = content, line_num = 1, line_pos = 1\<rparr> # fs"

definition bf_memory :: "int list \<Rightarrow> bfile list \<Rightarrow> bfile list option" where
  "bf_memory content fs =
     (if IO_BUF_SIZE < length content then None
      else Some (\<lparr>buffer = content, disk = [], line_num = 0, line_pos = 0\<rparr> # fs))"

text \<open>\<open>bf_read\<close>: refills an empty buffer, then returns its first character, whatever it is.\<close>

definition bf_read :: "bfile \<Rightarrow> int \<times> bfile" where
  "bf_read f =
     (let g = (if buffer f = []
               then f\<lparr>buffer := take IO_BUF_SIZE (disk f), disk := drop IO_BUF_SIZE (disk f)\<rparr> else f)
      in case buffer g of [] \<Rightarrow> (CH_EOF, g) | c # cs \<Rightarrow> (c, g\<lparr>buffer := cs\<rparr>))"

text \<open>\<open>*((file->buf_ptr)++)\<close>, going on with \<open>bf_read\<close> at \<open>CH_EOB\<close>.\<close>

definition bf_char :: "bfile \<Rightarrow> int \<times> bfile" where
  "bf_char f =
     (case buffer f of
        [] \<Rightarrow> bf_read f
      | c # cs \<Rightarrow> if c = CH_EOB then bf_read (f\<lparr>buffer := cs\<rparr>) else (c, f\<lparr>buffer := cs\<rparr>))"

definition bf_count :: "int \<Rightarrow> bfile \<Rightarrow> bfile" where
  "bf_count c f =
     (if c = 10 then f\<lparr>line_num := line_num f + 1, line_pos := 0\<rparr>
      else f\<lparr>line_pos := line_pos f + 1\<rparr>)"

fun bf_next :: "bfile list \<Rightarrow> int \<times> bfile list" where
  "bf_next [] = (CH_EOF, [])"
| "bf_next (f # fs) =
     (let (c, g) = bf_char f in if c = CH_EOF then bf_next fs else (c, bf_count c g # fs))"

subsection \<open>What is left to read\<close>

definition file_left :: "bfile \<Rightarrow> nat" where
  "file_left f = length (buffer f) + length (disk f)"

definition files_left :: "bfile list \<Rightarrow> nat" where
  "files_left fs = sum_list (map file_left fs)"

lemma bf_read_left: "bf_read f = (c, g) \<Longrightarrow> c \<noteq> CH_EOF \<Longrightarrow> file_left g < file_left f"
  by (auto simp: bf_read_def file_left_def Let_def IO_BUF_SIZE_def split: list.splits if_splits
      dest!: arg_cong [of _ _ length])

lemma bf_char_left: "bf_char f = (c, g) \<Longrightarrow> c \<noteq> CH_EOF \<Longrightarrow> file_left g < file_left f"
  by (cases "buffer f")
    (auto simp: bf_char_def split: if_splits dest!: bf_read_left, auto simp: file_left_def)

lemma bf_next_left:
  "(fst (bf_next fs) \<noteq> CH_EOF \<longrightarrow> files_left (snd (bf_next fs)) < files_left fs) \<and>
   (fst (bf_next fs) = CH_EOF \<longrightarrow> snd (bf_next fs) = [])"
proof (induction fs rule: bf_next.induct)
  case (2 f fs)
  obtain c g where cg: "bf_char f = (c, g)" by (cases "bf_char f")
  have "file_left (bf_count c g) = file_left g" by (simp add: bf_count_def file_left_def)
  with 2 [OF cg [symmetric] refl] bf_char_left [OF cg] show ?case
    by (auto simp: cg files_left_def)
qed simp

subsection \<open>Buffering does not show\<close>

text \<open>The characters \<open>bf_next\<close> returns until the last file ends.\<close>

fun bf_take :: "nat \<Rightarrow> bfile list \<Rightarrow> int list" where
  "bf_take 0 fs = []"
| "bf_take (Suc n) fs =
     (let (c, gs) = bf_next fs in if c = CH_EOF then [] else c # bf_take n gs)"

definition pending :: "bfile list \<Rightarrow> int list" where
  "pending fs = concat (map (\<lambda>f. buffer f @ disk f) fs)"

definition text_only :: "int list \<Rightarrow> bool" where
  "text_only cs \<longleftrightarrow> CH_EOF \<notin> set cs \<and> CH_EOB \<notin> set cs"

lemma bf_char_text:
  assumes "text_only (buffer f @ disk f)"
  shows "(case buffer f @ disk f of [] \<Rightarrow> fst (bf_char f) = CH_EOF
          | c # cs \<Rightarrow> fst (bf_char f) = c \<and> c \<noteq> CH_EOF \<and>
              buffer (snd (bf_char f)) @ disk (snd (bf_char f)) = cs)"
proof (cases "buffer f")
  case Nil
  show ?thesis
  proof (cases "disk f")
    case (Cons c cs)
    then have "take IO_BUF_SIZE (disk f) = c # take 4095 cs" "drop IO_BUF_SIZE (disk f) = drop 4095 cs"
      by (simp_all add: IO_BUF_SIZE_def)
    with Nil Cons assms show ?thesis by (auto simp: bf_char_def bf_read_def text_only_def)
  qed (use Nil in \<open>simp add: bf_char_def bf_read_def\<close>)
qed (use assms in \<open>auto simp: bf_char_def text_only_def\<close>)

lemma bf_next_text:
  "text_only (pending fs) \<Longrightarrow>
     (case pending fs of [] \<Rightarrow> fst (bf_next fs) = CH_EOF
      | c # cs \<Rightarrow> fst (bf_next fs) = c \<and> c \<noteq> CH_EOF \<and> pending (snd (bf_next fs)) = cs)"
proof (induction fs rule: bf_next.induct)
  case (2 f fs)
  obtain c g where cg: "bf_char f = (c, g)" by (cases "bf_char f")
  have f: "text_only (buffer f @ disk f)" "text_only (pending fs)"
    using 2(2) by (auto simp: pending_def text_only_def)
  show ?case
  proof (cases "buffer f @ disk f")
    case Nil
    with bf_char_text [OF f(1)] cg have eof: "c = CH_EOF" by simp
    then have "bf_next (f # fs) = bf_next fs" using cg by simp
    moreover have "pending (f # fs) = pending fs" using Nil by (simp add: pending_def)
    ultimately show ?thesis using 2(1) [OF cg [symmetric] refl eof f(2)] by (simp only:)
  next
    case (Cons d ds)
    with bf_char_text [OF f(1)] cg have "c = d" "c \<noteq> CH_EOF" "buffer g @ disk g = ds" by simp_all
    moreover from this cg have "bf_next (f # fs) = (d, bf_count d g # fs)" by simp
    moreover have "pending (f # fs) = d # ds @ pending fs" using Cons by (simp add: pending_def)
    ultimately show ?thesis by (simp add: pending_def bf_count_def)
  qed
qed (simp add: pending_def)

text \<open>
  C25. Reading through the buffer returns exactly the characters of the open files, the innermost
  file first and then the rest of the files that include it, when none of them is one of the two
  bytes that the reader takes for its own marks.
\<close>

theorem bf_next_reads_all:
  assumes "text_only (pending fs)"
  shows "bf_take n fs = take n (pending fs)"
  using assms
proof (induction n arbitrary: fs)
  case (Suc n)
  then show ?case
    using bf_next_text [OF Suc.prems]
    by (cases "pending fs") (auto simp: text_only_def split: prod.splits)
qed simp

lemma bf_next_reads_all_witness:
  "bf_take 9 (bf_open [97, 98, 10] (bf_open [99] [])) = [97, 98, 10, 99]"
proof -
  have "text_only (pending (bf_open [97, 98, 10] (bf_open [99] [])))" by code_simp
  from bf_next_reads_all [OF this, of 9] show ?thesis by (simp add: pending_def bf_open_def)
qed

text \<open>A byte 255 ends the file it is in, a byte 254 is lost.\<close>

lemma marks_in_text:
  "bf_take 9 (bf_open [97, - 1, 98] []) = [97]" "bf_take 9 (bf_open [97, - 2, 98] []) = [97, 98]"
  by code_simp+

subsection \<open>File types\<close>

datatype file_type =
    FileNone | FileExecutable | FileAsmSrc | FileCHeader | FileOberonSrc | FileObject | FileLib
  | FileDylib | FileS19 | FileS28 | FileS37 | FileIntel | FileTIM | FileBinary | File816
  | FileLinkMap | FileUnknown

text \<open>\<open>strrchr(filename, '.')\<close>: what follows the last dot.\<close>

definition extension :: "string \<Rightarrow> string" where
  "extension name = rev (takeWhile (\<lambda>c. c \<noteq> CHR ''.'') (rev name))"

definition as_file_type :: "string \<Rightarrow> file_type" where
  "as_file_type name =
     (let ext = extension name in
      if CHR ''.'' \<notin> set name \<or> length name = length ext + 1 then FileExecutable
      else if ext = ''s'' \<or> ext = ''asm'' then FileAsmSrc
      else if ext = ''h'' then FileCHeader
      else if ext = ''Mod'' \<or> ext = ''mod'' then FileOberonSrc
      else if ext = ''o'' then FileObject
      else if ext = ''lib'' then FileLib
      else if ext = ''dylib'' then FileDylib
      else if ext = ''s19'' then FileS19
      else if ext = ''s28'' then FileS28
      else if ext = ''s37'' then FileS37
      else if ext = ''hex'' then FileIntel
      else if ext = ''tim'' then FileTIM
      else if ext = ''bin'' then FileBinary
      else if ext = ''816'' then File816
      else if ext = ''map'' then FileLinkMap
      else FileUnknown)"

text \<open>A dot in a directory counts: a file without an extension there has no known type.\<close>

lemma as_file_type_examples:
  "as_file_type ''main.s'' = FileAsmSrc" "as_file_type ''main'' = FileExecutable"
  "as_file_type ''../main'' = FileUnknown" "as_file_type ''../lib.v2/main'' = FileUnknown"
  by code_simp+

end
