(* ===== verification/Scanner.thy ===== *)
theory Scanner
  imports Scope BufferedFile
begin

text \<open>
  The assembler's scanner, \<open>as-c/src/scanner.c\<close>. Its globals are the record \<open>scan\<close>: the open
  files, the lookahead \<open>ch\<close>, the column \<open>c\<close>, the buffer \<open>id\<close> with the last identifier, string
  or comment, the value \<open>ival\<close> of the last number, and the symbol found. A write behind the array
  \<open>id\<close> or a read behind \<open>key\<close> is recorded in \<open>overrun\<close>, a write behind a row of \<open>line\<close> in
  \<open>line_overrun\<close>. The copy of each line for the listing is not kept.
\<close>

definition IdLen :: nat where "IdLen = 1024"
definition MAX_LINE :: nat where "MAX_LINE = 132"

record scan =
  files :: "bfile list"
  ch :: int
  col :: nat
  ident :: string
  ival :: u32
  sym :: symbol
  overrun :: bool
  line_overrun :: bool

definition next_ch :: "scan \<Rightarrow> scan" where
  "next_ch s =
     (let s1 = (if ch s = 10 \<or> ch s = CH_EOF
                then s\<lparr>col := 0, line_overrun := line_overrun s \<or> MAX_LINE \<le> col s\<rparr> else s);
          (c1, fs1) = bf_next (files s1);
          (c2, fs2) = (if c1 = 13 then bf_next fs1 else (c1, fs1))
      in s1\<lparr>files := fs2, ch := c2, col := (if col s1 < MAX_LINE then col s1 + 1 else col s1)\<rparr>)"

text \<open>Characters still to come, the lookahead included.\<close>

definition left :: "scan \<Rightarrow> nat" where
  "left s = files_left (files s) + (if ch s = CH_EOF then 0 else 1)"

lemma bf_next_fst_snd:
  assumes "bf_next fs = (c, gs)"
  shows "files_left gs + (if c = CH_EOF then 0 else 1) \<le> files_left fs"
  using bf_next_left [of fs] assms by (auto simp: files_left_def)

lemma left_next_le: "left (next_ch s) \<le> files_left (files s)"
proof -
  obtain c1 fs1 where 1: "bf_next (files s) = (c1, fs1)" by (cases "bf_next (files s)")
  obtain c2 fs2 where 2: "bf_next fs1 = (c2, fs2)" by (cases "bf_next fs1")
  show ?thesis
    using bf_next_fst_snd [OF 1] bf_next_fst_snd [OF 2]
    by (auto simp: next_ch_def left_def Let_def 1 2 CH_EOF_def split: if_splits)
qed

lemma left_next [simp]: "left (next_ch s) \<le> left s"
  using left_next_le [of s] by (simp add: left_def)

lemma left_next_less: "ch s \<noteq> CH_EOF \<Longrightarrow> left (next_ch s) < left s"
  using left_next_le [of s] by (simp add: left_def)

text \<open>Characters still unread. A loop that goes on after \<open>next\<close> has not met the end.\<close>

definition unread :: "scan \<Rightarrow> nat" where
  "unread s = files_left (files s)"

lemma unread_next_le [simp]: "unread (next_ch s) \<le> unread s"
  using left_next_le [of s] by (simp add: unread_def left_def)

lemma unread_next_less: "ch (next_ch s) \<noteq> CH_EOF \<Longrightarrow> unread (next_ch s) < unread s"
  using left_next_le [of s] by (simp add: unread_def left_def)

lemma left_fields [simp]:
  "left (s\<lparr>ident := x\<rparr>) = left s" "left (s\<lparr>ival := n\<rparr>) = left s" "left (s\<lparr>sym := y\<rparr>) = left s"
  "left (s\<lparr>overrun := b\<rparr>) = left s" "left (s\<lparr>col := k\<rparr>) = left s"
  "unread (s\<lparr>ident := x\<rparr>) = unread s" "unread (s\<lparr>ival := n\<rparr>) = unread s"
  "unread (s\<lparr>sym := y\<rparr>) = unread s" "unread (s\<lparr>overrun := b\<rparr>) = unread s"
  by (simp_all add: left_def unread_def)

subsection \<open>Characters\<close>

definition char_of_int :: "int \<Rightarrow> char" where
  "char_of_int c = char_of (nat (c mod 256))"

definition is_digit :: "int \<Rightarrow> bool" where
  "is_digit c \<longleftrightarrow> 48 \<le> c \<and> c \<le> 57"

definition is_upper :: "int \<Rightarrow> bool" where
  "is_upper c \<longleftrightarrow> 65 \<le> c \<and> c \<le> 90"

definition is_lower :: "int \<Rightarrow> bool" where
  "is_lower c \<longleftrightarrow> 97 \<le> c \<and> c \<le> 122"

definition is_ident_char :: "int \<Rightarrow> bool" where
  "is_ident_char c \<longleftrightarrow> is_digit c \<or> is_upper c \<or> c = 95 \<or> is_lower c"

definition is_hex_digit :: "int \<Rightarrow> bool" where
  "is_hex_digit c \<longleftrightarrow> is_digit c \<or> (65 \<le> c \<and> c \<le> 70) \<or> (97 \<le> c \<and> c \<le> 102)"

text \<open>\<open>id[i++] = ch\<close>, and \<open>id[i] = 0\<close> at the end.\<close>

definition store_ch :: "scan \<Rightarrow> scan" where
  "store_ch s = s\<lparr>ident := ident s @ [char_of_int (ch s)],
                   overrun := overrun s \<or> IdLen \<le> length (ident s)\<rparr>"

definition end_id :: "scan \<Rightarrow> scan" where
  "end_id s = s\<lparr>ident := takeWhile (\<lambda>c. c \<noteq> CHR 0x00) (ident s),
                 overrun := overrun s \<or> IdLen \<le> length (ident s)\<rparr>"

lemma left_store [simp]:
  "left (store_ch s) = left s" "left (end_id s) = left s"
  "unread (store_ch s) = unread s" "unread (end_id s) = unread s"
  by (simp_all add: store_ch_def end_id_def)

lemma ch_store [simp]: "ch (store_ch s) = ch s" "ch (end_id s) = ch s"
  by (simp_all add: store_ch_def end_id_def)

lemma left_next_store: "ch s \<noteq> CH_EOF \<Longrightarrow> left (next_ch (store_ch s)) < left s"
  using left_next_less [of "store_ch s"] by simp

subsection \<open>Keywords\<close>

text \<open>The C library's \<open>strcasecmp\<close>, by sign.\<close>

fun strcasecmp :: "string \<Rightarrow> string \<Rightarrow> int" where
  "strcasecmp [] [] = 0"
| "strcasecmp [] (y # ys) = - 1"
| "strcasecmp (x # xs) [] = 1"
| "strcasecmp (x # xs) (y # ys) =
     (if to_lower x = to_lower y then strcasecmp xs ys
      else if to_lower x < to_lower y then - 1 else 1)"

function key_search :: "nat \<Rightarrow> nat \<Rightarrow> string \<Rightarrow> nat" where
  "key_search i j w =
     (if i < j then
        let m = (i + j) div 2 in
        if strcasecmp (key ! m) w < 0 then key_search (m + 1) j w else key_search i m w
      else j)"
  by pat_completeness auto
termination
  by (relation "measure (\<lambda>(i, j, w). j - i)") auto

declare key_search.simps [simp del]

text \<open>The symbol of a word, and whether looking it up read outside the table.\<close>

definition keyword :: "string \<Rightarrow> symbol \<times> bool" where
  "keyword w =
     (let j = key_search 0 NofKeys w in
      if NofKeys \<le> j then (sIDENT, True)
      else if strcasecmp (key ! j) w = 0 \<and> (is_instr j \<or> is_asm_keyword j \<or> is_directive j)
           then (symno ! j, False) else (sIDENT, False))"

subsection \<open>Words, numbers, strings, comments\<close>

lemma unread_step: "ch (next_ch t) \<noteq> CH_EOF \<Longrightarrow> unread t = unread s \<Longrightarrow> unread (next_ch t) < unread s"
  using unread_next_less [of t] by simp

text \<open>\<open>do { if (i < IdLen-1) id[i++] = ch; next(); } while (ch is a letter, digit or _)\<close>\<close>

function ident_loop :: "scan \<Rightarrow> scan" where
  "ident_loop s =
     (let s1 = next_ch (if length (ident s) < IdLen - 1 then store_ch s else s) in
      if ch s1 \<noteq> CH_EOF \<and> is_ident_char (ch s1) then ident_loop s1 else s1)"
  by pat_completeness auto
termination
  by (relation "measure unread") (auto simp: Let_def split: if_splits intro: unread_step)

definition ident_sym :: "scan \<Rightarrow> scan" where
  "ident_sym s =
     (let s1 = end_id (ident_loop (s\<lparr>ident := []\<rparr>)); (k, over) = keyword (ident s1)
      in s1\<lparr>sym := k, overrun := overrun s1 \<or> over\<rparr>)"

function number_loop :: "scan \<Rightarrow> scan" where
  "number_loop s =
     (let s1 = next_ch (s\<lparr>ival := 10 * ival s + word_of_int (ch s) - 48\<rparr>) in
      if is_digit (ch s1) \<and> ch s1 \<noteq> CH_EOF then number_loop s1 else s1)"
  by pat_completeness auto
termination
  by (relation "measure unread") (auto simp: Let_def intro: unread_step)

text \<open>A number followed by a dot is taken for a real one, the dot stays.\<close>

definition number_sym :: "scan \<Rightarrow> scan" where
  "number_sym s =
     (let s1 = number_loop (s\<lparr>ival := 0\<rparr>)
      in s1\<lparr>sym := (if ch s1 = 46 then sREAL else sINTEGER)\<rparr>)"

definition hex_value :: "int \<Rightarrow> u32" where
  "hex_value c =
     word_of_int (if is_digit c then c - 48 else if 65 \<le> c \<and> c \<le> 70 then c - 65 + 10 else c - 97 + 10)"

function hex_loop :: "scan \<Rightarrow> scan" where
  "hex_loop s =
     (let s1 = next_ch (s\<lparr>ival := 16 * ival s + hex_value (ch s)\<rparr>) in
      if ch s1 \<noteq> CH_EOF \<and> is_hex_digit (ch s1) then hex_loop s1 else s1)"
  by pat_completeness auto
termination
  by (relation "measure unread") (auto simp: Let_def intro: unread_step)

definition hex_number :: "scan \<Rightarrow> scan" where
  "hex_number s = hex_loop (s\<lparr>ival := 0\<rparr>)"

function binary_loop :: "scan \<Rightarrow> scan" where
  "binary_loop s =
     (let s1 = next_ch (s\<lparr>ival := 2 * ival s + word_of_int (ch s) - 48\<rparr>) in
      if 48 \<le> ch s1 \<and> ch s1 \<le> 49 \<and> ch s1 \<noteq> CH_EOF then binary_loop s1 else s1)"
  by pat_completeness auto
termination
  by (relation "measure unread") (auto simp: Let_def intro: unread_step)

definition binary_number :: "scan \<Rightarrow> scan" where
  "binary_number s = binary_loop (s\<lparr>ival := 0\<rparr>)"

text \<open>One round of the loop of \<open>string\<close>: an escaped character is kept with its backslash.\<close>

definition string_step :: "scan \<Rightarrow> scan" where
  "string_step s =
     (if ch s = 92 then
        (let s1 = next_ch (store_ch s)
         in if ch s1 \<noteq> CH_EOF \<and> length (ident s1) < IdLen then store_ch s1 else s1)
      else store_ch s)"

function string_loop :: "scan \<Rightarrow> scan" where
  "string_loop s =
     (let s1 = next_ch (string_step s) in
      if ch s1 \<noteq> 34 \<and> ch s1 \<noteq> CH_EOF \<and> length (ident s1) < IdLen then string_loop s1 else s1)"
  by pat_completeness auto
termination
proof (relation "measure unread")
  fix s s1
  assume s1: "s1 = next_ch (string_step s)"
    and *: "ch s1 \<noteq> 34 \<and> ch s1 \<noteq> CH_EOF \<and> length (ident s1) < IdLen"
  have "unread (string_step s) \<le> unread s"
    using unread_next_le [of "store_ch s"] by (simp add: string_step_def Let_def)
  with * unread_next_less [of "string_step s"] show "(s1, s) \<in> measure unread" by (simp add: s1)
qed simp

definition string_const :: "scan \<Rightarrow> scan" where
  "string_const s = next_ch (end_id (string_loop (s\<lparr>ident := []\<rparr>)))"

function charconst_loop :: "scan \<Rightarrow> scan" where
  "charconst_loop s =
     (let s1 = next_ch (s\<lparr>ival := push_bit 8 (ival s) OR word_of_int (ch s)\<rparr>) in
      if ch s1 \<noteq> 39 \<and> ch s1 \<noteq> CH_EOF then charconst_loop s1 else s1)"
  by pat_completeness auto
termination
  by (relation "measure unread") (auto simp: Let_def intro: unread_step)

definition charconst :: "scan \<Rightarrow> scan" where
  "charconst s = next_ch (charconst_loop (s\<lparr>ival := 0\<rparr>))"

text \<open>\<open>while (ch != CH_EOF && p(ch)) next();\<close>, storing the characters or not.\<close>

function skip :: "(int \<Rightarrow> bool) \<Rightarrow> scan \<Rightarrow> scan" where
  "skip p s = (if ch s \<noteq> CH_EOF \<and> p (ch s) then skip p (next_ch s) else s)"
  by pat_completeness auto
termination
  by (relation "measure (left \<circ> snd)") (auto intro: left_next_less)

function store_while :: "(int \<Rightarrow> bool) \<Rightarrow> scan \<Rightarrow> scan" where
  "store_while p s = (if ch s \<noteq> CH_EOF \<and> p (ch s) then store_while p (next_ch (store_ch s)) else s)"
  by pat_completeness auto
termination
  by (relation "measure (left \<circ> snd)") (auto intro: left_next_store)

declare ident_loop.simps [simp del] number_loop.simps [simp del] hex_loop.simps [simp del]
  binary_loop.simps [simp del] string_loop.simps [simp del] charconst_loop.simps [simp del]
  skip.simps [simp del] store_while.simps [simp del]

definition comment :: "scan \<Rightarrow> scan" where
  "comment s =
     (let s1 = skip (\<lambda>c. c = 32) (skip (\<lambda>c. c = 59) s);
          s2 = store_while (\<lambda>c. c \<noteq> 10) (s1\<lparr>ident := []\<rparr>);
          s3 = (if ch s2 = 10 then next_ch s2 else s2)
      in end_id s3)"

lemma left_skip [simp]: "left (skip p s) \<le> left s"
  by (induction p s rule: skip.induct)
    (subst skip.simps, auto intro: le_trans [OF _ left_next])

lemma unread_skip: "unread (skip p s) \<le> unread s \<and> (ch (skip p s) \<noteq> CH_EOF \<longrightarrow> ch s \<noteq> CH_EOF)"
proof (induction p s rule: skip.induct)
  case (1 p s)
  then show ?case
    by (subst (1 2) skip.simps) (auto intro: le_trans [OF _ unread_next_le])
qed

text \<open>
  \<open>oberon_comment\<close>: called on the star. A star that does not close the comment starts a recursive
  call, and every call reads one character more at its end.
\<close>

function oberon_comment :: "scan \<Rightarrow> scan" where
  "oberon_comment s =
     (let s1 = skip (\<lambda>c. c \<noteq> 42) (next_ch s) in
      next_ch
        (if ch s1 \<noteq> CH_EOF then
           (if ch (next_ch s1) \<noteq> 41 then oberon_comment (next_ch s1) else next_ch s1)
         else s1))"
  by pat_completeness auto
termination
proof (relation "measure unread")
  fix s s1
  assume s1: "s1 = skip (\<lambda>c. c \<noteq> 42) (next_ch s)" and eof: "ch s1 \<noteq> CH_EOF"
  then have "ch (next_ch s) \<noteq> CH_EOF" using unread_skip by blast
  then have "unread (next_ch s) < unread s" by (rule unread_next_less)
  moreover have "unread s1 \<le> unread (next_ch s)" using unread_skip by (simp add: s1)
  moreover have "unread (next_ch s1) \<le> unread s1" by simp
  ultimately show "(next_ch s1, s) \<in> measure unread" unfolding in_measure by linarith
qed simp

declare oberon_comment.simps [simp del]

subsection \<open>Symbols\<close>

definition tok :: "symbol \<Rightarrow> scan \<Rightarrow> scan" where
  "tok x s = s\<lparr>sym := x\<rparr>"

text \<open>\<open>if (ch == c) { next(); yes } else no\<close>\<close>

definition alt :: "char \<Rightarrow> (scan \<Rightarrow> scan) \<Rightarrow> (scan \<Rightarrow> scan) \<Rightarrow> scan \<Rightarrow> scan" where
  "alt c yes no s = (if ch s = of_char c then yes (next_ch s) else no s)"

text \<open>Below \<open>0\<close>. \<open>!\<close> reads the character after it also when that is not \<open>=\<close>.\<close>

definition scan_punct :: "scan \<Rightarrow> scan" where
  "scan_punct s =
     (if ch s = 10 then tok sSTATESEP (next_ch s)
      else if ch s = 33 then alt CHR ''='' (tok sNEQ) (\<lambda>s. tok sNOT (next_ch s)) (next_ch s)
      else if ch s = 35 then tok sHASH (next_ch s)
      else if ch s = 36 then tok sINTEGER (hex_number (next_ch s))
      else if ch s = 37 then
        alt CHR ''='' (tok sMOD_ASN)
          (\<lambda>s. if ch s = 48 \<or> ch s = 49 then tok sINTEGER (binary_number s) else tok sMOD s) (next_ch s)
      else if ch s = 38 then
        alt CHR ''='' (tok sAND_ASN) (alt CHR ''&'' (tok sLAND) (tok sAMPERSAND)) (next_ch s)
      else if ch s = 40 then
        (let s1 = next_ch s in
         if ch s1 = 42 then tok sNULL (oberon_comment s1) else tok sLPAREN s1)
      else if ch s = 41 then tok sRPAREN (next_ch s)
      else if ch s = 42 then
        (if col s = 1 then tok sNULL (comment s)
         else alt CHR ''='' (tok sMUL_ASN) (tok sAST) (next_ch s))
      else if ch s = 43 then
        alt CHR ''='' (tok sADD_ASN) (alt CHR ''+'' (tok sINCOP) (tok sPLUS)) (next_ch s)
      else if ch s = 44 then tok sCOMMA (next_ch s)
      else if ch s = 45 then
        alt CHR ''='' (tok sSUB_ASN) (alt CHR ''-'' (tok sDECOP) (tok sMINUS)) (next_ch s)
      else if ch s = 46 then
        alt CHR ''.'' (alt CHR ''.'' (tok sELLIPSIS) (tok sDOTDOT)) (tok sPERIOD) (next_ch s)
      else if ch s = 47 then tok sSLASH (next_ch s)
      else if ch s = 34 then tok sSTRING (string_const (next_ch s))
      else if ch s = 39 then tok sCHAR (charconst (next_ch s))
      else tok sNULL (next_ch s))"

text \<open>From \<open>0\<close> to \<open>@\<close>.\<close>

definition scan_middle :: "scan \<Rightarrow> scan" where
  "scan_middle s =
     (if ch s \<le> 57 then number_sym s
      else if ch s = 58 then alt CHR ''='' (tok sBECOMES) (tok sCOLON) (next_ch s)
      else if ch s = 59 then tok sSTATESEP (comment s)
      else if ch s = 60 then
        alt CHR ''='' (tok sLEQ)
          (alt CHR ''<'' (alt CHR ''='' (tok sLEFT_ASN) (tok sLEFT_SHIFT)) (tok sLSS)) (next_ch s)
      else if ch s = 61 then alt CHR ''='' (tok sEQL) (tok sBECOMES) (next_ch s)
      else if ch s = 62 then
        alt CHR ''='' (tok sGEQ)
          (alt CHR ''>'' (alt CHR ''='' (tok sRIGHT_ASN) (tok sRIGHT_SHIFT)) (tok sGTR)) (next_ch s)
      else if ch s = 63 then tok sQUESTION (next_ch s)
      else tok sNULL (next_ch s))"

text \<open>From \<open>A\<close> on.\<close>

definition scan_letter :: "scan \<Rightarrow> scan" where
  "scan_letter s =
     (if ch s < 97 then
        (if ch s \<le> 90 then ident_sym s
         else if ch s = 91 then tok sLSQ (next_ch s)
         else if ch s = 93 then tok sRSQ (next_ch s)
         else if ch s = 95 then ident_sym s
         else if ch s = 94 then alt CHR ''='' (tok sXOR_ASN) (tok sCARET) (next_ch s)
         else tok sNULL (next_ch s))
      else if ch s \<le> 122 then ident_sym s
      else if ch s = 123 then tok sBLOCKSTART (next_ch s)
      else if ch s = 124 then
        alt CHR ''='' (tok sOR_ASN) (alt CHR ''|'' (tok sLOR) (tok sBARC)) (next_ch s)
      else if ch s = 125 then tok sBLOCKEND (next_ch s)
      else if ch s = 126 then tok sTILDE (next_ch s)
      else tok sNULL (next_ch s))"

text \<open>One round of the loop of \<open>scanner_get\<close>.\<close>

definition scan_one :: "scan \<Rightarrow> scan" where
  "scan_one s0 =
     (let s = skip (\<lambda>c. c \<noteq> 10 \<and> c \<le> 32) s0 in
      if ch s = CH_EOF then next_ch (tok sEOF s)
      else if ch s < 65 then (if ch s < 48 then scan_punct s else scan_middle s)
      else scan_letter s)"

subsection \<open>Every round consumes\<close>

lemma left_tok [simp]: "left (tok x s) = left s"
  by (simp add: tok_def)

lemma left_next_unread: "left (next_ch s) \<le> unread s"
  using left_next_le [of s] by (simp add: unread_def)

lemma unread_left: "unread s \<le> left s"
  by (simp add: unread_def left_def)

lemma unread_left_less: "ch s \<noteq> CH_EOF \<Longrightarrow> unread s < left s"
  by (simp add: unread_def left_def)

text \<open>A loop that starts with \<open>next\<close>, and goes on only before the end.\<close>

lemma left_do_while:
  assumes "\<And>s. loop s = (let s1 = next_ch (f s) in if p s1 then loop s1 else s1)"
    and "\<And>s. unread (f s) \<le> unread s" "\<And>s. p s \<Longrightarrow> ch s \<noteq> CH_EOF"
  shows "left (loop s) \<le> unread s"
proof (induction s rule: measure_induct_rule [of unread])
  case (less s)
  let ?s1 = "next_ch (f s)"
  have le: "left ?s1 \<le> unread s" using left_next_unread [of "f s"] assms(2) [of s] by simp
  show ?case
  proof (cases "p ?s1")
    case True
    with assms(3) have "unread ?s1 < unread s"
      using unread_next_less [of "f s"] assms(2) [of s] by fastforce
    from less [OF this] this True show ?thesis by (subst assms(1)) (simp add: Let_def)
  qed (use le in \<open>subst assms(1), simp add: Let_def\<close>)
qed

lemma left_loops:
  "left (ident_loop s) \<le> unread s" "left (number_loop s) \<le> unread s" "left (hex_loop s) \<le> unread s"
  "left (binary_loop s) \<le> unread s" "left (string_loop s) \<le> unread s" "left (charconst_loop s) \<le> unread s"
proof -
  have step: "unread (string_step s) \<le> unread s" for s
    using unread_next_le [of "store_ch s"] by (simp add: string_step_def Let_def)
  show "left (ident_loop s) \<le> unread s"
    by (rule left_do_while [OF ident_loop.simps]) auto
  show "left (number_loop s) \<le> unread s"
    by (rule left_do_while [OF number_loop.simps]) auto
  show "left (hex_loop s) \<le> unread s"
    by (rule left_do_while [OF hex_loop.simps]) auto
  show "left (binary_loop s) \<le> unread s"
    by (rule left_do_while [OF binary_loop.simps]) auto
  show "left (string_loop s) \<le> unread s"
    by (rule left_do_while [OF string_loop.simps step]) auto
  show "left (charconst_loop s) \<le> unread s"
    by (rule left_do_while [OF charconst_loop.simps]) auto
qed

lemma left_numbers:
  "left (ident_sym s) \<le> unread s" "left (number_sym s) \<le> unread s" "left (hex_number s) \<le> unread s"
  "left (binary_number s) \<le> unread s" "left (string_const s) \<le> unread s" "left (charconst s) \<le> unread s"
  using left_loops(1) [of "s\<lparr>ident := []\<rparr>"] left_loops(2,3,4,6) [of "s\<lparr>ival := 0\<rparr>"]
    left_loops(5) [of "s\<lparr>ident := []\<rparr>"] left_next [of "end_id (string_loop (s\<lparr>ident := []\<rparr>))"]
    left_next [of "charconst_loop (s\<lparr>ival := 0\<rparr>)"]
  by (auto simp: ident_sym_def number_sym_def hex_number_def binary_number_def string_const_def
      charconst_def Let_def split: prod.split simp del: left_next)

lemma left_store_while: "left (store_while p s) \<le> left s"
proof (induction p s rule: store_while.induct)
  case (1 p s)
  then show ?case
    using left_next [of "store_ch s"] by (subst store_while.simps) (auto simp del: left_next)
qed

lemma left_oberon: "left (oberon_comment s) \<le> unread s"
proof (induction s rule: oberon_comment.induct)
  case (1 s)
  define s1 where "s1 = skip (\<lambda>c. c \<noteq> 42) (next_ch s)"
  have s1: "left s1 \<le> unread s"
    using left_next_unread [of s] left_skip [of _ "next_ch s"] unfolding s1_def by (meson order_trans)
  have rest: "left (if ch (next_ch s1) \<noteq> 41 then oberon_comment (next_ch s1) else next_ch s1) \<le> unread s"
    if "ch s1 \<noteq> CH_EOF"
  proof -
    have "left (next_ch s1) \<le> unread s" using s1 left_next [of s1] by linarith
    moreover have "left (oberon_comment (next_ch s1)) \<le> unread s" if "ch (next_ch s1) \<noteq> 41"
      using 1 [OF s1_def \<open>ch s1 \<noteq> CH_EOF\<close> that] unread_left [of "next_ch s1"] calculation by linarith
    ultimately show ?thesis by simp
  qed
  show ?case
    unfolding oberon_comment.simps [of s] s1_def [symmetric] Let_def
    using s1 rest by (auto intro: order_trans [OF left_next])
qed

lemma left_alt:
  "(\<And>t. left (yes t) \<le> left t) \<Longrightarrow> (\<And>t. left (no t) \<le> left t) \<Longrightarrow> left (alt c yes no s) \<le> left s"
  by (auto simp: alt_def intro: order_trans [OF _ left_next])

lemma left_after_next:
  "left (f (next_ch s)) \<le> left (next_ch s) \<Longrightarrow> left (f (next_ch s)) \<le> unread s"
  using left_next_unread [of s] by linarith

lemma left_le:
  "left (ident_sym s) \<le> left s" "left (number_sym s) \<le> left s" "left (hex_number s) \<le> left s"
  "left (binary_number s) \<le> left s" "left (string_const s) \<le> left s" "left (charconst s) \<le> left s"
  "left (oberon_comment s) \<le> left s"
  using left_numbers left_oberon by (meson order_trans unread_left)+

text \<open>A comment is called on a character that it skips or stores.\<close>

lemma left_comment:
  assumes "ch s = 59 \<or> ch s = 42" shows "left (comment s) \<le> unread s"
proof -
  define s1 where "s1 = skip (\<lambda>c. c = 32) (skip (\<lambda>c. c = 59) s)"
  define s2 where "s2 = store_while (\<lambda>c. c \<noteq> 10) (s1\<lparr>ident := []\<rparr>)"
  have "left s2 \<le> unread s"
  proof (cases "ch s = 59")
    case True
    then have "skip (\<lambda>c. c = 59) s = skip (\<lambda>c. c = 59) (next_ch s)"
      by (subst skip.simps) (simp add: CH_EOF_def)
    then have "left s1 \<le> left (next_ch s)"
      unfolding s1_def by (metis left_skip order_trans)
    then show ?thesis
      using left_store_while [of "\<lambda>c. c \<noteq> 10" "s1\<lparr>ident := []\<rparr>"] left_next_unread [of s]
      by (simp add: s2_def)
  next
    case False
    with assms have ch: "ch s = 42" by simp
    then have "skip (\<lambda>c. c = 59) s = s" "skip (\<lambda>c. c = 32) s = s"
      by (subst skip.simps, simp)+
    then have "s2 = store_while (\<lambda>c. c \<noteq> 10) (next_ch (store_ch (s\<lparr>ident := []\<rparr>)))"
      using ch unfolding s2_def s1_def by (subst store_while.simps) (simp add: CH_EOF_def)
    then show ?thesis
      using left_store_while [of "\<lambda>c. c \<noteq> 10" "next_ch (store_ch (s\<lparr>ident := []\<rparr>))"]
        left_next_unread [of "store_ch (s\<lparr>ident := []\<rparr>)"] by simp
  qed
  then show ?thesis
    using left_next [of s2]
    by (simp add: comment_def Let_def s1_def [symmetric] s2_def [symmetric] del: left_next)
qed

lemma left_scan_punct: "left (scan_punct s) \<le> unread s"
proof -
  note steps = left_next_unread left_comment left_after_next [where f = "\<lambda>s. alt _ _ _ s"]
  show ?thesis
    unfolding scan_punct_def Let_def
    by (auto intro!: steps left_alt left_after_next [where f = hex_number]
        left_after_next [where f = string_const] left_after_next [where f = charconst]
        left_after_next [where f = oberon_comment] left_le
        simp: left_next_unread)
qed

lemma left_scan_middle: "left (scan_middle s) \<le> unread s"
proof -
  note steps = left_next_unread left_comment left_after_next [where f = "\<lambda>s. alt _ _ _ s"]
  show ?thesis
    unfolding scan_middle_def
    by (auto intro!: steps left_alt left_numbers simp: left_next_unread)
qed

lemma left_scan_letter: "left (scan_letter s) \<le> unread s"
proof -
  note steps = left_next_unread left_after_next [where f = "\<lambda>s. alt _ _ _ s"]
  show ?thesis
    unfolding scan_letter_def
    by (auto intro!: steps left_alt left_numbers simp: left_next_unread)
qed

lemma sym_tok [simp]: "sym (tok x s) = x"
  by (simp add: tok_def)

lemma sym_next [simp]: "sym (next_ch s) = sym s"
  by (simp add: next_ch_def Let_def split: prod.split)

lemma scan_one_progress: "left (scan_one s) < left s \<or> sym (scan_one s) = sEOF"
proof -
  define s1 where "s1 = skip (\<lambda>c. c \<noteq> 10 \<and> c \<le> 32) s"
  have le: "left s1 \<le> left s" by (simp add: s1_def)
  show ?thesis
  proof (cases "ch s1 = CH_EOF")
    case False
    then have "unread s1 < left s1" by (rule unread_left_less)
    then show ?thesis
      using False le left_scan_punct [of s1] left_scan_middle [of s1] left_scan_letter [of s1]
      by (auto simp: scan_one_def Let_def s1_def [symmetric])
  qed (simp add: scan_one_def Let_def s1_def [symmetric])
qed

function scanner_get :: "scan \<Rightarrow> scan" where
  "scanner_get s = (let s1 = scan_one s in if sym s1 = sNULL then scanner_get s1 else s1)"
  by pat_completeness auto
termination
proof (relation "measure left")
  fix s s1
  assume "s1 = scan_one s" "sym s1 = sNULL"
  then show "(s1, s) \<in> measure left" using scan_one_progress [of s] by auto
qed simp

declare scanner_get.simps [simp del]

definition scanner_start :: "scan \<Rightarrow> scan" where
  "scanner_start s = next_ch (s\<lparr>col := 0\<rparr>)"

end
