(* ===== verification/Scanning.thy ===== *)
theory Scanning
  imports Scanner
begin

text \<open>
  What the scanner recognises: every input is read to its end, keywords are found by the binary
  search, numbers have the value they are written with, and which inputs leave the arrays.
\<close>

subsection \<open>Every input comes to an end\<close>

lemma scanner_get_progress: "left (scanner_get s) < left s \<or> sym (scanner_get s) = sEOF"
proof (induction s rule: scanner_get.induct)
  case (1 s)
  show ?case
  proof (cases "sym (scan_one s) = sNULL")
    case True
    with 1 scan_one_progress [of s] show ?thesis by (subst (1 2) scanner_get.simps) auto
  next
    case False
    with scan_one_progress [of s] show ?thesis by (subst (1 2) scanner_get.simps) auto
  qed
qed

text \<open>
  C26. Whatever the characters are, calling \<open>scanner_get\<close> again and again yields the end-of-file
  symbol, after at most one call more than there are characters left.
\<close>

theorem scanner_reaches_eof: "\<exists>n\<le>left s. sym ((scanner_get ^^ Suc n) s) = sEOF"
proof (induction s rule: measure_induct_rule [of left])
  case (less s)
  show ?case
  proof (cases "sym (scanner_get s) = sEOF")
    case False
    then have lt: "left (scanner_get s) < left s" using scanner_get_progress [of s] by simp
    from less [OF lt] obtain n where n: "n \<le> left (scanner_get s)"
      "sym ((scanner_get ^^ Suc n) (scanner_get s)) = sEOF" by blast
    have "(scanner_get ^^ Suc (Suc n)) s = (scanner_get ^^ Suc n) (scanner_get s)"
      by (simp only: funpow_Suc_right comp_apply)
    with n lt show ?thesis by (intro exI [of _ "Suc n"]) simp
  qed (auto intro!: exI [of _ 0])
qed

subsection \<open>Keywords\<close>

lemma strcasecmp_lower:
  "strcasecmp a b < 0 \<longleftrightarrow> map to_lower a < map to_lower b"
  "strcasecmp a b = 0 \<longleftrightarrow> map to_lower a = map to_lower b"
  by (induction a b rule: strcasecmp.induct) auto

definition low_key :: "string list" where
  "low_key = map (map to_lower) key"

fun rising :: "'a::ord list \<Rightarrow> bool" where
  "rising (x # y # zs) \<longleftrightarrow> x < y \<and> rising (y # zs)"
| "rising _ \<longleftrightarrow> True"

lemma rising_sorted: "rising xs \<Longrightarrow> sorted_wrt (<) (xs :: 'a::order list)"
  by (induction xs rule: rising.induct) (auto intro: less_trans)

text \<open>The keywords are in the order of \<open>strcasecmp\<close>.\<close>

lemma rising_key: "rising low_key"
  unfolding low_key_def key_def by (simp add: token_defs) code_simp

lemma length_low_key: "length low_key = NofKeys"
  using K_NofKeys by (simp add: low_key_def K_def)

lemma low_key_less: "i < j \<Longrightarrow> j < NofKeys \<Longrightarrow> low_key ! i < low_key ! j"
  using rising_sorted [OF rising_key] by (simp add: sorted_wrt_iff_nth_less length_low_key)

lemma low_key_nth: "k < NofKeys \<Longrightarrow> low_key ! k = map to_lower (key ! k)"
  using length_low_key by (simp add: low_key_def)

text \<open>The search stops at the first keyword that is not smaller.\<close>

lemma key_search_stops:
  assumes "i \<le> j" "j \<le> NofKeys" "\<forall>k<i. low_key ! k < map to_lower w"
    and "\<forall>k. j \<le> k \<and> k < NofKeys \<longrightarrow> map to_lower w \<le> low_key ! k"
  shows "key_search i j w \<le> NofKeys \<and> (\<forall>k<key_search i j w. low_key ! k < map to_lower w) \<and>
    (\<forall>k. key_search i j w \<le> k \<and> k < NofKeys \<longrightarrow> map to_lower w \<le> low_key ! k)"
  using assms
proof (induction i j w rule: key_search.induct)
  case (1 i j w)
  show ?case
  proof (cases "i < j")
    case False
    with 1(3-) show ?thesis by (subst (1 2 3) key_search.simps) auto
  next
    case True
    let ?m = "(i + j) div 2"
    have m: "i \<le> ?m" "?m < j" using True by auto
    with 1(4) have key: "low_key ! ?m = map to_lower (key ! ?m)" by (simp add: low_key_nth)
    show ?thesis
    proof (cases "strcasecmp (key ! ?m) w < 0")
      case less: True
      then have lt: "low_key ! ?m < map to_lower w" by (simp add: key strcasecmp_lower)
      have "\<forall>k<?m + 1. low_key ! k < map to_lower w"
      proof (intro allI impI)
        fix k assume "k < ?m + 1"
        with lt low_key_less [of k ?m] m 1(4) show "low_key ! k < map to_lower w"
          by (cases "k = ?m") (auto intro: less_trans)
      qed
      with 1(1) [OF True refl less] 1(4-) m less True show ?thesis
        by (subst (1 2 3) key_search.simps) (simp add: Let_def)
    next
      case False
      then have le: "map to_lower w \<le> low_key ! ?m" by (simp add: key strcasecmp_lower not_less)
      have "\<forall>k. ?m \<le> k \<and> k < NofKeys \<longrightarrow> map to_lower w \<le> low_key ! k"
      proof (intro allI impI)
        fix k assume "?m \<le> k \<and> k < NofKeys"
        with le low_key_less [of ?m k] show "map to_lower w \<le> low_key ! k"
          by (cases "k = ?m") auto
      qed
      with 1(2) [OF True refl False] 1(4-) m False True show ?thesis
        by (subst (1 2 3) key_search.simps) (simp add: Let_def)
    qed
  qed
qed

definition reserved :: "symbol \<Rightarrow> bool" where
  "reserved k \<longleftrightarrow> is_instr k \<or> is_asm_keyword k \<or> is_directive k"

text \<open>The characters \<open>ident\<close> collects.\<close>

definition ident_char :: "char \<Rightarrow> bool" where
  "ident_char c \<longleftrightarrow> is_ident_char (int (of_char c))"

lemma word_before_sentinel:
  assumes "list_all ident_char w" shows "map to_lower w < low_key ! 201"
proof -
  have "to_lower c < CHR ''~''" if "ident_char c" for c
    using that
    by (auto simp: ident_char_def is_ident_char_def is_digit_def is_upper_def is_lower_def to_lower_def
        less_char_def)
  moreover have "low_key ! 201 = ''~''"
    by (simp add: low_key_nth NofKeys_def key_def nth_append length_as_tokens) code_simp
  ultimately show ?thesis using assms by (cases w) auto
qed

text \<open>
  C19. For every word made of letters, digits and underscores the binary search agrees with a
  search through the whole table: the word is the instruction, directive or assembler keyword it
  is spelt like, in whatever case, and otherwise an identifier. It reads within the table.
\<close>

theorem keyword_finds:
  assumes "list_all ident_char w"
  shows "keyword w =
    (case List.find (\<lambda>k. same_nocase (key ! k) w \<and> reserved k) [0..<201] of
       Some k \<Rightarrow> (k, False) | None \<Rightarrow> (sIDENT, False))"
proof -
  define r where "r = key_search 0 NofKeys w"
  have r: "r \<le> NofKeys" "\<forall>k<r. low_key ! k < map to_lower w"
    "\<forall>k. r \<le> k \<and> k < NofKeys \<longrightarrow> map to_lower w \<le> low_key ! k"
  proof -
    have "r \<le> NofKeys \<and> (\<forall>k<r. low_key ! k < map to_lower w) \<and>
      (\<forall>k. r \<le> k \<and> k < NofKeys \<longrightarrow> map to_lower w \<le> low_key ! k)"
      unfolding r_def by (rule key_search_stops) auto
    then show "r \<le> NofKeys" "\<forall>k<r. low_key ! k < map to_lower w"
      "\<forall>k. r \<le> k \<and> k < NofKeys \<longrightarrow> map to_lower w \<le> low_key ! k" by simp_all
  qed
  then have r201: "r \<le> 201"
    using word_before_sentinel [OF assms] by (metis NofKeys_def not_less_iff_gr_or_eq not_le)
  have here: "k = r" if "k < NofKeys" "same_nocase (key ! k) w" for k
  proof -
    have eq: "low_key ! k = map to_lower w" using that by (simp add: low_key_nth same_nocase_def)
    with r(2) have "r \<le> k" by (metis not_less less_irrefl)
    moreover have "\<not> r < k" using low_key_less [of r k] r(3) that(1) eq by (metis leD le_refl less_trans)
    ultimately show ?thesis by simp
  qed
  have sentinel: "\<not> same_nocase (key ! 201) w"
    using word_before_sentinel [OF assms] by (simp add: same_nocase_def low_key_nth NofKeys_def)
  have found: "List.find (\<lambda>k. same_nocase (key ! k) w \<and> reserved k) [0..<201] =
      (if same_nocase (key ! r) w \<and> reserved r then Some r else None)"
  proof (cases "same_nocase (key ! r) w \<and> reserved r")
    case True
    with r201 sentinel have "r < 201" by (cases "r = 201") auto
    moreover have "\<not> same_nocase (key ! j) w" if "j < r" for j
      using here [of j] that r201 by (auto simp: NofKeys_def)
    ultimately show ?thesis using True by (auto simp: find_Some_iff intro!: exI [of _ r])
  next
    case False
    moreover have "k = r" if "k < 201" "same_nocase (key ! k) w" for k
      using here [of k] that by (simp add: NofKeys_def)
    ultimately show ?thesis by (auto simp: find_None_iff)
  qed
  have sym: "symno ! r = r" if "r < 201"
    using that by (simp add: symno_def nth_append length_as_tokens)
  have "r < NofKeys" using r201 by (simp add: NofKeys_def)
  then have "keyword w = (if same_nocase (key ! r) w \<and> reserved r then (symno ! r, False) else (sIDENT, False))"
    unfolding keyword_def Let_def r_def [symmetric]
    by (simp add: strcasecmp_lower same_nocase_def reserved_def)
  with r201 found sentinel sym show ?thesis by (cases "r = 201") auto
qed

lemma keyword_finds_witness: "keyword ''LdA'' = (sLDA, False) \<and> keyword ''begin'' = (sIDENT, False)"
proof -
  have "list_all ident_char ''LdA''" "list_all ident_char ''begin''" by code_simp+
  note found = this [THEN keyword_finds]
  have "List.find (\<lambda>k. same_nocase (key ! k) ''LdA'' \<and> reserved k) [0..<201] = Some sLDA"
    by code_simp
  moreover have "List.find (\<lambda>k. same_nocase (key ! k) ''begin'' \<and> reserved k) [0..<201] = None"
    by code_simp
  ultimately show ?thesis by (simp add: found)
qed

subsection \<open>Reading a known text\<close>

text \<open>
  The scanner is at the first character of \<open>cs\<close>, which is ordinary text without carriage returns.
\<close>

definition reads :: "scan \<Rightarrow> int list \<Rightarrow> bool" where
  "reads s cs \<longleftrightarrow>
     (case cs of [] \<Rightarrow> ch s = CH_EOF \<and> pending (files s) = []
      | d # ds \<Rightarrow> ch s = d \<and> pending (files s) = ds) \<and> text_only cs \<and> 13 \<notin> set cs"

lemma reads_ch: "reads s (c # cs) \<Longrightarrow> ch s = c"
  by (simp add: reads_def)

lemma reads_fields [simp]:
  "reads (s\<lparr>ident := x\<rparr>) cs = reads s cs" "reads (s\<lparr>ival := n\<rparr>) cs = reads s cs"
  "reads (s\<lparr>sym := y\<rparr>) cs = reads s cs" "reads (s\<lparr>overrun := b\<rparr>) cs = reads s cs"
  by (simp_all add: reads_def split: list.split)

lemma reads_store [simp]: "reads (store_ch s) cs = reads s cs" "reads (end_id s) cs = reads s cs"
  by (simp_all add: store_ch_def end_id_def)

lemma next_ch_files: "ch (next_ch s) = fst (if fst (bf_next (files s)) = 13 then bf_next (snd (bf_next (files s))) else bf_next (files s))"
  "files (next_ch s) = snd (if fst (bf_next (files s)) = 13 then bf_next (snd (bf_next (files s))) else bf_next (files s))"
  by (simp_all add: next_ch_def Let_def split: prod.split)

lemma reads_next:
  assumes "reads s (c # cs)" shows "reads (next_ch s) cs"
proof -
  have p: "pending (files s) = cs" "text_only cs" "13 \<notin> set cs"
    using assms by (auto simp: reads_def text_only_def)
  have n: "case cs of [] \<Rightarrow> fst (bf_next (files s)) = CH_EOF
      | c # cs \<Rightarrow> fst (bf_next (files s)) = c \<and> c \<noteq> CH_EOF \<and> pending (snd (bf_next (files s))) = cs"
    using bf_next_text [of "files s"] p by simp
  show ?thesis
  proof (cases cs)
    case Nil
    with n have "fst (bf_next (files s)) = CH_EOF" by simp
    moreover from this have "snd (bf_next (files s)) = []" using bf_next_left by blast
    ultimately show ?thesis
      using Nil by (simp add: reads_def next_ch_files CH_EOF_def pending_def text_only_def)
  next
    case (Cons d ds)
    with n p show ?thesis by (simp add: reads_def next_ch_files)
  qed
qed

lemma next_keeps [simp]:
  "ival (next_ch s) = ival s" "ident (next_ch s) = ident s" "overrun (next_ch s) = overrun s"
  by (simp_all add: next_ch_def Let_def split: prod.split)

subsection \<open>Numbers\<close>

fun horner :: "u32 \<Rightarrow> u32 \<Rightarrow> u32 list \<Rightarrow> u32" where
  "horner b v [] = v"
| "horner b v (d # ds) = horner b (b * v + d) ds"

lemma number_loop_reads:
  assumes "reads s (ds @ e # cs)" "ds \<noteq> []" "list_all is_digit ds" "\<not> is_digit e"
  shows "reads (number_loop s) (e # cs) \<and>
    ival (number_loop s) = horner 10 (ival s) (map (\<lambda>d. word_of_int (d - 48)) ds)"
  using assms
proof (induction ds arbitrary: s)
  case (Cons d ds)
  define s1 where "s1 = next_ch (s\<lparr>ival := 10 * ival s + word_of_int (ch s) - 48\<rparr>)"
  have d: "ch s = d" using Cons.prems(1) by (simp add: reads_ch)
  have s1: "reads s1 (ds @ e # cs)" "ival s1 = 10 * ival s + word_of_int (d - 48)"
    using Cons.prems(1) by (simp_all add: s1_def d reads_next)
  have loop: "number_loop s = (if is_digit (ch s1) \<and> ch s1 \<noteq> CH_EOF then number_loop s1 else s1)"
    by (subst number_loop.simps) (simp add: s1_def Let_def)
  show ?case
  proof (cases ds)
    case Nil
    with s1 Cons.prems(4) loop show ?thesis by (simp add: reads_ch)
  next
    case (Cons d2 ds2)
    then have "ch s1 = d2" "is_digit d2" using s1 Cons.prems(3) by (auto simp: reads_def)
    then have "number_loop s = number_loop s1" using loop by (simp add: is_digit_def CH_EOF_def)
    with Cons.IH [OF s1(1)] Cons.prems Cons s1(2) show ?thesis by simp
  qed
qed simp

text \<open>The decimal digits of a number.\<close>

fun decimal :: "nat \<Rightarrow> int list" where
  "decimal n = (if n < 10 then [] else decimal (n div 10)) @ [48 + int (n mod 10)]"

declare decimal.simps [simp del]

lemma decimal_digits: "list_all is_digit (decimal n) \<and> decimal n \<noteq> []"
proof (induction n rule: decimal.induct)
  case (1 n)
  have "is_digit (48 + int (n mod 10))" by (simp add: is_digit_def)
  with 1 show ?case by (subst (1 2) decimal.simps) auto
qed

lemma horner_append: "horner b v (ds @ [d]) = b * horner b v ds + d"
  by (induction ds arbitrary: v) simp_all

lemma horner_decimal: "horner 10 0 (map (\<lambda>d. word_of_int (d - 48)) (decimal n)) = of_nat n"
proof (induction n rule: decimal.induct)
  case (1 n)
  have "(of_nat n :: u32) = 10 * of_nat (n div 10) + of_nat (n mod 10)"
    by (metis mult_div_mod_eq of_nat_add of_nat_mult of_nat_numeral)
  moreover have "(word_of_int (int (n mod 10)) :: u32) = of_nat (n mod 10)" by simp
  ultimately show ?case using 1 by (subst decimal.simps) (auto simp: horner_append)
qed

text \<open>
  C32. A decimal number followed by a character that is neither a digit nor a dot is scanned as an
  integer with its value, modulo the width of \<open>int\<close>, and scanning stops right behind it.
\<close>

theorem scan_decimal:
  assumes "reads s (decimal n @ e # cs)" "\<not> is_digit e" "e \<noteq> 46"
  shows "sym (scanner_get s) = sINTEGER \<and> ival (scanner_get s) = of_nat n \<and>
    reads (scanner_get s) (e # cs)"
proof -
  obtain d ds where d: "decimal n = d # ds" "is_digit d"
    using decimal_digits [of n] by (cases "decimal n") auto
  then have ch: "ch s = d" using assms(1) by (simp add: reads_def)
  have skip: "skip (\<lambda>c. c \<noteq> 10 \<and> c \<le> 32) s = s"
    using ch d(2) by (subst skip.simps) (simp add: is_digit_def)
  have loop: "reads (number_loop (s\<lparr>ival := 0\<rparr>)) (e # cs)" "ival (number_loop (s\<lparr>ival := 0\<rparr>)) = of_nat n"
    using number_loop_reads [of "s\<lparr>ival := 0\<rparr>" "decimal n" e cs] assms decimal_digits [of n]
      horner_decimal [of n] by simp_all
  have "scan_one s = number_sym s"
    using ch d(2) skip by (simp add: scan_one_def Let_def scan_middle_def is_digit_def CH_EOF_def)
  with loop assms(3) show ?thesis
    by (subst (1 2 3) scanner_get.simps) (simp add: number_sym_def Let_def reads_ch)
qed

text \<open>The scanner at the start of a text.\<close>

definition start_scan :: "string \<Rightarrow> scan" where
  "start_scan t =
     scanner_start \<lparr>files = bf_open (map of_char t) [], ch = 0, col = 0, ident = [], ival = 0, sym = sNULL,
                    overrun = False, line_overrun = False\<rparr>"

lemma scan_decimal_witness:
  "sym (scanner_get (start_scan ''1234,'')) = sINTEGER \<and> ival (scanner_get (start_scan ''1234,'')) = 1234"
proof -
  have "decimal 1234 = [49, 50, 51, 52]" by code_simp
  moreover have "reads (start_scan ''1234,'') [49, 50, 51, 52, 44]" by code_simp
  ultimately have "reads (start_scan ''1234,'') (decimal 1234 @ 44 # [])" by simp
  from scan_decimal [OF this] show ?thesis by (simp add: is_digit_def)
qed

subsection \<open>Comments and strings\<close>

lemma store_while_reads:
  assumes "reads s (ts @ e # cs)" "list_all p ts" "\<not> p e"
  shows "reads (store_while p s) (e # cs) \<and> ident (store_while p s) = ident s @ map char_of_int ts \<and>
    (overrun (store_while p s) \<longleftrightarrow> overrun s \<or> (ts \<noteq> [] \<and> IdLen < length (ident s) + length ts))"
  using assms
proof (induction ts arbitrary: s)
  case Nil
  then show ?case by (subst (1 2 3) store_while.simps) (simp add: reads_ch)
next
  case (Cons t ts)
  then have t: "ch s = t" "t \<noteq> CH_EOF" "p t" by (auto simp: reads_def text_only_def)
  then have "store_while p s = store_while p (next_ch (store_ch s))"
    by (subst store_while.simps) simp
  moreover have "reads (next_ch (store_ch s)) (ts @ e # cs)"
    using Cons.prems(1) by (intro reads_next) simp
  ultimately show ?case
    using Cons.IH [of "next_ch (store_ch s)"] Cons.prems
    by (cases ts) (auto simp: store_ch_def t)
qed

lemma skip_none: "reads s (c # cs) \<Longrightarrow> \<not> p c \<Longrightarrow> skip p s = s"
  by (subst skip.simps) (simp add: reads_ch)

text \<open>
  C33. A comment of fewer than 1024 characters is read into \<open>id\<close> and skipped with its line end. A
  longer one is written behind the array: \<open>comment\<close> has no check.
\<close>

theorem comment_fits:
  assumes "reads s (59 # t # ts @ 10 # cs)" "t \<notin> {10, 32, 59}" "10 \<notin> set ts"
  shows "(overrun (comment s) \<longleftrightarrow> overrun s \<or> IdLen \<le> length (t # ts)) \<and> reads (comment s) cs"
proof -
  have n: "reads (next_ch s) ((t # ts) @ 10 # cs)" using reads_next [OF assms(1)] by simp
  have "skip (\<lambda>c. c = 59) s = skip (\<lambda>c. c = 59) (next_ch s)"
    using reads_ch [OF assms(1)] by (subst skip.simps) (simp add: CH_EOF_def)
  also have "\<dots> = next_ch s" using n assms(2) by (intro skip_none [where c = t]) auto
  finally have skip: "skip (\<lambda>c. c = 32) (skip (\<lambda>c. c = 59) s) = next_ch s"
    using n assms(2) skip_none [where c = t and p = "\<lambda>c. c = 32"] by simp
  define s1 where "s1 = (next_ch s)\<lparr>ident := []\<rparr>"
  have s1: "reads s1 ((t # ts) @ 10 # cs)" "ident s1 = []" "overrun s1 = overrun s"
    using n by (simp_all add: s1_def)
  define s2 where "s2 = store_while (\<lambda>c. c \<noteq> 10) s1"
  have "list_all (\<lambda>c. c \<noteq> 10) (t # ts)" using assms(2,3) by (auto simp: list_all_iff)
  from store_while_reads [OF s1(1) this] s1(2,3)
  have s2: "reads s2 (10 # cs)" "length (ident s2) = length (t # ts)"
    "overrun s2 \<longleftrightarrow> overrun s \<or> IdLen < length (t # ts)"
    by (simp_all add: s2_def)
  have "comment s = end_id (next_ch s2)"
    using reads_ch [OF s2(1)] by (simp add: comment_def Let_def skip s1_def s2_def)
  with s2 reads_next [OF s2(1)] show ?thesis by (auto simp: end_id_def)
qed

lemma comment_fits_witness:
  "\<not> overrun (comment (start_scan '';note
''))"
proof -
  have "reads (start_scan '';note
'') (59 # 110 # [111, 116, 101] @ 10 # [])" by code_simp
  from comment_fits [OF this] show ?thesis by (simp add: IdLen_def start_scan_def scanner_start_def)
qed

lemma string_loop_reads:
  assumes "reads s (t # ts @ 34 # cs)" "t \<noteq> 92" "34 \<notin> set ts" "92 \<notin> set ts"
    and "length (ident s) + length ts + 1 < IdLen"
  shows "reads (string_loop s) (34 # cs) \<and> ident (string_loop s) = ident s @ map char_of_int (t # ts) \<and>
    overrun (string_loop s) = overrun s"
  using assms
proof (induction ts arbitrary: s t)
  case Nil
  define s1 where "s1 = next_ch (store_ch s)"
  have t: "ch s = t" using Nil.prems(1) by (simp add: reads_ch)
  have s1: "reads s1 (34 # cs)" using Nil.prems(1) by (simp add: s1_def reads_next)
  have "string_loop s = s1"
    using reads_ch [OF s1] Nil.prems(2) t
    by (subst string_loop.simps) (simp add: string_step_def Let_def s1_def)
  with s1 t Nil.prems(5) show ?case by (simp add: s1_def store_ch_def)
next
  case (Cons u ts)
  define s1 where "s1 = next_ch (store_ch s)"
  have t: "ch s = t" using Cons.prems(1) by (simp add: reads_ch)
  have s1: "reads s1 (u # ts @ 34 # cs)" using Cons.prems(1) by (simp add: s1_def reads_next)
  have i: "ident s1 = ident s @ [char_of_int t]" "overrun s1 = overrun s"
    using t Cons.prems(5) by (simp_all add: s1_def store_ch_def)
  have "u \<noteq> CH_EOF" using s1 by (auto simp: reads_def text_only_def)
  then have "string_loop s = string_loop s1"
    using reads_ch [OF s1] Cons.prems t i(1)
    by (subst string_loop.simps) (simp add: string_step_def Let_def s1_def [symmetric])
  with Cons.IH [OF s1] Cons.prems i show ?case by simp
qed

text \<open>
  A string constant without escapes is scanned to the characters between its quotes. The
  first character is taken whatever it is, so a second quote right behind the first does not end
  the string: \<open>""\<close> runs on to the next quote.
\<close>

theorem scan_string:
  assumes "reads s (34 # t # ts @ 34 # cs)" "t \<noteq> 92" "34 \<notin> set ts" "92 \<notin> set ts"
    and "length ts + 1 < IdLen" "CHR 0x00 \<notin> set (map char_of_int (t # ts))"
  shows "sym (scanner_get s) = sSTRING \<and> ident (scanner_get s) = map char_of_int (t # ts) \<and>
    reads (scanner_get s) cs \<and> overrun (scanner_get s) = overrun s"
proof -
  have skip: "skip (\<lambda>c. c \<noteq> 10 \<and> c \<le> 32) s = s"
    using assms(1) by (rule skip_none) simp
  define s1 where "s1 = (next_ch s)\<lparr>ident := []\<rparr>"
  have s1: "reads s1 (t # ts @ 34 # cs)" "ident s1 = []" "overrun s1 = overrun s"
    using reads_next [OF assms(1)] by (simp_all add: s1_def)
  from string_loop_reads [OF s1(1) assms(2-4)] assms(5) s1(2,3)
  have loop: "reads (string_loop s1) (34 # cs)" "ident (string_loop s1) = map char_of_int (t # ts)"
    "overrun (string_loop s1) = overrun s"
    by simp_all
  have "takeWhile (\<lambda>c. c \<noteq> CHR 0x00) (map char_of_int (t # ts)) = map char_of_int (t # ts)"
    using assms(6) by (subst takeWhile_eq_all_conv) metis
  then have "ident (string_const (next_ch s)) = map char_of_int (t # ts)"
    "reads (string_const (next_ch s)) cs" "overrun (string_const (next_ch s)) = overrun s"
    using loop assms(5) reads_next [of "end_id (string_loop s1)" 34 cs]
    by (simp_all add: string_const_def s1_def [symmetric]) (simp_all add: end_id_def)
  moreover have "scan_one s = tok sSTRING (string_const (next_ch s))"
    using reads_ch [OF assms(1)] by (simp add: scan_one_def skip Let_def CH_EOF_def scan_punct_def)
  ultimately show ?thesis
    by (subst (1 2 3 4) scanner_get.simps) (simp add: tok_def)
qed

lemma scan_string_witness: "ident (scanner_get (start_scan ''\"\" a \"'')) = ''\" a ''"
proof -
  have "reads (start_scan ''\"\" a \"'') (34 # 34 # [32, 97, 32] @ 34 # [])" by code_simp
  moreover have "map char_of_int [34, 32, 97, 32] = ''\" a ''" by code_simp
  ultimately show ?thesis
    using scan_string [of "start_scan ''\"\" a \"''" 34 "[32, 97, 32]" "[]"] by (simp add: IdLen_def)
qed

subsection \<open>Characters that get lost\<close>

text \<open>\<open>!\<close> swallows the character behind it.\<close>

lemma not_swallows:
  assumes "reads s (33 # c # cs)" "c \<noteq> 61"
  shows "sym (scanner_get s) = sNOT \<and> reads (scanner_get s) cs"
proof -
  have skip: "skip (\<lambda>c. c \<noteq> 10 \<and> c \<le> 32) s = s" using assms(1) by (rule skip_none) simp
  have n: "reads (next_ch s) (c # cs)" using assms(1) by (rule reads_next)
  have "scan_one s = tok sNOT (next_ch (next_ch s))"
    using reads_ch [OF assms(1)] reads_ch [OF n] assms(2)
    by (simp add: scan_one_def skip Let_def CH_EOF_def scan_punct_def alt_def)
  with reads_next [OF n] show ?thesis
    by (subst (1 2) scanner_get.simps) (simp add: tok_def)
qed

text \<open>
  Opening an include file and starting the scanner loses the character that was the lookahead:
  the first of the line after the directive.
\<close>

lemma include_swallows:
  assumes "reads s (c # cs)" "text_only t" "13 \<notin> set t"
  shows "reads (scanner_start (s\<lparr>files := bf_open t (files s)\<rparr>)) (t @ cs)"
proof -
  have "reads (s\<lparr>files := bf_open t (files s), col := 0\<rparr>) (c # t @ cs)"
    using assms by (auto simp: reads_def bf_open_def pending_def text_only_def split: list.splits)
  then show ?thesis unfolding scanner_start_def by (rule reads_next)
qed

text \<open>A star inside a comment makes it end one character late.\<close>

lemma star_swallows:
  "ident (scanner_get (start_scan ''(*a*b*)cd'')) = ''d''"
  "ident (scanner_get (start_scan ''(*ab*)cd'')) = ''cd''"
  by code_simp+

end
