(* ===== verification/Elf.thy ===== *)
theory Elf
  imports Interp
begin

text \<open>
  The ELF context of \<open>shared/src/elf_file.c\<close>: the string table, sections and symbols the assembler
  and the compiler build before they write a file, and the standard sections that
  \<open>create_standard_file\<close> (shared/src/codegen.c) adds.

  A section is its header and its bytes; \<open>body\<close> holds the fields the code generator uses. A
  string is its bytes without the terminating zero. \<open>as_realloc\<close> grows these arrays to the exact
  size on every addition, so the model keeps the list only.
\<close>

subsection \<open>The string table\<close>

text \<open>\<open>strstr\<close>: where \<open>str\<close> first occurs in \<open>cs\<close>.\<close>

fun find_sub :: "u8 list \<Rightarrow> u8 list \<Rightarrow> nat option" where
  "find_sub str [] = (if str = [] then Some 0 else None)"
| "find_sub str (c # cs) =
     (if take (length str) (c # cs) = str then Some 0 else map_option Suc (find_sub str cs))"

text \<open>
  The inner loop of \<open>elf_string_locate\<close>: an occurrence that ends where the string ends. Searching
  for the empty string never gets past a character; such a search does not return: \<open>None\<close>.
\<close>

function locate_in :: "u8 list \<Rightarrow> u8 list \<Rightarrow> nat \<Rightarrow> nat option option" where
  "locate_in str cs off =
     (case find_sub str cs of
        None \<Rightarrow> Some None
      | Some k \<Rightarrow>
          if length cs = k + length str then Some (Some (off + k))
          else if str = [] then None
          else locate_in str (drop (k + length str) cs) (off + k + length str))"
  by pat_completeness auto
termination
proof (relation "measure (\<lambda>(str, cs, off). length cs)")
  fix str cs off k
  assume k: "find_sub str cs = Some k" "length cs \<noteq> k + length str" "str \<noteq> []"
  have "cs \<noteq> []" using k by (auto split: if_splits)
  with k show "((str, drop (k + length str) cs, off + k + length str), str, cs, off)
      \<in> measure (\<lambda>(str, cs, off). length cs)" by (cases cs) auto
qed simp

declare locate_in.simps [simp del]

definition c_string :: "u8 list \<Rightarrow> u8 list" where
  "c_string xs = takeWhile (\<lambda>b. b \<noteq> 0) xs"

text \<open>The outer loop, from one string to the next; 0 when none fits.\<close>

function locate_from :: "u8 list \<Rightarrow> u8 list \<Rightarrow> nat \<Rightarrow> nat option" where
  "locate_from str xs off =
     (if xs = [] then Some 0
      else
        (case locate_in str (c_string xs) off of
           None \<Rightarrow> None
         | Some (Some k) \<Rightarrow> Some k
         | Some None \<Rightarrow>
             locate_from str (drop (length (c_string xs) + 1) xs) (off + length (c_string xs) + 1)))"
  by pat_completeness auto
termination
  by (relation "measure (\<lambda>(str, xs, off). length xs)") auto

declare locate_from.simps [simp del]

definition elf_string_locate :: "u8 list \<Rightarrow> u8 list \<Rightarrow> nat option" where
  "elf_string_locate d str = locate_from str (drop 1 d) 1"

definition elf_string_create :: "u8 list \<Rightarrow> u8 list \<Rightarrow> (nat \<times> u8 list) option" where
  "elf_string_create d str =
     map_option (\<lambda>off. if off = 0 then (length d, d @ str @ [0]) else (off, d)) (elf_string_locate d str)"

definition elf_string_get :: "u8 list \<Rightarrow> nat \<Rightarrow> u8 list" where
  "elf_string_get d off = c_string (drop off d)"

subsection \<open>Reading back what was stored\<close>

text \<open>A string table begins and ends with a zero.\<close>

definition strtab_ok :: "u8 list \<Rightarrow> bool" where
  "strtab_ok d \<longleftrightarrow> d \<noteq> [] \<and> hd d = 0 \<and> last d = 0"

lemma find_sub_some:
  "find_sub str cs = Some k \<Longrightarrow> k + length str \<le> length cs \<and> take (length str) (drop k cs) = str"
proof (induction str cs arbitrary: k rule: find_sub.induct)
  case (2 str c cs)
  show ?case
  proof (cases "take (length str) (c # cs) = str")
    case True
    with 2 show ?thesis by (auto dest: arg_cong [of _ _ length])
  qed (use 2 in auto)
qed (auto split: if_splits)

text \<open>What \<open>locate_in\<close> finds is a suffix of the string searched.\<close>

lemma locate_in_some:
  "locate_in str cs off = Some (Some n) \<Longrightarrow> off \<le> n \<and> n - off \<le> length cs \<and> drop (n - off) cs = str"
proof (induction str cs off rule: locate_in.induct)
  case (1 str cs off)
  have "find_sub str cs \<noteq> None"
  proof
    assume "find_sub str cs = None"
    then have "locate_in str cs off = Some None" by (subst locate_in.simps) simp
    with 1(2) show False by simp
  qed
  then obtain k where k: "find_sub str cs = Some k" by blast
  note sub = find_sub_some [OF k]
  have step: "locate_in str cs off =
      (if length cs = k + length str then Some (Some (off + k))
       else if str = [] then None else locate_in str (drop (k + length str) cs) (off + k + length str))"
    by (subst locate_in.simps) (simp add: k)
  show ?case
  proof (cases "length cs = k + length str")
    case True
    have "drop k cs = str" using sub True by (metis length_drop add_diff_cancel_left' take_all order_refl)
    moreover have "n = off + k" using 1(2) step True by simp
    ultimately show ?thesis using sub by simp
  next
    case False
    with 1(2) step have *: "str \<noteq> []"
      "locate_in str (drop (k + length str) cs) (off + k + length str) = Some (Some n)"
      by (auto split: if_splits)
    note ih = 1(1) [OF k False *]
    then obtain e where e: "n = off + k + length str + e" using le_Suc_ex by blast
    have "e \<le> length cs - (k + length str)" "drop (e + (k + length str)) cs = str"
      using ih by (simp_all add: e)
    with sub show ?thesis by (simp add: e ac_simps; linarith)
  qed
qed

lemma c_string_append: "c_string (xs @ 0 # ys) = c_string xs"
  by (simp add: c_string_def takeWhile_append1 takeWhile_tail)

lemma c_string_id: "0 \<notin> set str \<Longrightarrow> c_string (str @ 0 # ys) = str"
  by (induction str) (auto simp: c_string_def)

lemma c_string_split: "0 \<in> set xs \<Longrightarrow> xs = c_string xs @ 0 # drop (length (c_string xs) + 1) xs"
proof (induction xs)
  case (Cons x xs)
  then show ?case by (cases "x = 0") (auto simp: c_string_def)
qed simp

lemma c_string_drop:
  "n \<le> length (c_string xs) \<Longrightarrow> c_string (drop n xs) = drop n (c_string xs)"
proof (induction xs arbitrary: n)
  case (Cons x xs)
  then show ?case by (cases n; cases "x = 0") (auto simp: c_string_def)
qed (simp add: c_string_def)

lemma locate_from_some:
  "locate_from str xs off = Some n \<Longrightarrow> n \<noteq> 0 \<Longrightarrow>
     off \<le> n \<and> n - off \<le> length xs \<and> c_string (drop (n - off) xs) = str"
proof (induction str xs off rule: locate_from.induct)
  case (1 str xs off)
  have ne: "xs \<noteq> []"
  proof
    assume "xs = []"
    then have "locate_from str xs off = Some 0" by (subst locate_from.simps) simp
    with 1(2,3) show False by simp
  qed
  let ?len = "length (c_string xs)"
  have len: "?len \<le> length xs" by (simp add: c_string_def length_takeWhile_le)
  show ?case
  proof (cases "locate_in str (c_string xs) off")
    case None
    then have "locate_from str xs off = None" using ne by (subst locate_from.simps) simp
    with 1(2) show ?thesis by simp
  next
    case (Some f)
    show ?thesis
    proof (cases f)
      case None
      have "locate_from str (drop (?len + 1) xs) (off + ?len + 1) = Some n"
        using 1(2) ne Some None by (subst (asm) locate_from.simps) simp
      note all = 1(1) [OF ne Some None this 1(3)]
      note ih = all [THEN conjunct1] all [THEN conjunct2, THEN conjunct1]
        all [THEN conjunct2, THEN conjunct2]
      then obtain e where e: "n = off + ?len + 1 + e" using le_Suc_ex by blast
      have "drop (?len + 1) xs \<noteq> []"
      proof
        assume "drop (?len + 1) xs = []"
        then have "locate_from str (drop (?len + 1) xs) (off + ?len + 1) = Some 0"
          by (subst locate_from.simps) simp
        with \<open>locate_from str (drop (?len + 1) xs) (off + ?len + 1) = Some n\<close> 1(3) show False by simp
      qed
      with ih(2) have "?len + 1 + e \<le> length xs" by (simp add: e)
      then show ?thesis using ih(3) by (simp add: e ac_simps)
    next
      case (Some k)
      then have k: "locate_in str (c_string xs) off = Some (Some k)"
        using \<open>locate_in str (c_string xs) off = Some f\<close> by simp
      then have "locate_from str xs off = Some k" using ne by (subst locate_from.simps) simp
      with 1(2) have "n = k" by simp
      with locate_in_some [OF k] len show ?thesis by (simp add: c_string_drop)
    qed
  qed
qed

lemma locate_in_returns: "str \<noteq> [] \<Longrightarrow> locate_in str cs off \<noteq> None"
proof (induction str cs off rule: locate_in.induct)
  case (1 str cs off)
  then show ?case by (subst locate_in.simps) (auto split: option.split)
qed

lemma locate_from_returns: "str \<noteq> [] \<Longrightarrow> locate_from str xs off \<noteq> None"
proof (induction str xs off rule: locate_from.induct)
  case (1 str xs off)
  then show ?case
    using locate_in_returns [of str "c_string xs" off]
    by (subst locate_from.simps) (auto split: option.split)
qed

text \<open>The interface of a table of strings, with what repeated additions do.\<close>

locale string_store =
  fixes add :: "'d \<Rightarrow> 's \<Rightarrow> (nat \<times> 'd) option"
    and fetch :: "'d \<Rightarrow> nat \<Rightarrow> 's"
    and held :: "'d \<Rightarrow> nat set"
    and sound :: "'d \<Rightarrow> bool"
    and name_ok :: "'s \<Rightarrow> bool"
  assumes add_returns: "sound d \<Longrightarrow> name_ok x \<Longrightarrow> add d x \<noteq> None"
    and fetch_add: "sound d \<Longrightarrow> name_ok x \<Longrightarrow> add d x = Some (n, d') \<Longrightarrow> fetch d' n = x \<and> n \<in> held d'"
    and fetch_old: "sound d \<Longrightarrow> name_ok x \<Longrightarrow> add d x = Some (n, d') \<Longrightarrow> k \<in> held d \<Longrightarrow>
      fetch d' k = fetch d k \<and> k \<in> held d'"
    and sound_add: "sound d \<Longrightarrow> name_ok x \<Longrightarrow> add d x = Some (n, d') \<Longrightarrow> sound d'"
begin

fun add_all :: "'d \<Rightarrow> 's list \<Rightarrow> (nat list \<times> 'd) option" where
  "add_all d [] = Some ([], d)"
| "add_all d (x # xs) =
     Option.bind (add d x) (\<lambda>(n, d1). map_option (\<lambda>(ns, d2). (n # ns, d2)) (add_all d1 xs))"

lemma add_all_keeps:
  "sound d \<Longrightarrow> list_all name_ok xs \<Longrightarrow> add_all d xs = Some (ns, d') \<Longrightarrow> k \<in> held d \<Longrightarrow>
     fetch d' k = fetch d k \<and> k \<in> held d'"
proof (induction d xs arbitrary: ns d' rule: add_all.induct)
  case (2 d x xs)
  then obtain n d1 ns1 where d1: "add d x = Some (n, d1)" "add_all d1 xs = Some (ns1, d')"
    by (auto simp: bind_eq_Some_conv)
  have x: "name_ok x" "list_all name_ok xs" using 2 by simp_all
  have old: "fetch d1 k = fetch d k \<and> k \<in> held d1" using fetch_old [OF 2(2) x(1) d1(1) 2(5)] .
  have "fetch d' k = fetch d1 k \<and> k \<in> held d'"
    by (rule 2(1) [OF d1(1) refl sound_add [OF 2(2) x(1) d1(1)] x(2) d1(2)]) (use old in simp)
  with old show ?case by simp
qed simp

lemma fetch_add_all:
  "sound d \<Longrightarrow> list_all name_ok xs \<Longrightarrow> \<exists>ns d'. add_all d xs = Some (ns, d') \<and> map (fetch d') ns = xs"
proof (induction xs arbitrary: d)
  case (Cons x xs)
  then have x: "name_ok x" "list_all name_ok xs" by simp_all
  obtain n d1 where d1: "add d x = Some (n, d1)" using add_returns [OF Cons.prems(1) x(1)] by auto
  have s1: "sound d1" using sound_add [OF Cons.prems(1) x(1) d1] .
  from Cons.IH [OF s1 x(2)] obtain ns d' where rest: "add_all d1 xs = Some (ns, d')" "map (fetch d') ns = xs"
    by blast
  have "fetch d' n = x"
    using add_all_keeps [OF s1 x(2) rest(1), of n] fetch_add [OF Cons.prems(1) x(1) d1] by simp
  with d1 rest show ?case by (intro exI [of _ "n # ns"] exI [of _ d']) simp
qed simp

end

definition name_ok :: "u8 list \<Rightarrow> bool" where
  "name_ok str \<longleftrightarrow> str \<noteq> [] \<and> 0 \<notin> set str"

lemma c_string_more: "0 \<in> set xs \<Longrightarrow> c_string (xs @ ys) = c_string xs"
  by (auto simp: c_string_def takeWhile_append1)

lemma elf_string_get_append:
  assumes d: "strtab_ok d" "k < length d"
  shows "elf_string_get (d @ xs) k = elf_string_get d k"
proof -
  have "last (drop k d) = 0" "drop k d \<noteq> []" using d by (simp_all add: last_drop strtab_ok_def)
  then have "0 \<in> set (drop k d)" using last_in_set [of "drop k d"] by simp
  from c_string_more [OF this] show ?thesis using d(2) by (simp add: elf_string_get_def)
qed

interpretation strings: string_store elf_string_create elf_string_get "\<lambda>d. {..<length d}" strtab_ok name_ok
proof unfold_locales
  fix d x n d' k
  assume d: "strtab_ok d" and x: "name_ok x"
  show "elf_string_create d x \<noteq> None"
    using x locate_from_returns [of x] by (auto simp: elf_string_create_def elf_string_locate_def name_ok_def)
  assume c: "elf_string_create d x = Some (n, d')"
  then obtain off where off: "elf_string_locate d x = Some off"
    "n = (if off = 0 then length d else off)" "d' = (if off = 0 then d @ x @ [0] else d)"
    by (auto simp: elf_string_create_def split: if_splits)
  show "strtab_ok d'" using d off(3) by (auto simp: strtab_ok_def)
  show "elf_string_get d' k = elf_string_get d k \<and> k \<in> {..<length d'}" if "k \<in> {..<length d}"
    using that d off(3) elf_string_get_append [OF d, of k] by auto
  show "elf_string_get d' n = x \<and> n \<in> {..<length d'}"
  proof (cases "off = 0")
    case True
    with off x show ?thesis by (simp add: elf_string_get_def c_string_id name_ok_def)
  next
    case False
    with off(1) locate_from_some [of x "drop 1 d" 1 off]
    have "1 \<le> off" "off - 1 \<le> length d - 1" and c: "c_string (drop (off - 1) (drop 1 d)) = x"
      by (simp_all add: elf_string_locate_def)
    then have o: "off \<le> length d" using d by (cases d; simp add: strtab_ok_def)
    have c: "c_string (drop off d) = x" using c \<open>1 \<le> off\<close> by simp
    then have "off \<noteq> length d" using x by (auto simp: c_string_def name_ok_def)
    then show ?thesis using False off(2,3) o c by (simp add: elf_string_get_def)
  qed
qed

text \<open>
  C23. Names put into the string table, one after the other, are all found again at the offsets
  returned, although a name that is the end of another shares its characters.
\<close>

theorem strings_read_back:
  assumes "strtab_ok d" "list_all name_ok xs"
  shows "\<exists>ns d'. strings.add_all d xs = Some (ns, d') \<and> map (elf_string_get d') ns = xs"
  using assms by (rule strings.fetch_add_all)

lemma strings_read_back_witness:
  "\<exists>ns d'. strings.add_all [0] [[1, 2], [2], [3]] = Some (ns, d') \<and>
     map (elf_string_get d') ns = [[1, 2], [2], [3]]"
  by (rule strings_read_back) (simp_all add: strtab_ok_def name_ok_def)

subsection \<open>Headers, sections and the context\<close>

record shdr =
  h_name :: u32
  h_type :: u32
  h_flags :: u32
  h_addr :: u32
  h_offset :: u32
  h_size :: u32
  h_link :: u32
  h_info :: u32
  h_addralign :: u32
  h_entsize :: u32

record esec =
  shdr :: shdr
  bytes :: "u8 list"

record ehdr =
  e_ident :: "u8 list"
  e_type :: u16
  eh_machine :: u16
  e_version :: u32
  e_entry :: u32
  e_phoff :: u32
  e_shoff :: u32
  e_flags :: u32
  e_ehsize :: u16
  e_phentsize :: u16
  e_phnum :: u16
  e_shentsize :: u16
  e_shnum :: u16
  e_shstrndx :: u16

text \<open>
  Sections are shared by pointers in C; here \<open>shstrtab\<close>, \<open>symtab\<close>, the standard sections and the
  current one (the global \<open>section\<close>) are indices of \<open>sections\<close>.
\<close>

record elf_context =
  filename :: string
  ehdr :: ehdr
  sections :: "esec list"
  shstrtab :: nat
  symtab :: nat
  standard :: "nat list"
  current :: "nat option"

definition SHT_NULL :: u32 where "SHT_NULL = 0"
definition SHT_SYMTAB :: u32 where "SHT_SYMTAB = 2"
definition SHT_STRTAB :: u32 where "SHT_STRTAB = 3"
definition SHF_DP :: u32 where "SHF_DP = 8"
definition SHF_STACK :: u32 where "SHF_STACK = 16"
definition SHF_TLS :: u32 where "SHF_TLS = 0x400"

definition ET_REL :: u16 where "ET_REL = 1"
definition ET_EXEC :: u16 where "ET_EXEC = 2"

definition cstr :: "string \<Rightarrow> u8 list" where
  "cstr s = map of_char s"

definition upd_section :: "nat \<Rightarrow> (esec \<Rightarrow> esec) \<Rightarrow> elf_context \<Rightarrow> elf_context" where
  "upd_section i f c = c\<lparr>sections := (sections c)[i := f (sections c ! i)]\<rparr>"

definition upd_shdr :: "nat \<Rightarrow> (shdr \<Rightarrow> shdr) \<Rightarrow> elf_context \<Rightarrow> elf_context" where
  "upd_shdr i f = upd_section i (\<lambda>s. s\<lparr>shdr := f (shdr s)\<rparr>)"

definition set_bytes :: "u8 list \<Rightarrow> esec \<Rightarrow> esec" where
  "set_bytes d s = s\<lparr>bytes := d, shdr := (shdr s)\<lparr>h_size := of_nat (length d)\<rparr>\<rparr>"

text \<open>\<open>elf_string_create\<close> on the bytes of section \<open>i\<close>; the offset, and the context with the table
  grown.\<close>

definition string_create_in :: "nat \<Rightarrow> string \<Rightarrow> elf_context \<Rightarrow> (u32 \<times> elf_context) option" where
  "string_create_in i nm c =
     map_option (\<lambda>(off, d). (of_nat off, upd_section i (set_bytes d) c))
       (elf_string_create (bytes (sections c ! i)) (cstr nm))"

fun find_name :: "u32 \<Rightarrow> esec list \<Rightarrow> nat option" where
  "find_name name [] = None"
| "find_name name (s # ss) =
     (if h_name (shdr s) = name then Some 0 else map_option Suc (find_name name ss))"

definition elf_section_find :: "u32 \<Rightarrow> elf_context \<Rightarrow> nat option" where
  "elf_section_find name c = find_name name (take (unat (e_shnum (ehdr c))) (sections c))"

definition no_shdr :: shdr where
  "no_shdr = \<lparr>h_name = 0, h_type = 0, h_flags = 0, h_addr = 0, h_offset = 0, h_size = 0, h_link = 0,
     h_info = 0, h_addralign = 0, h_entsize = 0\<rparr>"

text \<open>The name of a section is an offset of the string table, 0 for a section created without one.\<close>

definition section_name :: "string option \<Rightarrow> elf_context \<Rightarrow> (u32 \<times> elf_context) option" where
  "section_name nm c =
     (case nm of
        None \<Rightarrow> Some (0, c)
      | Some str \<Rightarrow>
          Option.bind (elf_string_locate (bytes (sections c ! shstrtab c)) (cstr str)) (\<lambda>k.
            if k = 0 then string_create_in (shstrtab c) str c else Some (of_nat k, c)))"

definition add_section :: "u32 \<Rightarrow> u32 \<Rightarrow> u32 \<Rightarrow> elf_context \<Rightarrow> elf_context" where
  "add_section name fl ty c =
     c\<lparr>sections := sections c @
         [\<lparr>shdr = no_shdr\<lparr>h_name := name, h_flags := fl, h_type := ty\<rparr>, bytes = []\<rparr>],
       ehdr := (ehdr c)\<lparr>e_shnum := e_shnum (ehdr c) + 1\<rparr>\<rparr>"

definition elf_section_create ::
    "string option \<Rightarrow> u32 \<Rightarrow> u32 \<Rightarrow> elf_context \<Rightarrow> (nat \<times> elf_context) option" where
  "elf_section_create nm fl ty c =
     map_option (\<lambda>(name, c).
         case elf_section_find name c of
           Some i \<Rightarrow> (i, c)
         | None \<Rightarrow> (length (sections c), add_section name fl ty c))
       (section_name nm c)"

definition elf_set_section :: "string \<Rightarrow> elf_context \<Rightarrow> elf_context option" where
  "elf_set_section nm c =
     Option.bind (elf_string_locate (bytes (sections c ! shstrtab c)) (cstr nm)) (\<lambda>k.
       if k = 0 then Some c
       else (case elf_section_find (of_nat k) c of
               Some i \<Rightarrow> Some (c\<lparr>current := Some i\<rparr>)
             | None \<Rightarrow> map_option (\<lambda>(i, c). c\<lparr>current := Some i\<rparr>)
                         (elf_section_create (Some nm) 0 SHF_EXECINSTR c)))"

subsection \<open>Symbols\<close>

record elf_sym =
  st_name :: u32
  st_value :: u32
  st_size :: u32
  st_info :: u8
  st_other :: u8
  st_shndx :: u16

definition word4 :: "u32 \<Rightarrow> u8 list" where
  "word4 v = [byte_at 0 v, byte_at 1 v, byte_at 2 v, byte_at 3 v]"

definition half2 :: "u16 \<Rightarrow> u8 list" where
  "half2 v = [ucast v, ucast (drop_bit 8 v)]"

lemma length_word4 [simp]: "length (word4 v) = 4"
  by (simp add: word4_def)

lemma length_half2 [simp]: "length (half2 v) = 2"
  by (simp add: half2_def)

lemma length_words [simp]: "length (concat (map word4 ws)) = 4 * length ws"
  by (induction ws) simp_all

lemma length_halves [simp]: "length (concat (map half2 ws)) = 2 * length ws"
  by (induction ws) simp_all

lemma le_value_word4 [simp]: "le_value (word4 v) = v"
  by (simp only: word4_def le_value_4)

lemma le_value_half2 [simp]: "ucast (le_value (half2 v)) = v"
proof -
  have "half2 v = [byte_at 0 (ucast v), byte_at 1 (ucast v)]"
    by (auto simp: half2_def byte_at_def intro!: bit_word_eqI) (auto simp: bit_simps)
  then have "le_value (half2 v) = ucast v AND mask 16" by (simp only: le_value_2)
  then have "ucast (le_value (half2 v)) = (ucast (ucast v AND mask 16 :: u32) :: u16)" by simp
  also have "\<dots> = v" by (rule bit_word_eqI) (auto simp: bit_simps)
  finally show ?thesis .
qed

text \<open>The bytes of an \<open>ELF_Sym\<close> in memory; 16 of them.\<close>

definition sym_bytes :: "elf_sym \<Rightarrow> u8 list" where
  "sym_bytes y = word4 (st_name y) @ word4 (st_value y) @ word4 (st_size y) @
     [st_info y, st_other y] @ half2 (st_shndx y)"

definition elf_symbol_create :: "string \<Rightarrow> u32 \<Rightarrow> u32 \<Rightarrow> u8 \<Rightarrow> elf_context \<Rightarrow> elf_context option" where
  "elf_symbol_create nm v sz info c =
     map_option (\<lambda>(off, c).
         upd_section (symtab c)
           (\<lambda>s. set_bytes (bytes s @ sym_bytes \<lparr>st_name = off, st_value = v, st_size = sz, st_info = info,
              st_other = 0, st_shndx = 0\<rparr>) s) c)
       (string_create_in (shstrtab c) nm c)"

text \<open>\<open>elf_symbol_add\<close> also counts the symbol in \<open>sh_info\<close>.\<close>

definition elf_symbol_add :: "elf_sym \<Rightarrow> esec \<Rightarrow> nat \<times> esec" where
  "elf_symbol_add y s =
     (length (bytes s),
      (\<lambda>s. s\<lparr>shdr := (shdr s)\<lparr>h_info := h_info (shdr s) + 1\<rparr>\<rparr>) (set_bytes (bytes s @ sym_bytes y) s))"

text \<open>
  \<open>elf_symbol_locate\<close> steps an \<open>ELF_Sym\<close> pointer by \<open>sizeof(ELF_Sym)\<close>, that is by 16 symbols: the
  offset grows by 256 bytes at a time.
\<close>

fun symbol_locate :: "nat \<Rightarrow> u32 \<Rightarrow> u8 list \<Rightarrow> nat \<Rightarrow> nat" where
  "symbol_locate 0 name d p = 0"
| "symbol_locate (Suc n) name d p =
     (if length d \<le> p then 0
      else if le_value (take 4 (drop p d)) = name then p
      else symbol_locate n name d (p + 256))"

definition elf_symbol_locate :: "u32 \<Rightarrow> elf_context \<Rightarrow> nat" where
  "elf_symbol_locate name c =
     (let d = bytes (sections c ! symtab c) in symbol_locate (length d) name d 0)"

subsection \<open>A new context\<close>

text \<open>
  The section header string table is asked for under the name 0, which is what the first section is
  called, so no second section is made: section 0 becomes the string table and keeps \<open>SHT_NULL\<close>.
\<close>

definition empty_ehdr :: "u16 \<Rightarrow> ehdr" where
  "empty_ehdr machine =
     \<lparr>e_ident = [0x7f, 0x45, 0x4c, 0x46, 1, 1, 1, 66, 0, 0, 0, 0, 0, 0, 0, 0],
      e_type = ET_REL, eh_machine = machine, e_version = 1, e_entry = 0, e_phoff = 0, e_shoff = 0,
      e_flags = 0, e_ehsize = 52, e_phentsize = 32, e_phnum = 0, e_shentsize = 40, e_shnum = 0,
      e_shstrndx = 0\<rparr>"

definition elf_create :: "string \<Rightarrow> u16 \<Rightarrow> elf_context option" where
  "elf_create name machine =
     Option.bind
       (elf_section_create None 0 SHT_NULL
          \<lparr>filename = name, ehdr = empty_ehdr machine, sections = [], shstrtab = 0, symtab = 0,
           standard = [], current = None\<rparr>) (\<lambda>(undef, c).
     Option.bind
       (elf_section_create None 0 SHT_STRTAB
          (upd_section undef (\<lambda>s. s\<lparr>bytes := [], shdr := (shdr s)\<lparr>h_addr := 0, h_offset := 0, h_link := 0,
              h_info := 0, h_addralign := 0, h_entsize := 0, h_size := 0\<rparr>\<rparr>) c)) (\<lambda>(str, c).
     Option.bind
       (string_create_in str ''.shstrtab''
          ((upd_section str (\<lambda>s. s\<lparr>bytes := [0], shdr := (shdr s)\<lparr>h_addr := 0, h_offset := 0, h_link := 1,
              h_info := 0, h_addralign := 0, h_entsize := 0, h_size := 1\<rparr>\<rparr>) c)\<lparr>shstrtab := str\<rparr>)) (\<lambda>(n, c).
     Option.bind
       (elf_section_create None 0 SHT_SYMTAB (upd_shdr str (\<lambda>h. h\<lparr>h_name := n\<rparr>) c)) (\<lambda>(sy, c).
     map_option (\<lambda>(n, c). upd_shdr sy (\<lambda>h. h\<lparr>h_name := n\<rparr>) c)
       (string_create_in str ''.symtab''
          ((upd_section sy (\<lambda>s. s\<lparr>bytes := replicate 16 0, shdr := (shdr s)\<lparr>h_addr := 0, h_offset := 0,
              h_link := 1, h_info := 1, h_addralign := 0, h_entsize := 16, h_size := 16\<rparr>\<rparr>) c)
            \<lparr>symtab := sy\<rparr>))))))"

fun create_sections :: "(string \<times> u32 \<times> u32) list \<Rightarrow> elf_context \<Rightarrow> elf_context option" where
  "create_sections [] c = Some c"
| "create_sections ((nm, fl, ty) # rest) c =
     Option.bind (elf_section_create (Some nm) fl ty c) (\<lambda>(i, c).
       create_sections rest (c\<lparr>standard := standard c @ [i]\<rparr>))"

definition standard_sections :: "(string \<times> u32 \<times> u32) list" where
  "standard_sections =
     [(''stack'', SHF_WRITE OR SHF_ALLOC OR SHF_STACK, SHT_NOBITS),
      (''dp'', SHF_WRITE OR SHF_ALLOC OR SHF_DP, SHT_NOBITS),
      (''tls'', SHF_WRITE OR SHF_ALLOC OR SHF_TLS, SHT_NOBITS),
      (''bss'', SHF_WRITE OR SHF_ALLOC, SHT_NOBITS),
      (''data'', SHF_WRITE OR SHF_ALLOC, SHT_PROGBITS),
      (''rodata'', SHF_ALLOC, SHT_PROGBITS),
      (''text'', SHF_ALLOC OR SHF_EXECINSTR, SHT_PROGBITS)]"

text \<open>\<open>a\<close> is the code generator's address.\<close>

definition create_standard_file :: "u64 \<Rightarrow> elf_context \<Rightarrow> elf_context option" where
  "create_standard_file a c =
     map_option (\<lambda>c. (upd_shdr (last (standard c)) (\<lambda>h. h\<lparr>h_addr := ucast a\<rparr>) c)
         \<lparr>current := Some (last (standard c))\<rparr>)
       (create_sections standard_sections c)"

definition elf_names :: "elf_context \<Rightarrow> u8 list list" where
  "elf_names c =
     map (\<lambda>s. elf_string_get (bytes (sections c ! shstrtab c)) (unat (h_name (shdr s)))) (sections c)"


end
