(* ===== verification/Sections.thy ===== *)
theory Sections
  imports Elf
begin

text \<open>
  What the ELF context guarantees its users: the string table finds a name again, at the offset it
  was first given, however much is added later, and creating a section under a name is looking it
  up when there is one.
\<close>

lemma last_drop_zero:
  assumes "xs = [] \<or> last xs = 0"
  shows "drop n xs = [] \<or> last (drop n xs) = (0 :: u8)"
  using assms by (cases "n < length xs") (auto simp: last_drop)

lemma terminated_has_zero: "xs \<noteq> [] \<Longrightarrow> last xs = 0 \<Longrightarrow> 0 \<in> set (xs :: u8 list)"
  using last_in_set [of xs] by simp

lemma c_string_length: "0 \<in> set xs \<Longrightarrow> length (c_string xs) + 1 \<le> length xs"
  by (induction xs) (auto simp: c_string_def)

text \<open>One step of the outer loop over a terminated string.\<close>

lemma locate_from_step:
  assumes "xs \<noteq> []" "last xs = 0"
  shows "locate_from str (xs @ ys) off =
    (case locate_in str (c_string xs) off of
       None \<Rightarrow> None
     | Some (Some k) \<Rightarrow> Some k
     | Some None \<Rightarrow> locate_from str (drop (length (c_string xs) + 1) xs @ ys) (off + length (c_string xs) + 1))"
proof -
  have z: "0 \<in> set xs" using assms by (rule terminated_has_zero)
  have c: "c_string (xs @ ys) = c_string xs" using z by (rule c_string_more)
  have d: "drop (length (c_string xs) + 1) (xs @ ys) = drop (length (c_string xs) + 1) xs @ ys"
    using c_string_length [OF z] by simp
  show ?thesis by (subst locate_from.simps) (simp only: c d assms(1) append_is_Nil_conv simp_thms if_False)
qed

lemma locate_from_more:
  "xs = [] \<or> last xs = 0 \<Longrightarrow> locate_from str xs off = Some k \<Longrightarrow> k \<noteq> 0 \<Longrightarrow>
     locate_from str (xs @ ys) off = Some k"
proof (induction str xs off rule: locate_from.induct)
  case (1 str xs off)
  show ?case
  proof (cases "xs = []")
    case True
    with 1(3,4) show ?thesis by (subst (asm) locate_from.simps) simp
  next
    case ne: False
    with 1(2) have z: "last xs = 0" by simp
    note step = locate_from_step [OF ne z, of str ys off] and step0 = locate_from_step [OF ne z, of str "[]" off]
    show ?thesis
    proof (cases "locate_in str (c_string xs) off")
      case None
      with step0 1(3) show ?thesis by simp
    next
      case (Some f)
      show ?thesis
      proof (cases f)
        case None
        have "locate_from str (drop (length (c_string xs) + 1) xs) (off + length (c_string xs) + 1) = Some k"
          using step0 1(3) Some None by simp
        from 1(1) [OF ne Some None last_drop_zero [OF 1(2)] this 1(4)] step Some None
        show ?thesis by simp
      next
        case (Some j)
        with step step0 1(3) \<open>locate_in str (c_string xs) off = Some f\<close> show ?thesis by simp
      qed
    qed
  qed
qed

lemma find_sub_self: "find_sub str str = Some 0"
  by (cases str) simp_all

lemma locate_from_appended:
  "xs = [] \<or> last xs = 0 \<Longrightarrow> 0 \<notin> set str \<Longrightarrow> 0 < off \<Longrightarrow> locate_from str xs off = Some 0 \<Longrightarrow>
     locate_from str (xs @ str @ [0]) off = Some (off + length xs)"
proof (induction str xs off rule: locate_from.induct)
  case (1 str xs off)
  show ?case
  proof (cases "xs = []")
    case True
    have "locate_in str str off = Some (Some off)"
      by (subst locate_in.simps) (simp add: find_sub_self)
    then show ?thesis using True 1(3) by (subst locate_from.simps) (simp add: c_string_id)
  next
    case ne: False
    with 1(2) have z: "last xs = 0" by simp
    note step = locate_from_step [OF ne z, of str "str @ [0]" off]
      and step0 = locate_from_step [OF ne z, of str "[]" off]
    show ?thesis
    proof (cases "locate_in str (c_string xs) off")
      case None
      with step0 1(5) show ?thesis by simp
    next
      case (Some f)
      show ?thesis
      proof (cases f)
        case None
        have rest: "locate_from str (drop (length (c_string xs) + 1) xs) (off + length (c_string xs) + 1) = Some 0"
          using step0 1(5) Some None by simp
        from 1(1) [OF ne Some None last_drop_zero [OF 1(2)] 1(3) _ rest] step Some None
          c_string_length [OF terminated_has_zero [OF ne z]]
        show ?thesis by simp
      next
        case (Some j)
        then have j: "locate_in str (c_string xs) off = Some (Some j)"
          using \<open>locate_in str (c_string xs) off = Some f\<close> by simp
        with step0 1(5) have "j = 0" by simp
        with locate_in_some [OF j] 1(4) show ?thesis by simp
      qed
    qed
  qed
qed

lemma strtab_tail: "strtab_ok d \<Longrightarrow> drop 1 d = [] \<or> last (drop 1 d) = 0"
  by (rule last_drop_zero) (simp add: strtab_ok_def)

lemma locate_more:
  "strtab_ok d \<Longrightarrow> elf_string_locate d x = Some k \<Longrightarrow> k \<noteq> 0 \<Longrightarrow> elf_string_locate (d @ ys) x = Some k"
  using locate_from_more [OF strtab_tail, of d x 1 k ys]
  by (cases d) (simp_all add: elf_string_locate_def strtab_ok_def)

lemma locate_created:
  assumes "strtab_ok d" "name_ok x" "elf_string_create d x = Some (n, d')"
  shows "elf_string_locate d' x = Some n \<and> n \<noteq> 0 \<and> (\<exists>ys. d' = d @ ys)"
proof -
  obtain k where k: "elf_string_locate d x = Some k"
    "n = (if k = 0 then length d else k)" "d' = (if k = 0 then d @ x @ [0] else d)"
    using assms(3) by (auto simp: elf_string_create_def split: if_splits)
  have d: "d \<noteq> []" using assms(1) by (simp add: strtab_ok_def)
  show ?thesis
  proof (cases "k = 0")
    case True
    then have "locate_from x (drop 1 d @ x @ [0]) 1 = Some (1 + length (drop 1 d))"
      using k(1) assms(2)
      by (intro locate_from_appended strtab_tail assms(1)) (simp_all add: elf_string_locate_def name_ok_def)
    then show ?thesis using True k d by (cases d) (simp_all add: elf_string_locate_def)
  next
    case False
    with k show ?thesis by simp
  qed
qed

subsection \<open>The context\<close>

definition names_of :: "elf_context \<Rightarrow> u8 list" where
  "names_of c = bytes (sections c ! shstrtab c)"

definition name_at :: "elf_context \<Rightarrow> nat \<Rightarrow> u8 list" where
  "name_at c i = elf_string_get (names_of c) (unat (h_name (shdr (sections c ! i))))"

text \<open>
  The string table is one of the sections and is terminated, the header counts the sections, and
  every section's name is an offset of the table.
\<close>

definition elf_ok :: "elf_context \<Rightarrow> bool" where
  "elf_ok c \<longleftrightarrow> shstrtab c < length (sections c) \<and> strtab_ok (names_of c) \<and>
     unat (e_shnum (ehdr c)) = length (sections c) \<and>
     list_all (\<lambda>s. unat (h_name (shdr s)) < length (names_of c)) (sections c)"

lemma elf_ok_iff:
  "elf_ok c \<longleftrightarrow> shstrtab c < length (sections c) \<and> strtab_ok (names_of c) \<and>
     unat (e_shnum (ehdr c)) = length (sections c) \<and>
     (\<forall>i < length (sections c). unat (h_name (shdr (sections c ! i))) < length (names_of c))"
  by (simp add: elf_ok_def list_all_length)

text \<open>There is room for one more section called \<open>nm\<close>: the offsets have 32 bits, the count 16.\<close>

definition has_room :: "string \<Rightarrow> elf_context \<Rightarrow> bool" where
  "has_room nm c \<longleftrightarrow> length (names_of c) + length nm + 1 < 2 ^ 32 \<and> length (sections c) + 1 < 2 ^ 16"

lemma length_cstr [simp]: "length (cstr s) = length s"
  by (simp add: cstr_def)

lemma create_via_locate:
  assumes "elf_string_locate d x = Some k" "k \<noteq> 0"
  shows "elf_string_create d x = Some (k, d)"
  using assms by (simp add: elf_string_create_def)

lemma shdr_upd_section:
  "i < length (sections c) \<Longrightarrow> shdr (sections (upd_section j f c) ! i) =
     (if i = j then shdr (f (sections c ! j)) else shdr (sections c ! i))"
  by (simp add: upd_section_def nth_list_update)

text \<open>\<open>section_name\<close> is \<open>elf_string_create\<close> on the string table.\<close>

lemma section_name_some:
  assumes ok: "elf_ok c" and nm: "name_ok (cstr nm)"
  obtains n d where "elf_string_create (names_of c) (cstr nm) = Some (n, d)"
    and "section_name (Some nm) c = Some (of_nat n,
      if elf_string_locate (names_of c) (cstr nm) = Some 0 then upd_section (shstrtab c) (set_bytes d) c else c)"
    and "elf_string_locate (names_of c) (cstr nm) = Some 0 \<or> d = names_of c"
proof -
  have "strtab_ok (names_of c)" using ok by (simp add: elf_ok_iff)
  then obtain n d where nd: "elf_string_create (names_of c) (cstr nm) = Some (n, d)"
    using strings.add_returns [OF _ nm] by fastforce
  obtain k where k: "elf_string_locate (names_of c) (cstr nm) = Some k"
    using nd by (auto simp: elf_string_create_def)
  show thesis
    using nd k by (intro that [of n d])
      (auto simp: section_name_def names_of_def string_create_in_def elf_string_create_def split: if_splits)
qed

lemma section_name_ok:
  assumes ok: "elf_ok c" and nm: "name_ok (cstr nm)" and room: "has_room nm c"
    and new: "section_name (Some nm) c = Some (name, c1)"
  shows "elf_ok c1" "length (sections c1) = length (sections c)" "shstrtab c1 = shstrtab c"
    "\<exists>ys. names_of c1 = names_of c @ ys \<and> length ys \<le> length nm + 1"
    "elf_string_locate (names_of c1) (cstr nm) = Some (unat name)" "name \<noteq> 0"
    "unat name < length (names_of c1)"
    "\<And>i. i < length (sections c) \<Longrightarrow> h_name (shdr (sections c1 ! i)) = h_name (shdr (sections c ! i))"
proof -
  obtain n d where nd: "elf_string_create (names_of c) (cstr nm) = Some (n, d)"
    and sn: "section_name (Some nm) c = Some (of_nat n,
      if elf_string_locate (names_of c) (cstr nm) = Some 0 then upd_section (shstrtab c) (set_bytes d) c else c)"
    and same: "elf_string_locate (names_of c) (cstr nm) = Some 0 \<or> d = names_of c"
    by (rule section_name_some [OF ok nm])
  have tab: "strtab_ok (names_of c)" and sh: "shstrtab c < length (sections c)" using ok by (simp_all add: elf_ok_iff)
  from locate_created [OF tab nm nd] obtain ys where
    found: "elf_string_locate d (cstr nm) = Some n" "n \<noteq> 0" and ys: "d = names_of c @ ys" by auto
  have len: "length ys \<le> length nm + 1"
    using nd ys by (auto simp: elf_string_create_def split: if_splits)
  have n: "n < length d" using strings.fetch_add [OF tab nm nd] by simp
  then have small: "unat (of_nat n :: u32) = n"
    using room len ys by (simp add: has_room_def unsigned_of_nat take_bit_nat_eq_self)
  have name: "name = of_nat n" and c1: "c1 = (if elf_string_locate (names_of c) (cstr nm) = Some 0
      then upd_section (shstrtab c) (set_bytes d) c else c)" using new sn by simp_all
  have nc1: "names_of c1 = d" using c1 same sh by (auto simp: names_of_def upd_section_def set_bytes_def)
  have h: "h_name (shdr (sections c1 ! i)) = h_name (shdr (sections c ! i))" if "i < length (sections c)" for i
    using that by (simp add: c1 shdr_upd_section) (simp add: set_bytes_def)
  have rest: "length (sections c1) = length (sections c)" "shstrtab c1 = shstrtab c"
    "e_shnum (ehdr c1) = e_shnum (ehdr c)" by (simp_all add: c1 upd_section_def)
  have "strtab_ok d" using strings.sound_add [OF tab nm nd] .
  then show "elf_ok c1" using ok by (auto simp: elf_ok_iff nc1 rest h ys trans_less_add1)
  show "name \<noteq> 0" using small found(2) by (auto simp: name)
  show "length (sections c1) = length (sections c)" "shstrtab c1 = shstrtab c" by (rule rest)+
  show "\<exists>ys. names_of c1 = names_of c @ ys \<and> length ys \<le> length nm + 1" using ys len nc1 by blast
  show "elf_string_locate (names_of c1) (cstr nm) = Some (unat name)" "unat name < length (names_of c1)"
    using found n by (simp_all add: nc1 name small)
  show "h_name (shdr (sections c1 ! i)) = h_name (shdr (sections c ! i))" if "i < length (sections c)" for i
    using h that .
qed

lemma find_name_some: "find_name n ss = Some i \<Longrightarrow> i < length ss \<and> h_name (shdr (ss ! i)) = n"
  by (induction ss arbitrary: i) (auto split: if_splits)

lemma find_name_new: "find_name n ss = None \<Longrightarrow> h_name (shdr s) = n \<Longrightarrow> find_name n (ss @ [s]) = Some (length ss)"
  by (induction ss) (auto split: if_splits)

lemma section_find_all: "elf_ok c \<Longrightarrow> elf_section_find n c = find_name n (sections c)"
  by (simp add: elf_section_find_def elf_ok_iff)

lemma unat_succ: "unat (w :: u16) + 1 < 2 ^ 16 \<Longrightarrow> unat (w + 1) = unat w + 1"
  by (simp add: unat_word_ariths)

text \<open>What \<open>elf_section_create\<close> returns and keeps.\<close>

lemma section_create_ok:
  assumes ok: "elf_ok c" and nm: "name_ok (cstr nm)" and room: "has_room nm c"
    and new: "elf_section_create (Some nm) fl ty c = Some (i, c1)"
  shows "elf_ok c1" "shstrtab c1 = shstrtab c" "\<exists>ys. names_of c1 = names_of c @ ys"
    "\<exists>n. elf_string_locate (names_of c1) (cstr nm) = Some (unat n) \<and> n \<noteq> 0 \<and> find_name n (sections c1) = Some i"
    "name_at c1 i = cstr nm"
    "\<forall>j < length (sections c). name_at c1 j = name_at c j"
proof -
  obtain name c0 where c0: "section_name (Some nm) c = Some (name, c0)"
    and ic: "(i, c1) = (case elf_section_find name c0 of Some i \<Rightarrow> (i, c0)
              | None \<Rightarrow> (length (sections c0), add_section name fl ty c0))"
    using new by (auto simp: elf_section_create_def)
  note s = section_name_ok [OF ok nm room c0]
  note ok0 = s(1)
  from s(4) obtain ys where ys: "names_of c0 = names_of c @ ys" by blast
  have fetch: "elf_string_get (names_of c0) (unat name) = cstr nm"
    using strings.fetch_add [of "names_of c0" "cstr nm", OF _ nm create_via_locate [of _ _ "unat name"]] s(5,6) ok0
    by (simp add: elf_ok_iff unsigned_eq_0_iff)
  have sh0: "shstrtab c0 < length (sections c0)" using ok0 by (simp add: elf_ok_iff)
  have c1: "c1 = c0 \<or> c1 = add_section name fl ty c0" using ic by (simp split: option.splits)
  have names: "names_of c1 = names_of c0" "shstrtab c1 = shstrtab c0"
    using c1 sh0 by (auto simp: names_of_def add_section_def nth_append)
  have found: "i < length (sections c1) \<and> find_name name (sections c1) = Some i \<and> h_name (shdr (sections c1 ! i)) = name"
  proof (cases "elf_section_find name c0")
    case None
    with ic section_find_all [OF ok0] show ?thesis
      by (simp add: add_section_def find_name_new)
  next
    case (Some j)
    with ic section_find_all [OF ok0] show ?thesis using find_name_some [of name "sections c0" j] by simp
  qed
  have old: "h_name (shdr (sections c1 ! j)) = h_name (shdr (sections c ! j))" if "j < length (sections c)" for j
    using c1 s(8) [OF that] that s(2) by (elim disjE) (simp_all add: add_section_def nth_append)
  show "elf_ok c1"
  proof (cases "elf_section_find name c0")
    case None
    have "unat (e_shnum (ehdr c0) + 1) = unat (e_shnum (ehdr c0)) + 1"
      by (rule unat_succ) (use ok0 s(2) room in \<open>simp add: elf_ok_iff has_room_def\<close>)
    moreover have "c1 = add_section name fl ty c0" using None ic by simp
    moreover have "unat name < length (names_of c0)" using s(7) .
    ultimately show ?thesis using ok0 names
      by (auto simp: elf_ok_iff add_section_def nth_append less_Suc_eq)
  next
    case (Some j)
    with ic ok0 show ?thesis by simp
  qed
  show "shstrtab c1 = shstrtab c" "\<exists>ys. names_of c1 = names_of c @ ys" using names s(3) ys by simp_all
  show "\<exists>n. elf_string_locate (names_of c1) (cstr nm) = Some (unat n) \<and> n \<noteq> 0 \<and> find_name n (sections c1) = Some i"
    using s(5,6) found names by (intro exI [of _ name]) simp
  show "name_at c1 i = cstr nm" using fetch found names by (simp add: name_at_def)
  show "\<forall>j < length (sections c). name_at c1 j = name_at c j"
    using old ok by (simp add: name_at_def names ys elf_string_get_append elf_ok_iff)
qed

subsection \<open>Creating is finding\<close>

text \<open>\<open>nm\<close> names section \<open>i\<close>; this survives every addition, and makes \<open>elf_section_create\<close> a look-up.\<close>

definition named :: "string \<Rightarrow> nat \<Rightarrow> elf_context \<Rightarrow> bool" where
  "named nm i c \<longleftrightarrow> (\<exists>n. elf_string_locate (names_of c) (cstr nm) = Some (unat n) \<and> n \<noteq> 0 \<and>
     find_name n (sections c) = Some i) \<and> name_at c i = cstr nm \<and> i < length (sections c)"

lemma section_create_named:
  assumes "elf_ok c" "name_ok (cstr nm)" "has_room nm c" "elf_section_create (Some nm) fl ty c = Some (i, c1)"
  shows "named nm i c1"
proof -
  note new = section_create_ok [OF assms]
  from new(4) obtain n where n: "elf_string_locate (names_of c1) (cstr nm) = Some (unat n) \<and> n \<noteq> 0 \<and>
    find_name n (sections c1) = Some i" ..
  then show ?thesis using new(5) find_name_some [of n "sections c1" i] unfolding named_def by blast
qed

lemma named_create:
  assumes "elf_ok c" "named nm i c"
  shows "elf_section_create (Some nm) fl ty c = Some (i, c)"
proof -
  from assms obtain n where n: "elf_string_locate (names_of c) (cstr nm) = Some (unat n)" "n \<noteq> 0"
    "find_name n (sections c) = Some i" by (auto simp: named_def)
  then have "section_name (Some nm) c = Some (n, c)"
    by (simp add: section_name_def names_of_def unsigned_eq_0_iff)
  then show ?thesis using n section_find_all [OF assms(1)] by (simp add: elf_section_create_def)
qed

lemma find_name_more: "find_name n ss = Some i \<Longrightarrow> find_name n (ss @ ts) = Some i"
  by (induction ss arbitrary: i) (auto split: if_splits)

lemma find_name_names: "map (\<lambda>s. h_name (shdr s)) ss = map (\<lambda>s. h_name (shdr s)) ts \<Longrightarrow> find_name n ss = find_name n ts"
  by (induction ss ts rule: list_induct2') auto

lemma named_kept:
  assumes "elf_ok c" "name_ok (cstr nm')" "has_room nm' c" "elf_section_create (Some nm') fl ty c = Some (j, c1)"
    and "named nm i c"
  shows "named nm i c1"
proof -
  from assms(5) obtain n where n: "elf_string_locate (names_of c) (cstr nm) = Some (unat n)" "n \<noteq> 0"
    "find_name n (sections c) = Some i" "i < length (sections c)" by (auto simp: named_def)
  note new = section_create_ok [OF assms(1-4)]
  then obtain ys where ys: "names_of c1 = names_of c @ ys" by blast
  obtain name c0 where c0: "section_name (Some nm') c = Some (name, c0)"
    and c1: "c1 = (case elf_section_find name c0 of Some i \<Rightarrow> c0 | None \<Rightarrow> add_section name fl ty c0)"
    using assms(4) by (auto simp: elf_section_create_def split: option.splits)
  note s = section_name_ok [OF assms(1-3) c0]
  have "map (\<lambda>s. h_name (shdr s)) (sections c0) = map (\<lambda>s. h_name (shdr s)) (sections c)"
    using s(2,8) by (simp add: list_eq_iff_nth_eq)
  from find_name_names [OF this] n(3) have "find_name n (sections c0) = Some i" by simp
  then have "find_name n (sections c1) = Some i"
    by (simp add: c1 add_section_def find_name_more split: option.split)
  moreover have "elf_string_locate (names_of c1) (cstr nm) = Some (unat n)"
    unfolding ys using n assms(1) by (intro locate_more) (simp_all add: elf_ok_iff unsigned_eq_0_iff)
  moreover have "name_at c1 i = cstr nm" using new(6) n(4) assms(5) by (simp add: named_def)
  ultimately show ?thesis using n(2) find_name_some [of n "sections c1" i] unfolding named_def by blast
qed

definition rooms :: "(string \<times> u32 \<times> u32) list \<Rightarrow> elf_context \<Rightarrow> bool" where
  "rooms ps c \<longleftrightarrow> length (names_of c) + (\<Sum>p \<leftarrow> ps. length (fst p) + 1) < 2 ^ 32 \<and>
     length (sections c) + length ps < 2 ^ 16 \<and> list_all (\<lambda>p. name_ok (cstr (fst p))) ps"

lemma rooms_step:
  assumes "elf_ok c" "rooms ((nm, fl, ty) # ps) c"
    and "elf_section_create (Some nm) fl ty c = Some (i, c1)"
  shows "has_room nm c" "name_ok (cstr nm)" "rooms ps c1"
proof -
  show room: "has_room nm c" and nm: "name_ok (cstr nm)" using assms(2) by (simp_all add: rooms_def has_room_def)
  obtain name c0 where c0: "section_name (Some nm) c = Some (name, c0)"
    and c1: "c1 = (case elf_section_find name c0 of Some i \<Rightarrow> c0 | None \<Rightarrow> add_section name fl ty c0)"
    using assms(3) by (auto simp: elf_section_create_def split: option.splits)
  note s = section_name_ok [OF assms(1) nm room c0]
  have "shstrtab c0 < length (sections c0)" using s(1) by (simp add: elf_ok_iff)
  then have "names_of c1 = names_of c0"
    by (simp add: c1 add_section_def names_of_def nth_append split: option.split)
  then have "length (names_of c1) \<le> length (names_of c) + length nm + 1" using s(4) by auto
  moreover have "length (sections c1) \<le> length (sections c) + 1"
    using s(2) by (simp add: c1 add_section_def split: option.split)
  ultimately show "rooms ps c1" using assms(2) by (simp add: rooms_def)
qed

lemma named_standard [simp]: "named nm i (c\<lparr>standard := xs\<rparr>) = named nm i c"
  by (simp add: named_def name_at_def names_of_def)

lemma elf_ok_standard [simp]: "elf_ok (c\<lparr>standard := xs\<rparr>) = elf_ok c"
  by (simp add: elf_ok_iff names_of_def)

lemma rooms_standard [simp]: "rooms ps (c\<lparr>standard := xs\<rparr>) = rooms ps c"
  by (simp add: rooms_def names_of_def)

lemma create_sections_keeps:
  "elf_ok c \<Longrightarrow> rooms ps c \<Longrightarrow> create_sections ps c = Some c' \<Longrightarrow>
     elf_ok c' \<and> (named nm i c \<longrightarrow> named nm i c')"
proof (induction ps c rule: create_sections.induct)
  case (2 nm' fl ty ps c)
  obtain j c1 where c1: "elf_section_create (Some nm') fl ty c = Some (j, c1)"
    "create_sections ps (c1\<lparr>standard := standard c1 @ [j]\<rparr>) = Some c'"
    using 2(4) by (auto simp: bind_eq_Some_conv)
  note r = rooms_step [OF 2(2,3) c1(1)]
  have "elf_ok c1" using section_create_ok(1) [OF 2(2) r(2,1) c1(1)] .
  with 2(1) [OF c1(1) refl _ _ c1(2)] r(3) named_kept [OF 2(2) r(2,1) c1(1)]
  show ?case by auto
qed simp

text \<open>
  C22. Once a section has been created under a name, asking for that name again, with whatever flags
  and after whatever other sections have been created, gives the same section, changes nothing, and
  the string table still spells its name.
\<close>

theorem section_found_again:
  assumes "elf_ok c" "rooms ((nm, fl, ty) # ps) c"
    and "elf_section_create (Some nm) fl ty c = Some (i, c1)" "create_sections ps c1 = Some c2"
  shows "elf_section_create (Some nm) fl' ty' c2 = Some (i, c2) \<and> name_at c2 i = cstr nm"
proof -
  note r = rooms_step [OF assms(1-3)]
  have "elf_ok c1" "named nm i c1"
    using section_create_ok(1) section_create_named assms(1,3) r by blast+
  with create_sections_keeps [OF _ r(3) assms(4)] have "elf_ok c2" "named nm i c2" by blast+
  then show ?thesis by (simp add: named_create) (simp add: named_def)
qed

definition fresh_context :: elf_context where
  "fresh_context = the (elf_create ''a.o'' 1)"

lemma fresh_context_ok: "elf_ok fresh_context"
  by code_simp

lemma fresh_context_rooms: "rooms ((''dp'', 0, 1) # standard_sections) fresh_context"
proof -
  have "length (names_of fresh_context) = 19 \<and> length (sections fresh_context) = 2" by code_simp
  then show ?thesis by (simp add: rooms_def standard_sections_def name_ok_def cstr_def of_char_eq_iff)
qed

lemma section_found_again_witness:
  "\<exists>i c1 c2. elf_section_create (Some ''dp'') 0 1 fresh_context = Some (i, c1) \<and>
     create_sections standard_sections c1 = Some c2 \<and> elf_section_create (Some ''dp'') 4 1 c2 = Some (i, c2)"
proof -
  have "Option.bind (elf_section_create (Some ''dp'') 0 1 fresh_context)
       (\<lambda>(i, c1). create_sections standard_sections c1) \<noteq> None" by code_simp
  then obtain i c1 c2 where c: "elf_section_create (Some ''dp'') 0 1 fresh_context = Some (i, c1)"
    "create_sections standard_sections c1 = Some c2"
    by (auto simp: bind_eq_None_conv)
  from section_found_again [OF fresh_context_ok fresh_context_rooms c] c show ?thesis by blast
qed

end
