(* ===== verification/ElfWrite.thy ===== *)
theory ElfWrite
  imports Elf
begin

text \<open>
  The files of \<open>shared/src/elf_file.c\<close>: writing a context as an executable, an object, a raw binary or
  a paper-tape (TIM) file, and \<open>elf_read\<close>. A file is its bytes; opening and \<open>write\<close> succeed. The C
  code writes its structures as they are in memory, little-endian and without padding.
\<close>

subsection \<open>Structures as bytes\<close>

fun get_words :: "nat \<Rightarrow> u8 list \<Rightarrow> u32 list" where
  "get_words 0 d = []"
| "get_words (Suc n) d = le_value (take 4 d) # get_words n (drop 4 d)"

fun get_halves :: "nat \<Rightarrow> u8 list \<Rightarrow> u16 list" where
  "get_halves 0 d = []"
| "get_halves (Suc n) d = ucast (le_value (take 2 d)) # get_halves n (drop 2 d)"

definition ehdr_bytes :: "ehdr \<Rightarrow> u8 list" where
  "ehdr_bytes h = e_ident h @ concat (map half2 [e_type h, eh_machine h]) @
     concat (map word4 [e_version h, e_entry h, e_phoff h, e_shoff h, e_flags h]) @
     concat (map half2 [e_ehsize h, e_phentsize h, e_phnum h, e_shentsize h, e_shnum h, e_shstrndx h])"

definition bytes_ehdr :: "u8 list \<Rightarrow> ehdr" where
  "bytes_ehdr d =
     (let a = get_halves 2 (drop 16 d); w = get_words 5 (drop 20 d); b = get_halves 6 (drop 40 d)
      in \<lparr>e_ident = take 16 d, e_type = a ! 0, eh_machine = a ! 1, e_version = w ! 0, e_entry = w ! 1,
          e_phoff = w ! 2, e_shoff = w ! 3, e_flags = w ! 4, e_ehsize = b ! 0, e_phentsize = b ! 1,
          e_phnum = b ! 2, e_shentsize = b ! 3, e_shnum = b ! 4, e_shstrndx = b ! 5\<rparr>)"

definition shdr_bytes :: "shdr \<Rightarrow> u8 list" where
  "shdr_bytes h = concat (map word4 [h_name h, h_type h, h_flags h, h_addr h, h_offset h, h_size h, h_link h,
     h_info h, h_addralign h, h_entsize h])"

definition bytes_shdr :: "u8 list \<Rightarrow> shdr" where
  "bytes_shdr d =
     (let w = get_words 10 d
      in \<lparr>h_name = w ! 0, h_type = w ! 1, h_flags = w ! 2, h_addr = w ! 3, h_offset = w ! 4, h_size = w ! 5,
          h_link = w ! 6, h_info = w ! 7, h_addralign = w ! 8, h_entsize = w ! 9\<rparr>)"

definition phdr_bytes :: "u32 list \<Rightarrow> u8 list" where
  "phdr_bytes ws = concat (map word4 ws)"

lemma get_words_read [simp]: "get_words (length ws) (concat (map word4 ws) @ r) = ws"
  by (induction ws) simp_all

lemma get_halves_read [simp]: "get_halves (length ws) (concat (map half2 ws) @ r) = ws"
  by (induction ws) simp_all

lemma get_words_n: "length ws = n \<Longrightarrow> get_words n (concat (map word4 ws) @ r) = ws"
  using get_words_read by blast

lemma get_halves_n: "length ws = n \<Longrightarrow> get_halves n (concat (map half2 ws) @ r) = ws"
  using get_halves_read by blast

lemma length_ehdr_bytes: "length (e_ident h) = 16 \<Longrightarrow> length (ehdr_bytes h) = 52"
  by (simp add: ehdr_bytes_def)

lemma length_shdr_bytes [simp]: "length (shdr_bytes h) = 40"
  by (simp add: shdr_bytes_def)

lemma bytes_shdr_read [simp]: "bytes_shdr (shdr_bytes h @ r) = h"
proof -
  have "get_words 10 (shdr_bytes h @ r) = [h_name h, h_type h, h_flags h, h_addr h, h_offset h, h_size h, h_link h,
     h_info h, h_addralign h, h_entsize h]"
    unfolding shdr_bytes_def by (rule get_words_n) simp
  then show ?thesis by (simp add: bytes_shdr_def Let_def)
qed

lemma bytes_ehdr_read:
  assumes "length (e_ident h) = 16"
  shows "bytes_ehdr (ehdr_bytes h @ r) = h"
proof -
  let ?w = "[e_version h, e_entry h, e_phoff h, e_shoff h, e_flags h]"
  let ?b = "[e_ehsize h, e_phentsize h, e_phnum h, e_shentsize h, e_shnum h, e_shstrndx h]"
  let ?a = "[e_type h, eh_machine h]"
  let ?d = "ehdr_bytes h @ r"
  have d: "take 16 ?d = e_ident h"
    "drop 16 ?d = concat (map half2 ?a) @ concat (map word4 ?w) @ concat (map half2 ?b) @ r"
    using assms by (simp_all only: ehdr_bytes_def append.assoc take_append_exact drop_append_exact)
  have d2: "drop 20 ?d = concat (map word4 ?w) @ concat (map half2 ?b) @ r"
    "drop 40 ?d = concat (map half2 ?b) @ r"
    using assms by (simp_all add: ehdr_bytes_def drop_append)
  have "get_halves 2 (drop 16 ?d) = ?a" "get_words 5 (drop 20 ?d) = ?w" "get_halves 6 (drop 40 ?d) = ?b"
    unfolding d d2 by (rule get_halves_n get_words_n, simp)+
  then show ?thesis by (simp only: bytes_ehdr_def Let_def d(1)) simp
qed

subsection \<open>Writing\<close>

definition sec_bss :: "esec \<Rightarrow> bool" where
  "sec_bss s \<longleftrightarrow> h_type (shdr s) AND SHT_NOBITS \<noteq> 0"

definition sec_text :: "esec \<Rightarrow> bool" where
  "sec_text s \<longleftrightarrow> h_type (shdr s) AND SHT_PROGBITS \<noteq> 0"

definition sec_code :: "esec \<Rightarrow> bool" where
  "sec_code s \<longleftrightarrow> sec_text s \<and> h_flags (shdr s) AND SHF_EXECINSTR \<noteq> 0"

definition file_size :: "esec \<Rightarrow> u32" where
  "file_size s = (if sec_bss s then 0 else h_size (shdr s))"

text \<open>The sections the loops over \<open>e_shnum\<close> visit.\<close>

definition written :: "elf_context \<Rightarrow> esec list" where
  "written c = take (unat (e_shnum (ehdr c))) (sections c)"

definition PT_LOAD :: u32 where "PT_LOAD = 1"

definition pflags :: "u32 \<Rightarrow> u32" where
  "pflags fl = (if fl AND SHF_EXECINSTR \<noteq> 0 then PT_LOAD else 0)"

text \<open>The program header loop: \<open>off\<close> is \<open>phdr_buf->p_offset\<close>.\<close>

fun program_headers :: "esec list \<Rightarrow> u32 \<Rightarrow> u8 list" where
  "program_headers [] off = []"
| "program_headers (s # ss) off =
     (let sz = file_size s in
      if 0 < sz
      then phdr_bytes [PT_LOAD, off, h_addr (shdr s), h_addr (shdr s), sz, sz, pflags (h_flags (shdr s)), 0] @
        program_headers ss (off + sz)
      else program_headers ss off)"

text \<open>The data loop: the sections with their offsets set, and the bytes written.\<close>

fun place :: "esec list \<Rightarrow> u32 \<Rightarrow> esec list \<times> u8 list" where
  "place [] off = ([], [])"
| "place (s # ss) off =
     (let sz = file_size s; (ss', d) = place ss (off + sz)
      in (s\<lparr>shdr := (shdr s)\<lparr>h_offset := off\<rparr>\<rparr> # ss', take (unat sz) (bytes s) @ d))"

definition headers :: "esec list \<Rightarrow> u8 list" where
  "headers ss = concat (map (\<lambda>s. shdr_bytes (shdr s)) ss)"

definition elf_write_executable :: "elf_context \<Rightarrow> elf_context \<times> u8 list" where
  "elf_write_executable c =
     (let ss = written c;
          loaded = filter (\<lambda>s. 0 < file_size s) ss;
          h = (ehdr c)\<lparr>e_phnum := of_nat (length loaded), e_phoff := 52,
                e_shoff := 52 + (\<Sum>s \<leftarrow> loaded. 32 + file_size s)\<rparr>;
          (ss', d) = place ss (52 + of_nat (length loaded) * 32)
      in (c\<lparr>ehdr := h, sections := ss' @ drop (length ss) (sections c)\<rparr>,
          ehdr_bytes h @ program_headers ss (52 + 32 * ucast (e_phnum h)) @ d @ headers ss'))"

text \<open>
  \<open>elf_write_object\<close> sets no offsets, and writes the bytes of every section with a size, although the
  position it computes for the section headers leaves the bss sections out.
\<close>

definition elf_write_object :: "elf_context \<Rightarrow> elf_context \<times> u8 list" where
  "elf_write_object c =
     (let ss = written c;
          h = (ehdr c)\<lparr>e_phoff := 0, e_shoff := 52 + (\<Sum>s \<leftarrow> ss. file_size s)\<rparr>
      in (c\<lparr>ehdr := h\<rparr>,
          ehdr_bytes h @ concat (map (\<lambda>s. take (unat (h_size (shdr s))) (bytes s)) ss) @ headers ss))"

definition elf_write_binary :: "elf_context \<Rightarrow> u8 list" where
  "elf_write_binary c =
     concat (map (\<lambda>s. take (unat (h_size (shdr s))) (bytes s)) (filter sec_code (written c)))"

subsection \<open>Paper tape\<close>

text \<open>\<open>%0nX\<close>, and one record: count, address, bytes, checksum.\<close>

fun hex_digits :: "nat \<Rightarrow> nat \<Rightarrow> string" where
  "hex_digits 0 v = []"
| "hex_digits (Suc n) v = hex_digits n (v div 16) @ [''0123456789ABCDEF'' ! (v mod 16)]"

fun hex_length :: "nat \<Rightarrow> nat" where
  "hex_length v = (if v < 16 then 1 else Suc (hex_length (v div 16)))"

declare hex_length.simps [simp del]

definition hex :: "nat \<Rightarrow> nat \<Rightarrow> string" where
  "hex n v = hex_digits (max n (hex_length v)) v"

definition tim_record :: "nat \<Rightarrow> u8 list \<Rightarrow> string" where
  "tim_record a d =
     (let csum = length d + a div 256 + a mod 256 + (\<Sum>b \<leftarrow> d. unat b)
      in '';'' @ hex 2 (length d) @ hex 4 a @ concat (map (\<lambda>b. hex 2 (unat b)) d) @ hex 4 csum @ [CHR 0x0A])"

function tim_records :: "nat \<Rightarrow> u8 list \<Rightarrow> string" where
  "tim_records a d = (if d = [] then [] else tim_record a (take 16 d) @ tim_records (a + 16) (drop 16 d))"
  by pat_completeness auto
termination by (relation "measure (\<lambda>(a, d). length d)") auto

declare tim_records.simps [simp del]

definition elf_write_tim :: "string \<Rightarrow> elf_context \<Rightarrow> (elf_context \<times> string) option" where
  "elf_write_tim old c =
     map_option (\<lambda>c.
         case current c of
           None \<Rightarrow> (c, old)
         | Some i \<Rightarrow>
             (c, old @ tim_records (unat (h_addr (shdr (sections c ! i))))
                (take (unat (h_size (shdr (sections c ! i)))) (bytes (sections c ! i))) @
                '';00'' @ [CHR 0x0A]))
       (elf_set_section ''text'' c)"

subsection \<open>Reading\<close>

text \<open>
  \<open>NotElf\<close> is the null result after "Invalid ELF file"; \<open>Malformed\<close> a section header that could not be
  read, whose fields the C code then uses without their having been set; \<open>Elf\<close> carries the header,
  the sections (a section's bytes as far as the file had them) and the number of sections reported
  as malformed.
\<close>

datatype read_result =
    NotElf
  | Malformed
  | Elf ehdr "esec list" nat

fun read_shdrs :: "nat \<Rightarrow> u8 list \<Rightarrow> shdr list option" where
  "read_shdrs 0 d = Some []"
| "read_shdrs (Suc n) d =
     (if length d < 40 then None
      else map_option ((#) (bytes_shdr d)) (read_shdrs n (drop 40 d)))"

definition read_section :: "u8 list \<Rightarrow> shdr \<Rightarrow> esec" where
  "read_section file h = \<lparr>shdr = h, bytes = take (unat (h_size h)) (drop (unat (h_offset h)) file)\<rparr>"

definition elf_read :: "u8 list \<Rightarrow> read_result" where
  "elf_read file =
     (if length file < 52 \<or> take 4 file \<noteq> [0x7f, 0x45, 0x4c, 0x46] then NotElf
      else
        (let h = bytes_ehdr file
         in case read_shdrs (unat (e_shnum h)) (drop (unat (e_shoff h)) file) of
              None \<Rightarrow> Malformed
            | Some hs \<Rightarrow>
                (let ss = map (read_section file) hs
                 in Elf h ss (length (filter (\<lambda>s. length (bytes s) \<noteq> unat (h_size (shdr s))) ss)))))"

subsection \<open>What was written is read\<close>

lemma read_shdrs_written: "read_shdrs (length ss) (headers ss @ r) = Some (map shdr ss)"
  by (induction ss) (simp_all add: headers_def)

text \<open>\<open>fits n ss\<close>: the sections hold what their headers say, and \<open>n\<close> more bytes than that can be counted.\<close>

definition fits :: "nat \<Rightarrow> esec list \<Rightarrow> bool" where
  "fits n ss \<longleftrightarrow> list_all (\<lambda>s. sec_bss s \<or> length (bytes s) = unat (h_size (shdr s))) ss \<and>
     n + (\<Sum>s \<leftarrow> ss. unat (file_size s)) < 2 ^ 32"

lemma u32_add: "unat (a :: u32) + unat b < 2 ^ 32 \<Longrightarrow> unat (a + b) = unat a + unat b"
  by (simp add: unat_word_ariths)

lemma sum_sizes: "(\<Sum>s \<leftarrow> ss. unat (file_size s)) < 2 ^ 32 \<Longrightarrow>
    unat (\<Sum>s \<leftarrow> ss. file_size s) = (\<Sum>s \<leftarrow> ss. unat (file_size s))"
  by (induction ss) (simp_all add: u32_add)

text \<open>
  Placing sections after \<open>pre\<close> puts the bytes of each where its new header says.
\<close>

lemma place_found:
  assumes "place ss off = (ss', d)" "fits (unat off) ss" "length pre = unat off"
  shows "length d = (\<Sum>s \<leftarrow> ss. unat (file_size s))"
    "list_all2 (\<lambda>s s'. \<exists>k. s' = s\<lparr>shdr := (shdr s)\<lparr>h_offset := k\<rparr>\<rparr> \<and>
       (\<not> sec_bss s \<longrightarrow> bytes (read_section (pre @ d @ post) (shdr s')) = bytes s)) ss ss'"
proof -
  have "length d = (\<Sum>s \<leftarrow> ss. unat (file_size s)) \<and>
    list_all2 (\<lambda>s s'. \<exists>k. s' = s\<lparr>shdr := (shdr s)\<lparr>h_offset := k\<rparr>\<rparr> \<and>
       (\<not> sec_bss s \<longrightarrow> bytes (read_section (pre @ d @ post) (shdr s')) = bytes s)) ss ss'"
    using assms
  proof (induction ss off arbitrary: ss' d pre rule: place.induct)
    case (2 s ss off)
    let ?sz = "file_size s"
    obtain ss1 d1 where p: "place ss (off + ?sz) = (ss1, d1)" by (metis surj_pair)
    have eq: "ss' = s\<lparr>shdr := (shdr s)\<lparr>h_offset := off\<rparr>\<rparr> # ss1" "d = take (unat ?sz) (bytes s) @ d1"
      using 2(2) p by (auto simp: Let_def)
    have u: "unat (off + ?sz) = unat off + unat ?sz" using 2(3) by (intro u32_add) (simp add: fits_def)
    have len: "length (take (unat ?sz) (bytes s)) = unat ?sz"
      using 2(3) by (auto simp: fits_def file_size_def)
    have "fits (unat (off + ?sz)) ss" using 2(3) u by (simp add: fits_def)
    moreover have "length (pre @ take (unat ?sz) (bytes s)) = unat (off + ?sz)"
      using 2(4) len u by simp
    ultimately have ih: "length d1 = (\<Sum>s \<leftarrow> ss. unat (file_size s))"
      "list_all2 (\<lambda>s s'. \<exists>k. s' = s\<lparr>shdr := (shdr s)\<lparr>h_offset := k\<rparr>\<rparr> \<and>
       (\<not> sec_bss s \<longrightarrow> bytes (read_section (pre @ d @ post) (shdr s')) = bytes s)) ss ss1"
      using 2(1) [OF refl p, of "pre @ take (unat ?sz) (bytes s)"] eq(2) by simp_all
    have "bytes (read_section (pre @ d @ post) ((shdr s)\<lparr>h_offset := off\<rparr>)) = bytes s" if "\<not> sec_bss s"
      using that 2(3,4) eq(2) by (simp add: read_section_def fits_def file_size_def)
    then show ?case using ih len eq by auto
  qed simp
  then show "length d = (\<Sum>s \<leftarrow> ss. unat (file_size s))"
    "list_all2 (\<lambda>s s'. \<exists>k. s' = s\<lparr>shdr := (shdr s)\<lparr>h_offset := k\<rparr>\<rparr> \<and>
       (\<not> sec_bss s \<longrightarrow> bytes (read_section (pre @ d @ post) (shdr s')) = bytes s)) ss ss'"
    by blast+
qed

lemma length_program_headers:
  "length (program_headers ss off) = 32 * length (filter (\<lambda>s. 0 < file_size s) ss)"
  by (induction ss off rule: program_headers.induct) (simp_all add: Let_def phdr_bytes_def)

lemma length_place: "length (fst (place ss off)) = length ss"
  by (induction ss off rule: place.induct) (auto simp: Let_def split: prod.splits)

text \<open>The context is one a file can be written from.\<close>

definition writable :: "elf_context \<Rightarrow> bool" where
  "writable c \<longleftrightarrow> length (e_ident (ehdr c)) = 16 \<and> take 4 (e_ident (ehdr c)) = [0x7f, 0x45, 0x4c, 0x46] \<and>
     unat (e_shnum (ehdr c)) = length (sections c) \<and> fits (52 + 32 * length (sections c)) (sections c)"

lemma sum_loaded:
  "(\<Sum>s \<leftarrow> filter (\<lambda>s. 0 < file_size s) ss. 32 + file_size s) =
     32 * of_nat (length (filter (\<lambda>s. 0 < file_size s) ss)) + (\<Sum>s \<leftarrow> ss. file_size s)"
  by (induction ss) (simp_all add: algebra_simps word_neq_0_conv [symmetric])

lemma u32_small: "n < 2 ^ 32 \<Longrightarrow> unat (of_nat n :: u32) = n"
  by (simp add: unsigned_of_nat take_bit_nat_eq_self)

lemma length_headers [simp]: "length (headers ss) = 40 * length ss"
  by (induction ss) (simp_all add: headers_def)

text \<open>Reading a file that starts with an ELF header and has its section headers where that says.\<close>

lemma elf_read_file:
  assumes "length (e_ident h) = 16" "take 4 (e_ident h) = [0x7f, 0x45, 0x4c, 0x46]"
    and "unat (e_shnum h) = length ss" "unat (e_shoff h) = 52 + length d"
    and "file = ehdr_bytes h @ d @ headers ss"
  shows "\<exists>e. elf_read file = Elf h (map (\<lambda>s. read_section file (shdr s)) ss) e"
proof -
  have len: "length (ehdr_bytes h) = 52" using assms(1) by (rule length_ehdr_bytes)
  have "take 4 file = take 4 (e_ident h)" using assms(1,5) by (simp add: ehdr_bytes_def)
  then have magic: "take 4 file = [0x7f, 0x45, 0x4c, 0x46]" using assms(2) by simp
  have h: "bytes_ehdr file = h" unfolding assms(5) by (rule bytes_ehdr_read [OF assms(1)])
  have "drop (unat (e_shoff h)) file = headers ss" using assms(4,5) len by simp
  then have "read_shdrs (unat (e_shnum h)) (drop (unat (e_shoff h)) file) = Some (map shdr ss)"
    using read_shdrs_written [of ss "[]"] assms(3) by simp
  moreover have "52 \<le> length file" using len assms(5) by simp
  ultimately show ?thesis using magic by (simp add: elf_read_def h Let_def comp_def)
qed

text \<open>
  C12. An executable written from a context is read back: the same file header, and every section
  with its header, but for the file offset, and with its bytes unless it is a bss section.
\<close>

theorem executable_reads_back:
  assumes "writable c" "elf_write_executable c = (c', file)"
  shows "\<exists>ss e. elf_read file = Elf (ehdr c') ss e \<and>
    list_all2 (\<lambda>s s'. \<exists>k. shdr s' = (shdr s)\<lparr>h_offset := k\<rparr> \<and> (sec_bss s \<or> bytes s' = bytes s)) (sections c) ss"
proof -
  let ?ss = "sections c"
  let ?n = "length (filter (\<lambda>s. 0 < file_size s) ?ss)"
  let ?off = "52 + of_nat ?n * 32 :: u32"
  have all: "written c = ?ss" using assms(1) by (simp add: written_def writable_def)
  obtain ss' d where p: "place ?ss ?off = (ss', d)" by (metis surj_pair)
  define h where "h = (ehdr c)\<lparr>e_phnum := of_nat ?n, e_phoff := 52,
    e_shoff := 52 + (\<Sum>s \<leftarrow> filter (\<lambda>s. 0 < file_size s) ?ss. 32 + file_size s)\<rparr>"
  define ph where "ph = program_headers ?ss (52 + 32 * ucast (e_phnum h))"
  have out: "file = ehdr_bytes h @ ph @ d @ headers ss'" and h': "ehdr c' = h"
    using assms(2) p by (auto simp: elf_write_executable_def all Let_def h_def ph_def)
  have le: "?n \<le> length ?ss" by simp
  have room: "52 + 32 * length ?ss + (\<Sum>s \<leftarrow> ?ss. unat (file_size s)) < 2 ^ 32"
    using assms(1) by (simp add: writable_def fits_def)
  with le have "52 + 32 * ?n < 2 ^ 32" by linarith
  then have off: "unat ?off = 52 + 32 * ?n"
    using u32_small [of "52 + 32 * ?n"] by (simp add: mult.commute)
  have fits: "fits (unat ?off) ?ss"
    unfolding fits_def off using assms(1) le room by (simp add: writable_def fits_def; linarith)
  have len: "length (ehdr_bytes h @ ph) = unat ?off"
    using assms(1) by (simp add: off ph_def length_program_headers length_ehdr_bytes h_def writable_def)
  note placed = place_found(1) [OF p fits len] place_found(2) [OF p fits len, of "headers ss'"]
  have "e_shoff h = 52 + (\<Sum>s \<leftarrow> filter (\<lambda>s. 0 < file_size s) ?ss. 32 + file_size s)"
    by (simp add: h_def)
  then have "e_shoff h = ?off + (\<Sum>s \<leftarrow> ?ss. file_size s)"
    by (simp only: sum_loaded) simp
  moreover have "unat (\<Sum>s \<leftarrow> ?ss. file_size s) = length d"
    using placed(1) room by (simp add: sum_sizes)
  moreover have "unat ?off + length d < 2 ^ 32"
    unfolding off placed(1) using room le by linarith
  ultimately have "unat (e_shoff h) = unat ?off + length d"
    using u32_add [of ?off "\<Sum>s \<leftarrow> ?ss. file_size s"] by simp
  moreover have "length ss' = length ?ss" using length_place [of ?ss ?off] p by simp
  ultimately obtain e where "elf_read file = Elf h (map (\<lambda>s. read_section file (shdr s)) ss') e"
    using elf_read_file [of h ss' "ph @ d" "file"] assms(1) out len
    by (auto simp: h_def writable_def length_ehdr_bytes)
  moreover have "list_all2 (\<lambda>s s'. \<exists>k. shdr s' = (shdr s)\<lparr>h_offset := k\<rparr> \<and> (sec_bss s \<or> bytes s' = bytes s)) ?ss
      (map (\<lambda>s. read_section file (shdr s)) ss')"
    unfolding list_all2_map2 using placed(2)
    by (rule list_all2_mono) (auto simp: out read_section_def)
  ultimately show ?thesis using h' by blast
qed

text \<open>
  C38. An object file is written without file offsets: when the sections' offsets are 0, as
  \<open>elf_section_create\<close> leaves them, and no bss section has a size, what is read back as a section's
  bytes is the beginning of the file, the ELF header, and not what the section held.
\<close>

theorem object_reads_header:
  assumes "writable c" "elf_write_object c = (c', file)"
    and "\<forall>s \<in> set (sections c). h_offset (shdr s) = 0 \<and> (sec_bss s \<longrightarrow> h_size (shdr s) = 0)"
  shows "\<exists>ss e. elf_read file = Elf (ehdr c') ss e \<and> map shdr ss = map shdr (sections c) \<and>
    (\<forall>s \<in> set ss. bytes s = take (unat (h_size (shdr s))) file)"
proof -
  let ?ss = "sections c"
  let ?d = "concat (map (\<lambda>s. take (unat (h_size (shdr s))) (bytes s)) ?ss)"
  have all: "written c = ?ss" using assms(1) by (simp add: written_def writable_def)
  define h where "h = (ehdr c)\<lparr>e_phoff := 0, e_shoff := 52 + (\<Sum>s \<leftarrow> ?ss. file_size s)\<rparr>"
  have out: "file = ehdr_bytes h @ ?d @ headers ?ss" and h': "ehdr c' = h"
    using assms(2) by (auto simp: elf_write_object_def all Let_def h_def)
  have room: "52 + (\<Sum>s \<leftarrow> ?ss. unat (file_size s)) < 2 ^ 32"
    using assms(1) by (simp add: writable_def fits_def)
  have size: "min (length (bytes s)) (unat (h_size (shdr s))) = unat (file_size s)" if "s \<in> set ?ss" for s
    using that assms(1,3) by (auto simp: file_size_def writable_def fits_def list_all_iff)
  then have d: "length ?d = (\<Sum>s \<leftarrow> ?ss. unat (file_size s))"
    by (simp add: length_concat comp_def cong: map_cong)
  have "unat (e_shoff h) = 52 + length ?d"
    unfolding d using room by (simp add: h_def) (subst u32_add, simp_all add: sum_sizes)
  then obtain e where "elf_read file = Elf h (map (\<lambda>s. read_section file (shdr s)) ?ss) e"
    using elf_read_file [of h ?ss ?d "file"] assms(1) out by (auto simp: h_def writable_def)
  with h' assms(3) show ?thesis by (auto simp: read_section_def comp_def)
qed

definition sample_context :: elf_context where
  "sample_context = upd_section 8 (set_bytes [0xa9, 0x01, 0x60])
     (the (Option.bind (elf_create ''a.elf'' 1) (create_standard_file 0x8000)))"

lemma sample_writable: "writable sample_context"
proof -
  have "length (e_ident (ehdr sample_context)) = 16 \<and> take 4 (e_ident (ehdr sample_context)) = [0x7f, 0x45, 0x4c, 0x46] \<and>
      unat (e_shnum (ehdr sample_context)) = length (sections sample_context)"
    "list_all (\<lambda>s. sec_bss s \<or> length (bytes s) = unat (h_size (shdr s))) (sections sample_context)"
    by code_simp+
  moreover have "length (sections sample_context) = 9" "(\<Sum>s \<leftarrow> sections sample_context. unat (file_size s)) = 72"
    by code_simp+
  ultimately show ?thesis by (simp add: writable_def fits_def)
qed

lemma executable_reads_back_witness:
  "\<exists>ss e. elf_read (snd (elf_write_executable sample_context)) =
      Elf (ehdr (fst (elf_write_executable sample_context))) ss e \<and>
    list_all2 (\<lambda>s s'. \<exists>k. shdr s' = (shdr s)\<lparr>h_offset := k\<rparr> \<and> (sec_bss s \<or> bytes s' = bytes s))
      (sections sample_context) ss"
  by (rule executable_reads_back [OF sample_writable]) simp

lemma sample_offsets:
  "\<forall>s \<in> set (sections sample_context). h_offset (shdr s) = 0 \<and> (sec_bss s \<longrightarrow> h_size (shdr s) = 0)"
  by code_simp

lemma object_reads_header_witness:
  "\<exists>ss e. elf_read (snd (elf_write_object sample_context)) =
      Elf (ehdr (fst (elf_write_object sample_context))) ss e \<and> map shdr ss = map shdr (sections sample_context) \<and>
    (\<forall>s \<in> set ss. bytes s = take (unat (h_size (shdr s))) (snd (elf_write_object sample_context)))"
  by (rule object_reads_header [OF sample_writable _ sample_offsets]) simp

end
