(* ===== verification/Module816.thy ===== *)
theory Module816
  imports Sections
begin

text \<open>
  The Oberon module file of \<open>shared/src/elf_file.c\<close> (\<open>elf_write_816\<close>), its symbol file (\<open>elf_write_smb\<close>),
  and their readers: \<open>parse_816_file\<close> of oc/src/disasm.c and the \<open>import\<close> directive of as-c/src/as.c. A
  file being read is the list of the bytes not read yet.
\<close>

subsection \<open>Variable-length numbers\<close>

text \<open>\<open>write_num\<close> and \<open>smb_read_num\<close>; a number is an \<open>int32_t\<close>, its value the integer.\<close>

function write_num :: "int \<Rightarrow> u8 list" where
  "write_num x =
     (if x < -64 \<or> 64 \<le> x then of_int (x mod 128 + 128) # write_num (x div 128)
      else [of_int (x mod 128)])"
  by pat_completeness auto
termination
proof (relation "measure (\<lambda>x. nat \<bar>x\<bar>)")
  fix x :: int
  assume "x < -64 \<or> 64 \<le> x"
  then have "\<bar>x div 128\<bar> < \<bar>x\<bar>" by (elim disjE) linarith+
  then show "(x div 128, x) \<in> measure (\<lambda>x. nat \<bar>x\<bar>)" by simp
qed simp

declare write_num.simps [simp del]

fun read_num_from :: "u32 \<Rightarrow> nat \<Rightarrow> u8 list \<Rightarrow> u32 \<times> u8 list" where
  "read_num_from x shift [] = (0, [])"
| "read_num_from x shift (b # bs) =
     (let x = x OR push_bit shift (ucast (b AND 0x7F)); shift = shift + 7
      in if b AND 0x80 \<noteq> 0 then read_num_from x shift bs
         else (if b AND 0x40 \<noteq> 0 \<and> shift < 32 then x OR (- push_bit shift 1) else x, bs))"

definition smb_read_num :: "u8 list \<Rightarrow> u32 \<times> u8 list" where
  "smb_read_num bs = read_num_from 0 0 bs"

lemma int_or_shift: "0 \<le> a \<Longrightarrow> a < 2 ^ s \<Longrightarrow> a OR y * 2 ^ s = a + y * 2 ^ (s :: nat)" for a y :: int
proof -
  assume a: "0 \<le> a" "a < 2 ^ s"
  have "a AND y * 2 ^ s = 0"
  proof (rule bit_eqI)
    fix n
    have "take_bit s a = a" using a by (simp add: take_bit_int_eq_self)
    then have "\<not> bit a n" if "s \<le> n" using that by (metis bit_take_bit_iff not_less)
    moreover have "y * 2 ^ s = push_bit s y" by (simp add: push_bit_eq_mult)
    ultimately show "bit (a AND y * 2 ^ s) n = bit (0 :: int) n"
      by (auto simp: bit_simps)
  qed
  then show ?thesis by (simp add: disjunctive_add_eq_or)
qed

text \<open>The byte \<open>m\<close> (less than 128) joins what has been read, and \<open>0x80\<close> and \<open>0x40\<close> are told apart.\<close>

lemma num_byte:
  fixes m :: int
  assumes "0 \<le> m" "m < 128"
  shows "(of_int m :: u8) AND 0x80 = 0" "(of_int (m + 128) :: u8) AND 0x80 \<noteq> 0"
    "(of_int m :: u8) AND 0x40 \<noteq> 0 \<longleftrightarrow> 64 \<le> m"
    "ucast ((of_int m :: u8) AND 0x7F) = (of_int m :: u32)"
    "ucast ((of_int (m + 128) :: u8) AND 0x7F) = (of_int m :: u32)"
proof -
  have all: "\<forall>m \<in> set [0..<128]. (of_int (int m) :: u8) AND 0x80 = 0 \<and> (of_int (int m + 128) :: u8) AND 0x80 \<noteq> 0 \<and>
    ((of_int (int m) :: u8) AND 0x40 \<noteq> 0 \<longleftrightarrow> 64 \<le> m) \<and>
    ucast ((of_int (int m) :: u8) AND 0x7F) = (of_int (int m) :: u32) \<and>
    ucast ((of_int (int m + 128) :: u8) AND 0x7F) = (of_int (int m) :: u32)"
    by code_simp
  have "nat m \<in> set [0..<128]" "int (nat m) = m" using assms by auto
  from bspec [OF all this(1)] this(2)
  show "(of_int m :: u8) AND 0x80 = 0" "(of_int (m + 128) :: u8) AND 0x80 \<noteq> 0"
    "(of_int m :: u8) AND 0x40 \<noteq> 0 \<longleftrightarrow> 64 \<le> m"
    "ucast ((of_int m :: u8) AND 0x7F) = (of_int m :: u32)"
    "ucast ((of_int (m + 128) :: u8) AND 0x7F) = (of_int m :: u32)"
    by (simp_all add: le_nat_iff)
qed

lemma push_of_int: "push_bit n (of_int m :: u32) = of_int (m * 2 ^ n)"
  by (simp add: push_bit_eq_mult)

lemma read_num_written:
  "0 \<le> a \<Longrightarrow> a < 2 ^ s \<Longrightarrow> s = 7 * k \<Longrightarrow> k \<le> 4 \<Longrightarrow> - (2 ^ (31 - s)) \<le> x \<Longrightarrow> x < 2 ^ (31 - s) \<Longrightarrow>
     read_num_from (of_int a) s (write_num x @ r) = (of_int (a + x * 2 ^ s), r)"
proof (induction x arbitrary: a s k rule: write_num.induct)
  case (1 x)
  define m where "m = x mod 128"
  have m: "0 \<le> m" "m < 128" by (simp_all add: m_def)
  note bits = num_byte [OF m]
  have join: "(of_int a :: u32) OR push_bit s (of_int m) = of_int (a + m * 2 ^ s)"
    by (simp only: push_of_int of_int_or_eq [symmetric] int_or_shift [OF 1(2,3)])
  show ?case
  proof (cases "x < -64 \<or> 64 \<le> x")
    case True
    have w: "write_num x = of_int (m + 128) # write_num (x div 128)"
      using True by (subst write_num.simps) (simp add: m_def)
    have k: "k < 4"
    proof (rule ccontr)
      assume "\<not> k < 4"
      with 1(4,5) have "s = 28" by simp
      with 1(6,7) True show False by simp
    qed
    have pow: "(2 :: int) ^ (31 - s) = 128 * 2 ^ (31 - (s + 7))"
    proof -
      have "31 - s = (31 - (s + 7)) + 7" using k 1(4) by simp
      then show ?thesis by (simp only: power_add) simp
    qed
    have "0 \<le> a + m * 2 ^ s" using 1(2) m by simp
    moreover have "a + m * 2 ^ s < 2 ^ (s + 7)"
    proof -
      have "m * 2 ^ s \<le> 127 * 2 ^ s" using m by (intro mult_right_mono) simp_all
      moreover have "(2 :: int) ^ (s + 7) = 128 * 2 ^ s" by (simp add: power_add)
        ultimately show ?thesis using 1(3) by linarith
    qed
    moreover have "- (2 ^ (31 - (s + 7))) \<le> x div 128" "x div 128 < 2 ^ (31 - (s + 7))"
      using 1(6,7) unfolding pow by linarith+
    ultimately have "read_num_from (of_int (a + m * 2 ^ s)) (s + 7) (write_num (x div 128) @ r) =
        (of_int (a + m * 2 ^ s + x div 128 * 2 ^ (s + 7)), r)"
      using 1(1) [OF True, of "a + m * 2 ^ s" "s + 7" "k + 1"] k 1(4) by simp
    moreover have "m * 2 ^ s + x div 128 * 2 ^ (s + 7) = x * 2 ^ s"
    proof -
      have "m * 2 ^ s + x div 128 * 2 ^ (s + 7) = (m + x div 128 * 128) * 2 ^ s"
        by (simp add: power_add algebra_simps)
      then show ?thesis by (simp add: m_def)
    qed
    ultimately show ?thesis using w bits join by (simp add: Let_def add.assoc)
  next
    case False
    have w: "write_num x = [of_int m]" using False by (subst write_num.simps) (simp add: m_def)
    have neg: "64 \<le> m \<longleftrightarrow> x < 0" "m = (if x < 0 then x + 128 else x)"
      using False unfolding m_def by presburger+
    show ?thesis
    proof (cases "x < 0")
      case True
      have p: "a + m * 2 ^ s = a + x * 2 ^ s + 2 ^ (s + 7)" using True neg(2) by (simp add: power_add algebra_simps)
      show ?thesis
      proof (cases "s + 7 < 32")
        case True
        have "a + m * 2 ^ s < 2 ^ (s + 7)"
        proof -
          have "m * 2 ^ s \<le> 127 * 2 ^ s" using m by (intro mult_right_mono) simp_all
          moreover have "(2 :: int) ^ (s + 7) = 128 * 2 ^ s" by (simp add: power_add)
        ultimately show ?thesis using 1(3) by linarith
        qed
        moreover have "0 \<le> a + m * 2 ^ s" using 1(2) m by simp
        ultimately have "(a + m * 2 ^ s) OR - 1 * 2 ^ (s + 7) = a + m * 2 ^ s + - 1 * 2 ^ (s + 7)"
          by (intro int_or_shift)
        then have "(a + m * 2 ^ s) OR - (2 ^ (s + 7)) = a + x * 2 ^ s"
          using p by (simp only: mult_minus1)
        then have "of_int (a + m * 2 ^ s) OR - push_bit (s + 7) 1 = (of_int (a + x * 2 ^ s) :: u32)"
          using push_of_int [of "s + 7" 1]
          by (metis of_int_1 mult_1 of_int_minus of_int_or_eq)
        then show ?thesis using w bits join neg(1) \<open>x < 0\<close> True by (simp add: Let_def)
      next
        case False
        then have "s = 28" using 1(4,5) by simp
        then have "(of_int (a + m * 2 ^ s) :: u32) = of_int (a + x * 2 ^ s)"
          unfolding p by simp
        then show ?thesis using w bits join False by (simp add: Let_def)
      qed
    next
      case False
      then show ?thesis using w bits join neg by (simp add: Let_def)
    qed
  qed
qed

text \<open>C37. Every 32-bit number the symbol file writer writes is what the reader reads back, and nothing
  more is consumed.\<close>

theorem smb_num_reads_back: "smb_read_num (write_num (sint v) @ rest) = (v, rest)"
proof -
  have "- (2 ^ 31) \<le> sint v" "sint v < 2 ^ 31"
    using sint_ge [of v] sint_less [of v] by simp_all
  with read_num_written [of 0 0 0 "sint v" rest] show ?thesis by (simp add: smb_read_num_def)
qed

subsection \<open>What a module exports\<close>

definition STB_GLOBAL :: u8 where "STB_GLOBAL = 1"

text \<open>Name, value and info byte of each entry of the symbol table.\<close>

definition sym_row :: "u8 list \<Rightarrow> u8 list \<Rightarrow> nat \<Rightarrow> u8 list \<times> u32 \<times> u8" where
  "sym_row names d i =
     (elf_string_get names (unat (le_value (take 4 (drop (16 * i) d)))),
      le_value (take 4 (drop (16 * i + 4) d)), d ! (16 * i + 12))"

definition sym_rows :: "elf_context \<Rightarrow> (u8 list \<times> u32 \<times> u8) list" where
  "sym_rows c =
     (let d = bytes (sections c ! symtab c)
      in map (sym_row (names_of c) d) [0..<length d div 16])"

definition is_init :: "u8 list \<Rightarrow> bool" where
  "is_init nm \<longleftrightarrow> nm = cstr ''_init''"

definition exports :: "elf_context \<Rightarrow> (u8 list \<times> u32) list" where
  "exports c =
     [(nm, v). (nm, v, info) \<leftarrow> sym_rows c, drop_bit 4 info = STB_GLOBAL \<and> \<not> is_init nm]"

definition entry_of :: "elf_context \<Rightarrow> u32 \<Rightarrow> u32" where
  "entry_of c start = fold (\<lambda>(nm, v, info) e. if is_init nm then v - start else e) (sym_rows c) 0"

text \<open>The module's name: the file name without its directory, at most 63 characters, up to its last dot.\<close>

definition base_name :: "string \<Rightarrow> string" where
  "base_name f = rev (takeWhile (\<lambda>ch. ch \<noteq> CHR ''/'') (rev f))"

definition mod_name :: "string \<Rightarrow> u8 list" where
  "mod_name f =
     (let nm = take 63 (base_name f)
      in cstr (if CHR ''.'' \<in> set nm then rev (tl (dropWhile (\<lambda>ch. ch \<noteq> CHR ''.'') (rev nm))) else nm))"

definition module_key :: "u8 list \<Rightarrow> u32" where
  "module_key nm = fold (\<lambda>b k. k * 31 + scast b) nm 0"

subsection \<open>The module file\<close>

definition write_named :: "u8 list \<times> u32 \<Rightarrow> u8 list" where
  "write_named p = fst p @ [0] @ word4 (snd p)"

definition module_bytes ::
    "u8 list \<Rightarrow> (u8 list \<times> u32) list \<Rightarrow> u8 list \<Rightarrow> (u8 list \<times> u32) list \<Rightarrow> u32 \<Rightarrow> u16 list \<Rightarrow> u8 list" where
  "module_bytes nm imports code exps entry relocs =
     nm @ [0] @ word4 (module_key nm) @ [1] @ word4 0 @
     concat (map write_named imports) @ [0] @
     word4 0 @ word4 0 @ word4 0 @ word4 (of_nat (length code)) @ code @
     concat (map write_named exps) @ [0] @
     word4 (of_nat (length exps)) @ word4 entry @
     concat (map word4 (map snd exps)) @ word4 (- 1) @ concat (map word4 [0, 0, 0]) @ word4 0 @
     word4 (of_nat (length relocs)) @ concat (map word4 (map scast relocs)) @ word4 entry @ [0x4f]"

text \<open>\<open>imports\<close> and \<open>relocs\<close> are what the import directives and the code generator left behind.\<close>

definition elf_write_816 ::
    "(u8 list \<times> u32) list \<Rightarrow> u16 list \<Rightarrow> elf_context \<Rightarrow> (elf_context \<times> u8 list option) option" where
  "elf_write_816 imports relocs c =
     map_option (\<lambda>c.
         case current c of
           None \<Rightarrow> (c, None)
         | Some i \<Rightarrow>
             (let t = sections c ! i; start = h_addr (shdr t)
              in (c, Some (module_bytes (mod_name (filename c)) imports
                    (take (unat (h_size (shdr t))) (bytes t))
                    (map (\<lambda>(nm, v). (nm, v - start)) (exports c)) (entry_of c start) relocs))))
       (elf_set_section ''text'' c)"

subsection \<open>The disassembler's reader\<close>

text \<open>\<open>fread\<close> of four bytes.\<close>

definition rd4 :: "u8 list \<Rightarrow> (u32 \<times> u8 list) option" where
  "rd4 d = (if length d < 4 then None else Some (le_value (take 4 d), drop 4 d))"

definition after_string :: "u8 list \<Rightarrow> u8 list" where
  "after_string d = drop (length (c_string d) + 1) d"

text \<open>The module name: at most 63 bytes, the zero read with it only if it comes within these.\<close>

definition read_mod_name :: "u8 list \<Rightarrow> u8 list option" where
  "read_mod_name d =
     (if 0 \<in> set (take 63 d) then Some (after_string d)
      else if 63 \<le> length d then Some (drop 63 d) else None)"

text \<open>The loop over the names with a number each: imports, exported procedures.\<close>

function skip_named :: "u8 list \<Rightarrow> u8 list" where
  "skip_named d =
     (if d = [] then [] else if hd d = 0 then tl d else skip_named (drop 4 (after_string d)))"
  by pat_completeness auto
termination by (relation "measure length") (auto simp: after_string_def)

declare skip_named.simps [simp del]

text \<open>The search for the word -1 that ends the table of pointers.\<close>

function to_marker :: "u8 list \<Rightarrow> u8 list" where
  "to_marker d =
     (if length d < 4 then [] else if le_value (take 4 d) = - 1 then drop 4 d else to_marker (drop 4 d))"
  by pat_completeness auto
termination by (relation "measure length") auto

declare to_marker.simps [simp del]

fun read_words :: "nat \<Rightarrow> u8 list \<Rightarrow> u32 list" where
  "read_words 0 d = []"
| "read_words (Suc n) d =
     (case rd4 d of None \<Rightarrow> read_words n d | Some (w, d) \<Rightarrow> w # read_words n d)"

text \<open>
  \<open>parse_816_file\<close>: the code and the relocation addresses. After the three fix-up origins it expects the
  relocation count; the writers put the count of type descriptor fix-ups there.
\<close>

definition load_relocs :: "u8 list \<Rightarrow> u32 list" where
  "load_relocs d =
     (case rd4 d of
        None \<Rightarrow> []
      | Some (n, d) \<Rightarrow> if 0 \<le> sint n \<and> sint n < 1024 then read_words (unat n) d else [])"

definition parse_816_file :: "u8 list \<Rightarrow> (u8 list \<times> u32 list) option" where
  "parse_816_file file =
     Option.bind (Option.bind (read_mod_name file) rd4) (\<lambda>(key, d).
     if d = [] then None else
     Option.bind (rd4 (tl d)) (\<lambda>(sz, d).
     Option.bind (rd4 (skip_named d)) (\<lambda>(td_size, d).
     Option.bind (rd4 (drop (unat td_size) d)) (\<lambda>(var_size, d).
     Option.bind (rd4 d) (\<lambda>(str_size, d).
     Option.bind (rd4 (drop (unat str_size) d)) (\<lambda>(code_length, d).
     if length d < unat code_length then None
     else
       (let code = take (unat code_length) d;
            d = to_marker (drop 8 (skip_named (drop (unat code_length) d)))
        in Option.bind (rd4 d) (\<lambda>(fixorgP, d).
           Option.bind (rd4 d) (\<lambda>(fixorgD, d).
           map_option (\<lambda>(fixorgT, d). (code, load_relocs d)) (rd4 d))))))))))"

lemma rd4_word4 [simp]: "rd4 (word4 v @ r) = Some (v, r)"
  by (simp add: rd4_def)

lemma after_string_append [simp]: "0 \<notin> set nm \<Longrightarrow> after_string (nm @ 0 # r) = r"
  by (simp add: after_string_def c_string_id)

lemma skip_named_written:
  "list_all (\<lambda>p. name_ok (fst p)) ps \<Longrightarrow> skip_named (concat (map write_named ps) @ 0 # r) = r"
proof (induction ps)
  case Nil
  show ?case by (subst skip_named.simps) simp
next
  case (Cons p ps)
  obtain nm v where p: "p = (nm, v)" by force
  with Cons.prems have nm: "nm \<noteq> []" "0 \<notin> set nm" by (simp_all add: name_ok_def)
  then have "hd nm \<noteq> 0" by (metis hd_in_set)
  moreover have "write_named p = nm @ [0] @ word4 v" by (simp add: write_named_def p)
  ultimately show ?case using nm Cons by (subst skip_named.simps) simp
qed

lemma to_marker_words:
  "- 1 \<notin> set ws \<Longrightarrow> to_marker (concat (map word4 ws) @ word4 (- 1) @ r) = r"
proof (induction ws)
  case Nil
  show ?case by (subst to_marker.simps) simp
next
  case (Cons w ws)
  then show ?case by (subst to_marker.simps) auto
qed

lemma to_marker_exports:
  "- 1 \<notin> snd ` set ps \<Longrightarrow> to_marker (concat (map (word4 \<circ> snd) ps) @ word4 (- 1) @ r) = r"
  using to_marker_words [of "map snd ps"] by simp

lemma parse_816_file_written:
  assumes "0 \<notin> set nm" "length nm < 63" "list_all (\<lambda>p. name_ok (fst p)) imports" "list_all (\<lambda>p. name_ok (fst p)) exps"
    and "length code < 2 ^ 32" "- 1 \<notin> set (map snd exps)"
  shows "parse_816_file (module_bytes nm imports code exps entry relocs) = Some (code, [])"
proof -
  have "unat (of_nat (length code) :: u32) = length code"
    using assms(5) by (simp add: unsigned_of_nat take_bit_nat_eq_self)
  moreover have "0 \<in> set (take 63 (nm @ 0 # r))" for r using assms(2) by (simp add: take_Cons')
  ultimately show ?thesis using assms
    by (simp add: read_mod_name_def parse_816_file_def module_bytes_def skip_named_written to_marker_exports load_relocs_def Let_def)
qed

text \<open>
  C20. The disassembler reads back the code of a module the assembler wrote, but none of its
  relocations, however many there are: it takes the count of type descriptor fix-ups, which is 0,
  for theirs.
\<close>

theorem module_code_reads_back:
  assumes "elf_write_816 imports relocs c = Some (c', Some out)" "current c' = Some i"
    and "0 \<notin> set (mod_name (filename c'))" "length (mod_name (filename c')) < 63"
    and "list_all (\<lambda>p. name_ok (fst p)) imports" "list_all (\<lambda>p. name_ok (fst p)) (exports c')"
    and "- 1 \<notin> (\<lambda>p. snd p - h_addr (shdr (sections c' ! i))) ` set (exports c')"
  shows "parse_816_file out =
    Some (take (unat (h_size (shdr (sections c' ! i)))) (bytes (sections c' ! i)), [])"
proof -
  let ?t = "sections c' ! i"
  let ?code = "take (unat (h_size (shdr ?t))) (bytes ?t)"
  have out: "out = module_bytes (mod_name (filename c')) imports ?code
      (map (\<lambda>(nm, v). (nm, v - h_addr (shdr ?t))) (exports c')) (entry_of c' (h_addr (shdr ?t))) relocs"
    using assms(1,2) by (auto simp: elf_write_816_def Let_def split: option.splits)
  have "length ?code \<le> unat (h_size (shdr ?t))" by simp
  also have "\<dots> < 2 ^ 32" using unsigned_less [of "h_size (shdr ?t)"] by simp
  finally show ?thesis
    unfolding out using assms(3-7)
    by (intro parse_816_file_written) (auto simp: list_all_iff image_iff)
qed

definition sample_module :: elf_context where
  "sample_module =
     \<lparr>filename = ''m/Foo.816'', ehdr = (empty_ehdr 1)\<lparr>e_shnum := 3\<rparr>,
      sections =
        [\<lparr>shdr = no_shdr\<lparr>h_size := 12\<rparr>, bytes = [0] @ cstr ''text'' @ [0] @ cstr ''Start'' @ [0]\<rparr>,
         \<lparr>shdr = no_shdr\<lparr>h_type := SHT_SYMTAB, h_size := 16\<rparr>,
          bytes = sym_bytes \<lparr>st_name = 6, st_value = 0x8000, st_size = 0, st_info = 0x10, st_other = 0, st_shndx = 0\<rparr>\<rparr>,
         \<lparr>shdr = no_shdr\<lparr>h_name := 1, h_type := SHT_PROGBITS, h_addr := 0x8000, h_size := 3\<rparr>,
          bytes = [0xa9, 0x01, 0x60]\<rparr>],
      shstrtab = 0, symtab = 1, standard = [2], current = Some 2\<rparr>"

lemma module_code_reads_back_witness:
  "\<exists>c' out. elf_write_816 [] [0x8001, 0x8002] sample_module = Some (c', Some out) \<and>
     parse_816_file out = Some ([0xa9, 0x01, 0x60], [])"
proof -
  let ?r = "elf_write_816 [] [0x8001, 0x8002] sample_module"
  let ?c = "fst (the ?r)"
  let ?out = "the (snd (the ?r))"
  have all: "?r \<noteq> None \<and> snd (the ?r) \<noteq> None \<and> current ?c = Some 2 \<and>
    0 \<notin> set (mod_name (filename ?c)) \<and> length (mod_name (filename ?c)) < 63 \<and>
    list_all (\<lambda>p. name_ok (fst p)) (exports ?c) \<and>
    - 1 \<notin> (\<lambda>p. snd p - h_addr (shdr (sections ?c ! 2))) ` set (exports ?c) \<and>
    take (unat (h_size (shdr (sections ?c ! 2)))) (bytes (sections ?c ! 2)) = [0xa9, 0x01, 0x60]"
    by code_simp
  then have e: "?r = Some (?c, Some ?out)" by (metis option.collapse prod.collapse)
  have h: "current ?c = Some 2" "0 \<notin> set (mod_name (filename ?c))" "length (mod_name (filename ?c)) < 63"
    "list_all (\<lambda>p. name_ok (fst p)) (exports ?c)"
    "- 1 \<notin> (\<lambda>p. snd p - h_addr (shdr (sections ?c ! 2))) ` set (exports ?c)"
    "take (unat (h_size (shdr (sections ?c ! 2)))) (bytes (sections ?c ! 2)) = [0xa9, 0x01, 0x60]"
    using all by blast+
  with module_code_reads_back [OF e h(1-3) _ h(4,5)] e show ?thesis by auto
qed

end
