(* ===== verification/SymbolFile.thy ===== *)
theory SymbolFile
  imports Module816
begin

text \<open>
  The symbol file of a module: \<open>elf_write_smb\<close> (shared/src/elf_file.c) and the reader of the \<open>import\<close>
  directive (\<open>as_import\<close>, as-c/src/as.c).
\<close>

subsection \<open>Writing\<close>

record proc_sig =
  sig_name :: "u8 list"
  params :: "(u32 \<times> bool) list"
  return_type :: u32

definition find_sig :: "proc_sig list \<Rightarrow> u8 list \<Rightarrow> proc_sig option" where
  "find_sig sigs nm = find (\<lambda>g. sig_name g = nm) sigs"

definition low_byte :: "u32 \<Rightarrow> u8" where
  "low_byte v = ucast (v AND 0xFF)"

text \<open>The type of an exported procedure: parameters last to first, variable ones with class 2.\<close>

definition smb_type :: "proc_sig option \<Rightarrow> u8 list" where
  "smb_type g =
     [0, 10, (case g of Some g \<Rightarrow> low_byte (return_type g) | None \<Rightarrow> 0xF7)] @
     (case g of
        Some g \<Rightarrow> concat (map (\<lambda>(t, var). [if var then 2 else 1, 0, low_byte t]) (rev (params g)))
      | None \<Rightarrow> []) @
     [0, 0]"

fun smb_exports :: "proc_sig list \<Rightarrow> int \<Rightarrow> u8 list list \<Rightarrow> u8 list" where
  "smb_exports sigs exno [] = []"
| "smb_exports sigs exno (nm # nms) =
     [1] @ nm @ [0] @ smb_type (find_sig sigs nm) @ write_num exno @ smb_exports sigs (exno + 1) nms"

definition smb_pad :: "u8 list \<Rightarrow> u8 list" where
  "smb_pad d = d @ replicate ((4 - length d mod 4) mod 4) 0"

fun sum_words :: "nat \<Rightarrow> u8 list \<Rightarrow> u32" where
  "sum_words 0 d = 0"
| "sum_words (Suc n) d = (if length d < 4 then 0 else le_value (take 4 d) + sum_words n (drop 4 d))"

definition smb_bytes :: "u8 list \<Rightarrow> proc_sig list \<Rightarrow> u8 list list \<Rightarrow> u8 list" where
  "smb_bytes nm sigs nms =
     (let d = smb_pad (word4 0 @ word4 0 @ nm @ [0] @ [1] @ smb_exports sigs 1 nms)
      in take 4 d @ word4 (sum_words (length d) d) @ drop 8 d)"

definition elf_write_smb :: "proc_sig list \<Rightarrow> elf_context \<Rightarrow> u8 list" where
  "elf_write_smb sigs c = smb_bytes (mod_name (filename c)) sigs (map fst (exports c))"

subsection \<open>Reading\<close>

text \<open>\<open>smb_read_byte\<close> gives -1 at the end of the file; \<open>smb_read_int32\<close> then gives 0.\<close>

fun smb_read_byte :: "u8 list \<Rightarrow> int \<times> u8 list" where
  "smb_read_byte [] = (-1, [])"
| "smb_read_byte (b # bs) = (uint b, bs)"

definition smb_read_int32 :: "u8 list \<Rightarrow> u32 \<times> u8 list" where
  "smb_read_int32 d = (if length d < 4 then (0, []) else (le_value (take 4 d), drop 4 d))"

text \<open>A string is read up to its zero, but at most \<open>maxlen - 1\<close> bytes of it.\<close>

fun smb_read_string :: "nat \<Rightarrow> u8 list \<Rightarrow> u8 list \<times> u8 list" where
  "smb_read_string maxlen [] = ([], [])"
| "smb_read_string maxlen (b # bs) =
     (if maxlen \<le> 1 then ([], b # bs)
      else if b = 0 then ([], bs)
      else (case smb_read_string (maxlen - 1) bs of (s, r) \<Rightarrow> (b # s, r)))"

text \<open>
  \<open>smb_skip_type\<close> and its loops over parameters and record fields. These end only at a zero byte,
  and the end of the file reads as -1, so they may run for ever: fuel counts the calls and the
  iterations, and \<open>None\<close> is that it was used up.
\<close>

fun smb_skip_type :: "nat \<Rightarrow> u8 list \<Rightarrow> u8 list option"
and skip_params :: "nat \<Rightarrow> u8 list \<Rightarrow> u8 list option"
and skip_fields :: "nat \<Rightarrow> u8 list \<Rightarrow> u8 list option"
where
  "smb_skip_type 0 d = None"
| "smb_skip_type (Suc n) d =
     (let (ref, d) = smb_read_byte d in
      if ref = -1 \<or> 128 \<le> ref then Some d
      else
        (let (form, d) = smb_read_byte d in
         map_option
           (\<lambda>d. let (reexport, d) = smb_read_byte d in
              if reexport \<noteq> 0
              then snd (smb_read_string 64 (snd (smb_read_int32 (snd (smb_read_string 64 d)))))
              else d)
           (if form = 7 then smb_skip_type n d
            else if form = 12 then
              map_option (\<lambda>d. snd (smb_read_num (snd (smb_read_num d)))) (smb_skip_type n d)
            else if form = 13 then
              Option.bind (smb_skip_type n d) (\<lambda>d.
                skip_fields n (snd (smb_read_num (snd (smb_read_num (snd (smb_read_num d)))))))
            else if form = 10 then Option.bind (smb_skip_type n d) (skip_params n)
            else Some d)))"
| "skip_params 0 d = None"
| "skip_params (Suc n) d =
     (let (cls, d) = smb_read_byte d in
      if cls = 0 then Some d
      else Option.bind (smb_skip_type n (snd (smb_read_byte d))) (skip_params n))"
| "skip_fields 0 d = None"
| "skip_fields (Suc n) d =
     (let (cls, d) = smb_read_byte d in
      if cls = 0 then Some d
      else
        Option.bind
          (smb_skip_type n (if cls = 4 then snd (smb_read_string 64 d) else snd (smb_read_byte d)))
          (\<lambda>d. skip_fields n (snd (smb_read_num d))))"

text \<open>The loop over the exports: the names and the value each gets, module number and export number.\<close>

fun read_exports :: "nat \<Rightarrow> u32 \<Rightarrow> u8 list \<Rightarrow> (u8 list \<times> u32) list option" where
  "read_exports 0 mno d = None"
| "read_exports (Suc n) mno d =
     (let (cls, d) = smb_read_byte d in
      if cls = 0 then Some []
      else
        (let (ename, d) = smb_read_string 64 d in
         Option.bind (smb_skip_type n d) (\<lambda>d.
           let (exno, d) = smb_read_num d in
           map_option ((#) (ename, push_bit 16 mno OR (exno AND 0xFFFF))) (read_exports n mno d))))"

text \<open>
  \<open>as_import\<close> on the contents of the symbol file: the module's number is one more than the imports
  there are; \<open>imports\<close> grows while there is room. The entries returned become the members of the
  object of the module.
\<close>

definition MAX_IMPORTS :: nat where "MAX_IMPORTS = 32"

definition as_import ::
    "nat \<Rightarrow> u8 list \<Rightarrow> u8 list \<Rightarrow> (u8 list \<times> u32) list \<Rightarrow>
     ((u8 list \<times> u32) list \<times> (u8 list \<times> u32) list) option" where
  "as_import n modname d imports =
     (let (placeholder, d) = smb_read_int32 d;
          (key, d) = smb_read_int32 d;
          (nm, d) = smb_read_string 64 d;
          (versionkey, d) = smb_read_byte d;
          mno = of_nat (length imports + 1)
      in map_option (Pair (if length imports < MAX_IMPORTS then imports @ [(take 63 modname, key)] else imports))
           (read_exports n mno d))"

subsection \<open>Importing what was exported\<close>

lemma read_string_written:
  "0 \<notin> set nm \<Longrightarrow> length nm + 1 < m \<Longrightarrow> smb_read_string m (nm @ 0 # r) = (nm, r)"
  by (induction nm arbitrary: m) auto

text \<open>A type written as a reference to a known one: its low byte is negative.\<close>

definition back_ref :: "u32 \<Rightarrow> bool" where
  "back_ref t \<longleftrightarrow> 128 \<le> uint (low_byte t)"

lemma skip_back_ref: "128 \<le> uint b \<Longrightarrow> smb_skip_type (Suc n) (b # r) = Some r"
  by (simp add: Let_def)

lemma skip_params_written:
  "list_all (\<lambda>p. back_ref (fst p)) ps \<Longrightarrow>
     skip_params (Suc (length ps + n) + 1)
       (concat (map (\<lambda>(t, var). [if var then 2 else 1, 0, low_byte t]) ps) @ 0 # r) = Some r"
proof (induction ps)
  case (Cons p ps)
  obtain t var where p: "p = (t, var)" by force
  with Cons.prems have "128 \<le> uint (low_byte t)" by (simp add: back_ref_def)
  with Cons p show ?case by (simp add: Let_def skip_back_ref)
qed (simp add: Let_def)

definition sig_ok :: "proc_sig \<Rightarrow> bool" where
  "sig_ok g \<longleftrightarrow> length (params g) \<le> 8 \<and> back_ref (return_type g) \<and> list_all (\<lambda>p. back_ref (fst p)) (params g)"

lemma skip_type_proc:
  "smb_skip_type (Suc n) (0 # 10 # d) =
     map_option
       (\<lambda>d. let (reexport, d) = smb_read_byte d in
          if reexport \<noteq> 0
          then snd (smb_read_string 64 (snd (smb_read_int32 (snd (smb_read_string 64 d)))))
          else d)
       (Option.bind (smb_skip_type n d) (skip_params n))"
  by (subst smb_skip_type.simps) simp

lemma skip_type_written:
  assumes "\<forall>g. sg = Some g \<longrightarrow> sig_ok g" and "12 \<le> n"
  shows "smb_skip_type n (smb_type sg @ r) = Some r"
proof -
  obtain k where "n = 12 + k" using assms(2) le_Suc_ex by blast
  then have n: "n = Suc (Suc (k + 10))" by simp
  define ps where "ps = (case sg of Some g \<Rightarrow> rev (params g) | None \<Rightarrow> [])"
  define b where "b = (case sg of Some g \<Rightarrow> low_byte (return_type g) | None \<Rightarrow> 0xF7)"
  let ?ps = "concat (map (\<lambda>(t, var). [if var then 2 else 1, 0, low_byte t]) ps)"
  have split: "smb_type sg @ r = 0 # 10 # b # ?ps @ 0 # 0 # r"
    by (simp add: smb_type_def ps_def b_def split: option.split)
  have ps: "length ps \<le> 8" "list_all (\<lambda>p. back_ref (fst p)) ps"
    using assms(1) by (auto simp: ps_def sig_ok_def split: option.split)
  have b: "128 \<le> uint b"
    using assms(1) by (auto simp: b_def sig_ok_def back_ref_def split: option.split)
  have "Suc (k + 10) = Suc (length ps + (k + 9 - length ps)) + 1" using ps(1) by simp
  then have "skip_params (Suc (k + 10)) (?ps @ 0 # 0 # r) = Some (0 # r)"
    using skip_params_written [OF ps(2)] by metis
  then show ?thesis unfolding n split by (simp only: skip_type_proc skip_back_ref [OF b] bind.simps) simp
qed

text \<open>The names exported, and the numbers they are exported under.\<close>

fun import_entries :: "u32 \<Rightarrow> int \<Rightarrow> u8 list list \<Rightarrow> (u8 list \<times> u32) list" where
  "import_entries mno exno [] = []"
| "import_entries mno exno (nm # nms) =
     (nm, push_bit 16 mno OR (of_int exno AND 0xFFFF)) # import_entries mno (exno + 1) nms"

lemma read_num_small: "0 \<le> x \<Longrightarrow> x < 2 ^ 31 \<Longrightarrow> smb_read_num (write_num x @ r) = (of_int x, r)"
  using read_num_written [of 0 0 0 x r] by (simp add: smb_read_num_def)

lemma read_exports_written:
  assumes "list_all (\<lambda>nm. 0 \<notin> set nm \<and> length nm < 63) nms" "list_all sig_ok sigs"
    and "0 \<le> exno" "exno + int (length nms) < 2 ^ 31"
    and "12 \<le> k"
  shows "read_exports (Suc (length nms + k)) mno (smb_exports sigs exno nms @ 0 # r) =
    Some (import_entries mno exno nms)"
  using assms
proof (induction nms arbitrary: exno)
  case Nil
  show ?case by (subst read_exports.simps) simp
next
  case (Cons nm nms)
  have "\<forall>g. find_sig sigs nm = Some g \<longrightarrow> sig_ok g"
    using Cons.prems(2) by (auto simp: find_sig_def find_Some_iff list_all_iff)
  note ty = skip_type_written [OF this, of "Suc (length nms + k)"]
  have "read_exports (Suc (length nms + k)) mno (smb_exports sigs (exno + 1) nms @ 0 # r) =
      Some (import_entries mno (exno + 1) nms)"
    using Cons by simp
  moreover have "smb_read_num (write_num exno @ s) = (of_int exno, s)" for s
    using Cons.prems(3,4) by (intro read_num_small) simp_all
  ultimately show ?case
    using Cons.prems(1,5) by (simp add: ty read_string_written Let_def del: smb_skip_type.simps)
qed

lemma skip_more:
  "(smb_skip_type n d = Some x \<longrightarrow> smb_skip_type (Suc n) d = Some x) \<and>
   (skip_params n d = Some x \<longrightarrow> skip_params (Suc n) d = Some x) \<and>
   (skip_fields n d = Some x \<longrightarrow> skip_fields (Suc n) d = Some x)"
proof (induction n arbitrary: d x)
  case (Suc n)
  have t: "smb_skip_type n d = Some x \<Longrightarrow> smb_skip_type (Suc n) d = Some x"
    and p: "skip_params n d = Some x \<Longrightarrow> skip_params (Suc n) d = Some x"
    and f: "skip_fields n d = Some x \<Longrightarrow> skip_fields (Suc n) d = Some x" for d x
    using Suc by blast+
  note del = smb_skip_type.simps skip_params.simps skip_fields.simps
  have bind: "Option.bind (smb_skip_type (Suc n) a) g' = Some y"
    if "Option.bind (smb_skip_type n a) g = Some y" "\<And>e. g e = Some y \<Longrightarrow> g' e = Some y" for a y g g'
    using that t by (auto simp: bind_eq_Some_conv)
  have "skip_params (Suc (Suc n)) d = Some x" if "skip_params (Suc n) d = Some x"
  proof (cases "fst (smb_read_byte d) = 0")
    case True
    with that show ?thesis by (simp add: case_prod_beta Let_def)
  next
    case False
    with that have "Option.bind (smb_skip_type n (snd (smb_read_byte (snd (smb_read_byte d))))) (skip_params n) = Some x"
      by (simp add: case_prod_beta Let_def del: smb_skip_type.simps)
    from bind [OF this p] False show ?thesis
      by (subst skip_params.simps) (simp add: case_prod_beta Let_def del: del)
  qed
  moreover have "skip_fields (Suc (Suc n)) d = Some x" if "skip_fields (Suc n) d = Some x"
  proof (cases "fst (smb_read_byte d) = 0")
    case True
    with that show ?thesis by (simp add: case_prod_beta Let_def)
  next
    case False
    let ?a = "if fst (smb_read_byte d) = 4 then snd (smb_read_string 64 (snd (smb_read_byte d)))
      else snd (smb_read_byte (snd (smb_read_byte d)))"
    have "Option.bind (smb_skip_type n ?a) (\<lambda>d. skip_fields n (snd (smb_read_num d))) = Some x"
      using that False by (simp add: case_prod_beta Let_def del: smb_skip_type.simps)
    from bind [OF this f] False show ?thesis
      by (subst skip_fields.simps) (simp add: case_prod_beta Let_def del: del)
  qed
  moreover have "smb_skip_type (Suc (Suc n)) d = Some x" if some: "smb_skip_type (Suc n) d = Some x"
  proof (cases "fst (smb_read_byte d) = -1 \<or> 128 \<le> fst (smb_read_byte d)")
    case True
    with some show ?thesis by (simp add: case_prod_beta Let_def)
  next
    case False
    let ?form = "fst (smb_read_byte (snd (smb_read_byte d)))" and ?d = "snd (smb_read_byte (snd (smb_read_byte d)))"
    let ?body = "\<lambda>n. if ?form = 7 then smb_skip_type n ?d
            else if ?form = 12 then
              map_option (\<lambda>d. snd (smb_read_num (snd (smb_read_num d)))) (smb_skip_type n ?d)
            else if ?form = 13 then
              Option.bind (smb_skip_type n ?d) (\<lambda>d.
                skip_fields n (snd (smb_read_num (snd (smb_read_num (snd (smb_read_num d)))))))
            else if ?form = 10 then Option.bind (smb_skip_type n ?d) (skip_params n)
            else Some ?d"
    let ?after = "\<lambda>d. if fst (smb_read_byte d) \<noteq> 0
              then snd (smb_read_string 64 (snd (smb_read_int32 (snd (smb_read_string 64 (snd (smb_read_byte d)))))))
              else snd (smb_read_byte d)"
    have step: "smb_skip_type (Suc n) d = map_option ?after (?body n)" for n
      using False by (subst smb_skip_type.simps) (simp add: case_prod_beta Let_def del: del)
    have bp: "Option.bind (smb_skip_type (Suc n) ?d) (skip_params (Suc n)) = Some y"
      if "Option.bind (smb_skip_type n ?d) (skip_params n) = Some y" for y
      using that by (rule bind) (rule p)
    have bf: "Option.bind (smb_skip_type (Suc n) ?d)
        (\<lambda>d. skip_fields (Suc n) (snd (smb_read_num (snd (smb_read_num (snd (smb_read_num d))))))) = Some y"
      if "Option.bind (smb_skip_type n ?d)
        (\<lambda>d. skip_fields n (snd (smb_read_num (snd (smb_read_num (snd (smb_read_num d))))))) = Some y" for y
      using that by (rule bind) (rule f)
    from some obtain y where y: "?body n = Some y" "x = ?after y" unfolding step by auto
    have "?body (Suc n) = Some y"
      using y(1) t bp bf
      by (auto simp del: del split: if_splits)
    then show ?thesis unfolding step [of "Suc n"] y(2) by (simp only: option.map)
  qed
  ultimately show ?case by blast
qed simp

lemma skip_type_more: "smb_skip_type n d = Some x \<Longrightarrow> smb_skip_type (n + k) d = Some x"
  by (induction k) (simp_all add: skip_more del: smb_skip_type.simps)

lemma skip_type_at_most:
  assumes "\<forall>g. sg = Some g \<longrightarrow> sig_ok g"
  shows "smb_skip_type n (smb_type sg @ r) = None \<or> smb_skip_type n (smb_type sg @ r) = Some r"
proof (cases "smb_skip_type n (smb_type sg @ r)")
  case (Some x)
  from skip_type_more [OF this, of 12] skip_type_written [OF assms, of "n + 12" r] Some show ?thesis by simp
qed simp

lemma read_exports_end: "read_exports n mno [] = None"
proof (induction n)
  case (Suc n)
  then show ?case by (cases n) (simp_all add: smb_read_num_def)
qed simp

text \<open>Without a zero byte after the last export the loop does not end.\<close>

lemma read_exports_unended:
  assumes "list_all (\<lambda>nm. 0 \<notin> set nm \<and> length nm < 63) nms" "list_all sig_ok sigs"
    and "0 \<le> exno" "exno + int (length nms) < 2 ^ 31"
  shows "read_exports n mno (smb_exports sigs exno nms) = None"
  using assms
proof (induction nms arbitrary: exno n)
  case Nil
  show ?case by (simp add: read_exports_end)
next
  case (Cons nm nms)
  show ?case
  proof (cases n)
    case (Suc m)
    have sg: "\<forall>g. find_sig sigs nm = Some g \<longrightarrow> sig_ok g"
      using Cons.prems(2) by (auto simp: find_sig_def find_Some_iff list_all_iff)
    have num: "smb_read_num (write_num exno @ s) = (of_int exno, s)" for s
      using Cons.prems(3,4) by (intro read_num_small) simp_all
    have rest: "read_exports m mno (smb_exports sigs (exno + 1) nms) = None"
      using Cons by simp
    have "read_exports n mno (smb_exports sigs exno (nm # nms)) =
        Option.bind (smb_skip_type m (smb_type (find_sig sigs nm) @ write_num exno @ smb_exports sigs (exno + 1) nms))
          (\<lambda>d. let (exno, d) = smb_read_num d in
             map_option ((#) (nm, push_bit 16 mno OR (exno AND 0xFFFF))) (read_exports m mno d))"
      using Cons.prems(1) Suc by (simp add: read_string_written Let_def del: smb_skip_type.simps)
    also have "\<dots> = None"
      using skip_type_at_most [OF sg, of m "write_num exno @ smb_exports sigs (exno + 1) nms"] num rest
      by (auto simp del: smb_skip_type.simps)
    finally show ?thesis .
  qed simp
qed

text \<open>The bytes of the symbol file before the padding; the first eight are the placeholder and the key.\<close>

definition smb_body :: "u8 list \<Rightarrow> proc_sig list \<Rightarrow> u8 list list \<Rightarrow> u8 list" where
  "smb_body nm sigs nms = nm @ [0] @ [1] @ smb_exports sigs 1 nms"

lemma smb_bytes_shape:
  "\<exists>key. smb_bytes nm sigs nms =
     word4 0 @ word4 key @ nm @ 0 # 1 # smb_exports sigs 1 nms @
       replicate ((4 - length (smb_body nm sigs nms) mod 4) mod 4) 0"
proof -
  have "(8 + k) mod 4 = k mod 4" for k :: nat by presburger
  then have "smb_pad (word4 0 @ word4 0 @ smb_body nm sigs nms) =
      word4 0 @ word4 0 @ smb_body nm sigs nms @ replicate ((4 - length (smb_body nm sigs nms) mod 4) mod 4) 0"
    by (simp add: smb_pad_def)
  moreover have "word4 0 @ word4 0 @ nm @ [0] @ [1] @ smb_exports sigs 1 nms =
      word4 0 @ word4 0 @ smb_body nm sigs nms" by (simp add: smb_body_def)
  ultimately have "smb_bytes nm sigs nms = word4 0 @
      word4 (sum_words (length (smb_pad (word4 0 @ word4 0 @ smb_body nm sigs nms)))
        (smb_pad (word4 0 @ word4 0 @ smb_body nm sigs nms))) @
      smb_body nm sigs nms @ replicate ((4 - length (smb_body nm sigs nms) mod 4) mod 4) 0"
    by (simp only: smb_bytes_def Let_def) simp
  then show ?thesis unfolding smb_body_def by (intro exI) simp
qed

lemma as_import_written:
  assumes "0 \<notin> set nm" "length nm < 63"
  shows "\<exists>key. as_import n modname (smb_bytes nm sigs nms) imports =
    map_option (Pair (if length imports < MAX_IMPORTS then imports @ [(take 63 modname, key)] else imports))
      (read_exports n (of_nat (length imports + 1))
        (smb_exports sigs 1 nms @ replicate ((4 - length (smb_body nm sigs nms) mod 4) mod 4) 0))"
proof -
  obtain key where key: "smb_bytes nm sigs nms =
     word4 0 @ word4 key @ nm @ 0 # 1 # smb_exports sigs 1 nms @
       replicate ((4 - length (smb_body nm sigs nms) mod 4) mod 4) 0"
    using smb_bytes_shape by blast
  have "smb_read_int32 (word4 v @ r) = (v, r)" for v r by (simp add: smb_read_int32_def)
  then show ?thesis unfolding key using assms
    by (intro exI [of _ key]) (simp add: as_import_def read_string_written Let_def)
qed

text \<open>
  C21. Importing a module the assembler exported gives its procedures, in order, each with the
  module's number and its own; but only if the symbol file needed padding: one whose length is
  already a multiple of four has no zero byte after its last procedure, and the import loop never
  returns.
\<close>

theorem import_of_export:
  assumes "0 \<notin> set (mod_name (filename c))" "length (mod_name (filename c)) < 63"
    and "list_all (\<lambda>p. 0 \<notin> set (fst p) \<and> length (fst p) < 63) (exports c)" "list_all sig_ok sigs"
    and "length (exports c) < 2 ^ 16"
  shows "if length (smb_body (mod_name (filename c)) sigs (map fst (exports c))) mod 4 = 0
    then \<forall>n. as_import n modname (elf_write_smb sigs c) imports = None
    else \<exists>n imports'. as_import n modname (elf_write_smb sigs c) imports =
      Some (imports', import_entries (of_nat (length imports + 1)) 1 (map fst (exports c)))"
proof -
  let ?nms = "map fst (exports c)"
  let ?m = "length (smb_body (mod_name (filename c)) sigs ?nms) mod 4"
  have names: "list_all (\<lambda>nm. 0 \<notin> set nm \<and> length nm < 63) ?nms" using assms(3) by (simp add: list_all_iff)
  have small: "1 + int (length ?nms) < 2 ^ 31" using assms(5) by simp
  show ?thesis
  proof (cases "?m = 0")
    case True
    have "as_import n modname (elf_write_smb sigs c) imports = None" for n
      using as_import_written [OF assms(1,2), of n modname sigs ?nms "imports"]
        read_exports_unended [OF names assms(4) _ small, of n] True
      by (auto simp: elf_write_smb_def)
    with True show ?thesis by simp
  next
    case False
    then obtain k where "(4 - ?m) mod 4 = Suc k"
      by (metis mod_less_divisor mod_less diff_is_0_eq diff_less gr0_conv_Suc not_le zero_less_numeral neq0_conv)
    then have "replicate ((4 - ?m) mod 4) 0 = (0 :: u8) # replicate k 0" by simp
    with as_import_written [OF assms(1,2), of "Suc (length ?nms + 12)" modname sigs ?nms "imports"]
      read_exports_written [OF names assms(4) _ small order_refl]
    have "\<exists>imports'. as_import (Suc (length ?nms + 12)) modname (elf_write_smb sigs c) imports =
        Some (imports', import_entries (of_nat (length imports + 1)) 1 ?nms)"
      by (auto simp: elf_write_smb_def simp del: read_exports.simps)
    with False show ?thesis by auto
  qed
qed

lemma import_of_export_witness:
  "\<exists>n imports'. as_import n (cstr ''Foo'') (elf_write_smb [] sample_module) [] =
     Some (imports', [(cstr ''Start'', 0x10001)])"
proof -
  have h: "0 \<notin> set (mod_name (filename sample_module))" "length (mod_name (filename sample_module)) < 63"
    "list_all (\<lambda>p. 0 \<notin> set (fst p) \<and> length (fst p) < 63) (exports sample_module)"
    "length (smb_body (mod_name (filename sample_module)) [] (map fst (exports sample_module))) mod 4 \<noteq> 0"
    "import_entries 1 1 (map fst (exports sample_module)) = [(cstr ''Start'', 0x10001)]"
    "length (exports sample_module) = 1"
    by code_simp+
  from import_of_export [OF h(1-3), of "[]" "cstr ''Foo''" "[]"] h(4-6) show ?thesis by simp
qed

end
