(* ===== verification/Parser.thy ===== *)
theory Parser
  imports Interp Scanner SymbolFile
begin

text \<open>
  The assembler's parser, \<open>as-c/src/parser.c\<close>, with the functions of \<open>as-c/src/interp.c\<close> that append to
  the program. It reads tokens from the scanner and appends operations to the current section, or to
  the macro being defined.

  The parser's loops end at certain tokens only, and some never come: every function takes fuel, one
  unit for each call and each iteration, and \<open>None\<close> is that the fuel was used up, or that the C code
  would use a null pointer or write past an array.
\<close>

subsection \<open>State\<close>

text \<open>
  \<open>code\<close> is what each section's \<open>instrs\<close> holds; the global \<open>section\<close> is \<open>current (elf p)\<close>, the global
  \<open>macro\<close> the last of \<open>macros\<close>. \<open>fs\<close> and \<open>smb\<close> are the files an include or an import opens, by name.
\<close>

record parse =
  scan :: scan
  asm :: asm
  elf :: elf_context
  code :: "nat \<Rightarrow> op list"
  macro_def :: bool
  sigs :: "proc_sig list"
  imps :: "(u8 list \<times> u32) list"
  fs :: "string \<Rightarrow> int list option"
  smb :: "string \<Rightarrow> u8 list option"

definition ptok :: "parse \<Rightarrow> symbol" where
  "ptok p = sym (scan p)"

definition tok_id :: "parse \<Rightarrow> string" where
  "tok_id p = ident (scan p)"

definition tok_val :: "parse \<Rightarrow> u32" where
  "tok_val p = ival (scan p)"

definition get :: "parse \<Rightarrow> parse" where
  "get p = p\<lparr>scan := scanner_get (scan p)\<rparr>"

definition err :: "parse \<Rightarrow> parse" where
  "err p = p\<lparr>asm := as_error (asm p)\<rparr>"

definition expect :: "symbol \<Rightarrow> parse \<Rightarrow> parse" where
  "expect t p = (if ptok p = t then get p else get (err p))"

definition interp_add :: "op \<Rightarrow> parse \<Rightarrow> parse" where
  "interp_add x p =
     (case current (elf p) of
        None \<Rightarrow> p
      | Some i \<Rightarrow>
          if macro_def p
          then p\<lparr>asm := (asm p)\<lparr>macros := (macros (asm p))
                   [length (macros (asm p)) - 1 := last (macros (asm p)) @ [x]]\<rparr>\<rparr>
          else p\<lparr>code := (code p)(i := code p i @ [x])\<rparr>)"

text \<open>A new object, in an operation made from it.\<close>

definition add_object :: "(ptr \<Rightarrow> op) \<Rightarrow> obj \<Rightarrow> parse \<Rightarrow> parse" where
  "add_object mk x p = (let (a, s) = alloc x (asm p) in interp_add (mk a) (p\<lparr>asm := s\<rparr>))"

definition add_instr :: "symbol \<Rightarrow> addr_mode \<Rightarrow> modifier \<Rightarrow> parse \<Rightarrow> parse" where
  "add_instr i m md = interp_add (OpEmit \<lparr>opcode = i, mode = m, modifier = md\<rparr>)"

definition name_object :: "string \<Rightarrow> bool \<Rightarrow> obj" where
  "name_object nm loc = (object_new Const StringForm)\<lparr>val := Str nm, is_local := loc\<rparr>"

definition on_asm :: "(asm \<Rightarrow> asm option) \<Rightarrow> parse \<Rightarrow> parse option" where
  "on_asm f p = map_option (\<lambda>s. p\<lparr>asm := s\<rparr>) (f (asm p))"

subsection \<open>Expressions\<close>

text \<open>Names with dots in them; the buffer keeps 127 characters.\<close>

fun dotted :: "nat \<Rightarrow> string \<Rightarrow> parse \<Rightarrow> (string \<times> parse) option" where
  "dotted 0 v p = None"
| "dotted (Suc n) v p =
     (if ptok p = sPERIOD then
        (let p = get p in
         if ptok p = sIDENT then dotted n (take 127 (v @ ''.'' @ tok_id p)) (get p) else Some (v, p))
      else Some (v, p))"

definition mul_op :: "symbol \<Rightarrow> op option" where
  "mul_op t = map_of [(sAST, OpMul), (sSLASH, OpDiv), (sDIV, OpIDiv), (sMOD, OpMod), (sAMPERSAND, OpAnd)] t"

definition sum_op :: "symbol \<Rightarrow> op option" where
  "sum_op t = map_of [(sPLUS, OpAdd), (sMINUS, OpSub), (sBARC, OpOr)] t"

definition rel_op :: "symbol \<Rightarrow> op option" where
  "rel_op t = map_of [(sEQL, OpEqual), (sNEQ, OpNotEqual), (sLSS, OpLessThan), (sLEQ, OpLessThanEqual),
     (sGTR, OpGreaterThan), (sGEQ, OpGreaterThanEqual), (sLEFT_SHIFT, OpLeftShift),
     (sRIGHT_SHIFT, OpRightShift)] t"

definition prefix_op :: "symbol \<Rightarrow> op option" where
  "prefix_op t = map_of [(sNOT, OpNot), (sLSS, OpLowByte), (sGTR, OpHighByte), (sCARET, OpBankByte)] t"

fun parse_factor :: "nat \<Rightarrow> bool \<Rightarrow> parse \<Rightarrow> parse option"
and parse_term :: "nat \<Rightarrow> bool \<Rightarrow> parse \<Rightarrow> parse option"
and term_loop :: "nat \<Rightarrow> parse \<Rightarrow> parse option"
and parse_simple_expression :: "nat \<Rightarrow> bool \<Rightarrow> parse \<Rightarrow> parse option"
and sum_loop :: "nat \<Rightarrow> parse \<Rightarrow> parse option"
and parse_expression :: "nat \<Rightarrow> bool \<Rightarrow> parse \<Rightarrow> parse option"
where
  "parse_factor 0 l p = None"
| "parse_factor (Suc n) l p =
     (if ptok p = sINTEGER \<or> ptok p = sCHAR
      then Some (get (add_object OpPush (int_object (scast (tok_val p))) p))
      else if ptok p = sREAL
      then Some (get (add_object OpPush ((object_new Const RealForm)\<lparr>val := Real (sint (tok_val p))\<rparr>) p))
      else if ptok p = sSTRING
      then Some (get (add_object OpPush ((object_new Const StringForm)\<lparr>val := Str (tok_id p)\<rparr>) p))
      else if ptok p = sPERIOD
      then (let p = expect sIDENT (get p) in Some (add_object OpPushVar (name_object (tok_id p) True) p))
      else if ptok p = sIDENT
      then
        (if l then Some (add_object OpPushVar (name_object (tok_id p) l) (get p))
         else map_option (\<lambda>(v, p). add_object OpPushVar (name_object v l) p) (dotted n (tok_id p) (get p)))
      else if ptok p = sLPAREN
      then map_option (\<lambda>p. if ptok p = sRPAREN then get p else err p) (parse_expression n False (get p))
      else
        (case prefix_op (ptok p) of
           Some x \<Rightarrow> map_option (interp_add x) (parse_factor n False (get p))
         | None \<Rightarrow> Some (get (err p))))"
| "parse_term 0 l p = None"
| "parse_term (Suc n) l p = Option.bind (parse_factor n l p) (term_loop n)"
| "term_loop 0 p = None"
| "term_loop (Suc n) p =
     (case mul_op (ptok p) of
        Some x \<Rightarrow> Option.bind (parse_factor n False (get p)) (\<lambda>p. term_loop n (interp_add x p))
      | None \<Rightarrow> Some p)"
| "parse_simple_expression 0 l p = None"
| "parse_simple_expression (Suc n) l p =
     (let q = (if ptok p = sPLUS \<or> ptok p = sMINUS then get p else p)
      in map_option (\<lambda>r. if ptok p = sMINUS then interp_add OpNeg r else r)
           (Option.bind (parse_term n l q) (sum_loop n)))"
| "sum_loop 0 p = None"
| "sum_loop (Suc n) p =
     (case sum_op (ptok p) of
        Some x \<Rightarrow> Option.bind (parse_term n False (get p)) (\<lambda>p. sum_loop n (interp_add x p))
      | None \<Rightarrow> Some p)"
| "parse_expression 0 l p = None"
| "parse_expression (Suc n) l p =
     Option.bind (parse_simple_expression n l p) (\<lambda>p.
       case rel_op (ptok p) of
         Some x \<Rightarrow> map_option (interp_add x) (parse_simple_expression n False (get p))
       | None \<Rightarrow> Some p)"

definition parse_assignment :: "nat \<Rightarrow> ptr \<Rightarrow> parse \<Rightarrow> parse option" where
  "parse_assignment n v p =
     (if ptok p = sBECOMES then map_option (interp_add (OpPopVar v)) (parse_expression n False (get p))
      else Some (err p))"

subsection \<open>Instructions\<close>

text \<open>
  The modifier after a dot, or a local name there; a single letter is compared after masking its
  code with \<open>0x5f\<close>.
\<close>

definition letter_modifier :: "char \<Rightarrow> modifier option" where
  "letter_modifier c =
     map_of [(0x42, MByte), (0x44, MDirect), (0x57, MWord), (0x41, MAbsolute), (0x4c, MLong)]
       ((of_char c :: u8) AND 0x5f)"

definition instr_modifier :: "parse \<Rightarrow> modifier \<times> bool \<times> parse" where
  "instr_modifier p =
     (if ptok p = sPERIOD then
        (let p = get p in
         if length (tok_id p) = 1
         then (case letter_modifier (hd (tok_id p)) of Some m \<Rightarrow> (m, False, get p) | None \<Rightarrow> (MNone, True, p))
         else (MNone, True, p))
      else (MNone, False, p))"

text \<open>An instruction is only added when the statement ends where its operand does.\<close>

definition end_instr :: "symbol \<Rightarrow> addr_mode \<Rightarrow> modifier \<Rightarrow> parse \<Rightarrow> parse" where
  "end_instr i m md p = (if ptok p = sSTATESEP then add_instr i m md p else p)"

definition parse_hash :: "nat \<Rightarrow> symbol \<Rightarrow> modifier \<Rightarrow> parse \<Rightarrow> parse option" where
  "parse_hash n i md p =
     Option.bind (parse_expression n False (get p)) (\<lambda>p.
       if ptok p = sCOMMA then
         (let p = get p; p = (if ptok p = sHASH then get p else p)
          in map_option (add_instr i BlockMove md) (parse_expression n False p))
       else Some (add_instr i Immediate md p))"

text \<open>What follows the expression in brackets, and its closing bracket.\<close>

definition closes :: "bool \<Rightarrow> parse \<Rightarrow> bool" where
  "closes longAddr p \<longleftrightarrow> ptok p = sRPAREN \<and> \<not> longAddr \<or> ptok p = sRSQ \<and> longAddr"

definition bracket_end :: "symbol \<Rightarrow> modifier \<Rightarrow> bool \<Rightarrow> parse \<Rightarrow> parse" where
  "bracket_end i md longAddr p =
     (if closes longAddr p then
        (let p = get p in
         if ptok p = sCOMMA then
           (let p = get p in
            if ptok p = sREGY
            then end_instr i (if longAddr then DirectPageIndirectLongIndexedY else DirectPageIndirectIndexedY) md (get p)
            else if ptok p = sREGX then end_instr i DirectPageIndexedIndirectX md (get p)
            else p)
         else end_instr i (if longAddr then AbsoluteIndirectLong else AbsoluteIndirect) md p)
      else if ptok p = sCOMMA then
        (let p = get p in
         if ptok p = sREGX then
           (let p = get p in
            if closes longAddr p then end_instr i AbsoluteIndexedIndirect md (get p) else p)
         else if ptok p = sREGS then
           (let p = get p in
            if ptok p = sRPAREN then
              (let p = get p in
               if ptok p = sCOMMA then
                 (let p = get p in
                  if ptok p = sREGY then end_instr i StackRelativeIndirectIndexedY md (get p) else p)
               else p)
            else p)
         else p)
      else p)"

definition parse_bracket :: "nat \<Rightarrow> symbol \<Rightarrow> modifier \<Rightarrow> parse \<Rightarrow> parse option" where
  "parse_bracket n i md p = map_option (bracket_end i md (ptok p = sLSQ)) (parse_expression n False (get p))"

definition parse_plain :: "nat \<Rightarrow> symbol \<Rightarrow> modifier \<Rightarrow> bool \<Rightarrow> parse \<Rightarrow> parse option" where
  "parse_plain n i md l p =
     Option.bind (parse_expression n l p) (\<lambda>p.
       if ptok p = sSTATESEP then Some (add_instr i Absolute md p)
       else if ptok p = sCOMMA then
         (let p = get p in
          if ptok p = sREGX then Some (end_instr i AbsoluteIndexedX md (get p))
          else if ptok p = sREGY then Some (end_instr i AbsoluteIndexedY md (get p))
          else if ptok p = sREGS then Some (end_instr i StackRelative md (get p))
          else
            Option.bind (parse_expression n False p) (\<lambda>p.
              if ptok p = sSTATESEP then Some (add_instr i BlockMove md p)
              else if ptok p = sCOMMA
              then map_option (end_instr i BitAbsoluteRelative md) (parse_expression n False (get p))
              else Some p))
       else Some p)"

definition parse_instr :: "nat \<Rightarrow> parse \<Rightarrow> parse option" where
  "parse_instr n p =
     (let i = ptok p; (md, l, p) = instr_modifier (get p)
      in if ptok p = sHASH then parse_hash n i md p
         else if ptok p = sREGA then Some (add_instr i Accumulator md (get p))
         else if ptok p = sSTATESEP then Some (add_instr i Implied md p)
         else if ptok p = sLSQ \<or> ptok p = sLPAREN then parse_bracket n i md p
         else parse_plain n i md l p)"

subsection \<open>Lists, data and messages\<close>

fun list_loop :: "nat \<Rightarrow> u32 \<Rightarrow> parse \<Rightarrow> (u32 \<times> parse) option" where
  "list_loop 0 c p = None"
| "list_loop (Suc n) c p =
     (let p = (if ptok p = sCOMMA then get p else p) in
      if ptok p = sSTATESEP then Some (c, p)
      else Option.bind (parse_expression n False p) (\<lambda>p.
        if ptok p = sCOMMA then list_loop n (c + 1) p else Some (c + 1, p)))"

definition parse_list :: "nat \<Rightarrow> parse \<Rightarrow> (u32 \<times> parse) option" where
  "parse_list n p = list_loop n 0 p"

text \<open>The operation that takes the list off the stack, with the number of its elements.\<close>

definition counted :: "nat \<Rightarrow> (ptr \<Rightarrow> op) \<Rightarrow> parse \<Rightarrow> parse option" where
  "counted n mk p =
     map_option (\<lambda>(c, p). if 0 < sint c then add_object mk (int_object (scast c)) p else p) (parse_list n p)"

definition parse_message :: "nat \<Rightarrow> (ptr \<Rightarrow> op) \<Rightarrow> parse \<Rightarrow> parse option" where
  "parse_message = counted"

fun data_op :: "modifier \<Rightarrow> ptr \<Rightarrow> op" where
  "data_op MByte = OpByte"
| "data_op MWord = OpWord"
| "data_op MAbsolute = OpWord"
| "data_op MLong = OpLong"
| "data_op MFloat = OpFloat"
| "data_op MDirect = OpDouble"
| "data_op _ = OpByte"

fun text_op :: "modifier \<Rightarrow> ptr \<Rightarrow> op" where
  "text_op MLong = OpTextLen"
| "text_op MZero = OpTextZero"
| "text_op MBit7 = OpTextBit7"
| "text_op _ = OpText"

fun fill_op :: "modifier \<Rightarrow> ptr \<Rightarrow> op" where
  "fill_op MWord = OpFillWord"
| "fill_op MAbsolute = OpFillWord"
| "fill_op MLong = OpFillLong"
| "fill_op _ = OpFillByte"

definition parse_data :: "nat \<Rightarrow> modifier \<Rightarrow> parse \<Rightarrow> parse option" where
  "parse_data n md = counted n (data_op md)"

definition parse_text :: "nat \<Rightarrow> modifier \<Rightarrow> parse \<Rightarrow> parse option" where
  "parse_text n md = counted n (text_op md)"

definition parse_fill :: "nat \<Rightarrow> modifier \<Rightarrow> parse \<Rightarrow> parse option" where
  "parse_fill n md = counted n (fill_op md)"

definition parse_title :: "nat \<Rightarrow> parse \<Rightarrow> parse option" where
  "parse_title n = counted n OpTitle"

definition parse_subheading :: "nat \<Rightarrow> parse \<Rightarrow> parse option" where
  "parse_subheading n = counted n OpSubheading"

subsection \<open>Definitions of names and macros\<close>

text \<open>The object of a name being defined. Without an identifier its string stays a null pointer.\<close>

definition parse_ident_def :: "parse \<Rightarrow> obj \<times> parse" where
  "parse_ident_def p =
     (let loc = (ptok p = sPERIOD);
          p = (if loc then get p else p);
          x = (object_new Const StringForm)\<lparr>is_local := loc\<rparr>;
          (x, p) = (if ptok p = sIDENT then (x\<lparr>val := Str (tok_id p)\<rparr>, get p) else (x, err p));
          (x, p) = (if ptok p = sAST then (x\<lparr>is_global := True\<rparr>, get p) else (x, p));
          p = (if ptok p = sCOLON then get p else p)
      in (x, p))"

definition is_macro :: "parse \<Rightarrow> bool option" where
  "is_macro p =
     (if ptok p = sIDENT then map_option (\<lambda>m. m \<noteq> None) (as_get_macro (tok_id p) (asm p)) else Some False)"

text \<open>The parameters are popped last to first.\<close>

fun recursive_params :: "nat \<Rightarrow> parse \<Rightarrow> parse option" where
  "recursive_params 0 p = None"
| "recursive_params (Suc n) p =
     (let p = (if ptok p = sCOMMA then get p else p) in
      if ptok p = sIDENT
      then map_option (add_object OpPopVar (name_object (tok_id p) False)) (recursive_params n (get p))
      else Some p)"

definition interp_macro_begin :: "string \<Rightarrow> parse \<Rightarrow> parse option" where
  "interp_macro_begin nm p =
     on_asm (\<lambda>s. let k = length (macros s);
                    (a, s) = alloc ((object_new Macro MacroForm)\<lparr>val := MacroPtr k\<rparr>) (s\<lparr>macros := macros s @ [[]]\<rparr>)
                in scope_add_object nm a s)
       (p\<lparr>macro_def := True\<rparr>)"

definition interp_macro_end :: "parse \<Rightarrow> parse" where
  "interp_macro_end p = p\<lparr>macro_def := False\<rparr>"

definition parse_macro_def :: "nat \<Rightarrow> obj \<Rightarrow> parse \<Rightarrow> parse option" where
  "parse_macro_def n x p =
     (case val x of
        Str nm \<Rightarrow>
          Option.bind (interp_macro_begin nm p) (\<lambda>p.
            map_option (\<lambda>p. if ptok p = sBLOCKSTART then get p else p)
              (if ptok p \<noteq> sBLOCKSTART then recursive_params n p else Some p))
      | _ \<Rightarrow> None)"

definition parse_macro_call :: "nat \<Rightarrow> parse \<Rightarrow> parse option" where
  "parse_macro_call n p =
     (let nm = tok_id p in
      Option.bind (parse_list n (get p)) (\<lambda>(c, p).
        let p = (if ptok p = sSTATESEP then get p else p) in
        map_option (add_object OpMacroCall ((object_new Macro StringForm)\<lparr>val := Str nm\<rparr>))
          (on_asm (\<lambda>s. let (a, s) = alloc (object_new Const MacroForm) s in scope_add_object nm a s) p)))"

subsection \<open>Procedure signatures\<close>

definition type_name_to_ref :: "string \<Rightarrow> u32" where
  "type_name_to_ref nm =
     (if same_nocase nm ''BYTE'' then - 1 else if same_nocase nm ''BOOLEAN'' then - 2
      else if same_nocase nm ''CHAR'' then - 3 else if same_nocase nm ''INTEGER'' then - 4
      else if same_nocase nm ''REAL'' then - 5 else if same_nocase nm ''SET'' then - 6 else - 9)"

definition is_word :: "symbol \<Rightarrow> bool" where
  "is_word t \<longleftrightarrow> t = sIDENT \<or> is_asm_keyword t \<or> is_directive t \<or> is_instr t"

text \<open>The loop over the parameters; a token that is none of those it knows is never passed.\<close>

fun proc_params :: "nat \<Rightarrow> (u32 \<times> bool) list \<Rightarrow> parse \<Rightarrow> ((u32 \<times> bool) list \<times> parse) option" where
  "proc_params 0 ps p = None"
| "proc_params (Suc n) ps p =
     (if ptok p \<noteq> sRPAREN \<and> ptok p \<noteq> sSTATESEP \<and> ptok p \<noteq> sEOF then
        (let var = (ptok p = sVAR);
             p = (if var then get p else p);
             (ps, p) = (if is_word (ptok p)
                        then (if length ps < 8 then ps @ [(type_name_to_ref (tok_id p), var)] else ps, get p)
                        else (ps, p));
             p = (if ptok p = sCOMMA then get p else p)
         in proc_params n ps p)
      else Some (ps, if ptok p = sRPAREN then get p else p))"

definition MAX_PROC_SIGS :: nat where "MAX_PROC_SIGS = 64"

text \<open>
  The signature is written into the array before the count is checked: with the array full, the write
  is behind it.
\<close>

definition parse_proc_sig :: "nat \<Rightarrow> parse \<Rightarrow> parse option" where
  "parse_proc_sig n p =
     (if \<not> is_word (ptok p) then Some (err p)
      else if MAX_PROC_SIGS \<le> length (sigs p) then None
      else
        (let nm = cstr (take 63 (tok_id p)); p = get p in
         map_option
           (\<lambda>(ps, p).
              let (ret, p) =
                (if ptok p = sCOLON then
                   (let p = get p in
                    if is_word (ptok p) then (type_name_to_ref (tok_id p), get p) else (- 9, p))
                 else (- 9, p))
              in p\<lparr>sigs := sigs p @ [\<lparr>sig_name = nm, params = ps, return_type = ret\<rparr>]\<rparr>)
           (if ptok p = sLPAREN then proc_params n [] (get p) else Some ([], p))))"

subsection \<open>Directives\<close>

definition directive_modifier :: "parse \<Rightarrow> modifier \<times> parse" where
  "directive_modifier p =
     (if ptok p = sPERIOD then
        (let p = get p;
             m = (if ptok p = sINTEGER
                  then (if tok_val p = 0 then Some MZero else if tok_val p = 7 then Some MBit7 else None)
                  else if ptok p = sIDENT
                  then map_of [(CHR ''b'', MByte), (CHR ''B'', MByte), (CHR ''d'', MDirect), (CHR ''D'', MDirect),
                         (CHR ''w'', MWord), (CHR ''W'', MWord), (CHR ''a'', MAbsolute), (CHR ''A'', MAbsolute),
                         (CHR ''l'', MLong), (CHR ''L'', MLong), (CHR ''f'', MFloat), (CHR ''F'', MFloat)]
                         (hd (tok_id p))
                  else None)
         in case m of Some m \<Rightarrow> (m, get p) | None \<Rightarrow> (MNone, get (err p)))
      else (MNone, p))"

definition parse_include :: "parse \<Rightarrow> parse" where
  "parse_include p =
     (if ptok p = sSTRING then
        (let path = tok_id p; p = get p in
         if ptok p \<noteq> sSTATESEP then err p
         else (case fs p path of
                 None \<Rightarrow> err p
               | Some content \<Rightarrow>
                   get (p\<lparr>scan := scanner_start ((scan p)\<lparr>files := bf_open content (files (scan p))\<rparr>)\<rparr>)))
      else p)"

text \<open>\<open>as_import\<close> with the object of the module: its members are integers.\<close>

fun add_members :: "ptr \<Rightarrow> (u8 list \<times> u32) list \<Rightarrow> asm \<Rightarrow> asm" where
  "add_members m [] s = s"
| "add_members m ((nm, v) # es) s =
     (let (a, s) = alloc (int_object (scast v)) s
      in add_members m es (update m (\<lambda>x. x\<lparr>desc := map_set (desc x) (map (\<lambda>b. char_of (unat b)) nm) a\<rparr>) s))"

definition import_module :: "nat \<Rightarrow> string \<Rightarrow> parse \<Rightarrow> parse option" where
  "import_module n nm p =
     (case smb p nm of
        None \<Rightarrow> Some (err p)
      | Some d \<Rightarrow>
          Option.bind (as_import n (cstr nm) d (imps p)) (\<lambda>(is, es).
            on_asm (\<lambda>s. let (m, s) = alloc (object_new Var NoTypeForm) s
                        in map_option (add_members m es) (scope_add_object nm m s))
              (p\<lparr>imps := is\<rparr>)))"

definition parse_import :: "nat \<Rightarrow> parse \<Rightarrow> parse option" where
  "parse_import n p =
     (if ptok p = sIDENT then map_option get (import_module n (tok_id p) p) else Some (err p))"

text \<open>The section becomes the current one while the source is read, whatever \<open>if\<close> it stands in.\<close>

definition number_after_comma :: "u32 \<Rightarrow> parse \<Rightarrow> u32 \<times> parse" where
  "number_after_comma v p =
     (if ptok p = sCOMMA
      then (let p = get p in (if ptok p = sINTEGER then tok_val p else v, get p)) else (v, p))"

definition parse_section :: "parse \<Rightarrow> parse option" where
  "parse_section p =
     (if ptok p = sSTRING then
        (let nm = tok_id p; (ty, p) = number_after_comma SHT_PROGBITS (get p);
             (fl, p) = number_after_comma SHF_EXECINSTR p
         in map_option (\<lambda>(i, c). p\<lparr>elf := c\<lparr>current := Some i\<rparr>\<rparr>) (elf_section_create (Some nm) fl ty (elf p)))
      else Some p)"

text \<open>All directives but \<open>errorif\<close>, which contains an \<open>if\<close>.\<close>

definition plain_directive :: "nat \<Rightarrow> symbol \<Rightarrow> modifier \<Rightarrow> parse \<Rightarrow> parse option" where
  "plain_directive n t md p =
     (if t = sINCLUDE then Some (parse_include p)
      else if t = sIMPORT then parse_import n p
      else if t = sINSERT then Some p
      else if t = sERROR then parse_message n OpError p
      else if t = sMESSAGE then parse_message n OpMessage p
      else if t = sSECTION then parse_section p
      else if t = sDATA then parse_data n md p
      else if t = sBYTE then parse_data n MByte p
      else if t = sWORD then parse_data n MWord p
      else if t = sLONG then parse_data n MLong p
      else if t = sFLOAT then parse_data n MFloat p
      else if t = sDOUBLE then parse_data n MDouble p
      else if t = sTEXT then parse_text n md p
      else if t = sFILL then parse_fill n md p
      else if t = sSUBHEADING then parse_subheading n p
      else if t = sTITLE then parse_title n p
      else if t = sPAGE then Some (interp_add OpPageBreak p)
      else Some (err p))"

subsection \<open>Statements\<close>

text \<open>A block of its own opens a scope named \<open>block_unique\<close>.\<close>

definition open_block :: "parse \<Rightarrow> parse option" where
  "open_block p =
     (let (a, s) = alloc (object_new Var NoTypeForm) (asm p) in
      map_option (\<lambda>p. get (interp_add (OpScopeBegin a) p))
        (on_asm (\<lambda>s. map_option (scope_push_object a) (scope_add_object ''block_unique'' a s)) (p\<lparr>asm := s\<rparr>)))"

definition close_block :: "parse \<Rightarrow> parse" where
  "close_block p = get (interp_add OpScopeEnd (p\<lparr>asm := scope_pop (asm p)\<rparr>))"

definition parse_let :: "nat \<Rightarrow> bool \<Rightarrow> parse \<Rightarrow> parse option" where
  "parse_let n is_const p =
     (let (x, p) = parse_ident_def (get p); (v, s) = alloc (x\<lparr>readonly := is_const\<rparr>) (asm p)
      in parse_assignment n v (p\<lparr>asm := s\<rparr>))"

definition is_proc :: "bool \<Rightarrow> obj \<Rightarrow> bool" where
  "is_proc loc x \<longleftrightarrow> loc \<and> (case val x of Str nm \<Rightarrow> same_nocase nm ''proc'' | _ \<Rightarrow> False)"

fun parse_statement :: "nat \<Rightarrow> parse \<Rightarrow> parse option"
and parse_named :: "nat \<Rightarrow> parse \<Rightarrow> parse option"
and parse_directive :: "nat \<Rightarrow> parse \<Rightarrow> parse option"
and parse_if :: "nat \<Rightarrow> parse \<Rightarrow> parse option"
and else_arms :: "nat \<Rightarrow> parse \<Rightarrow> parse option"
and parse_block :: "nat \<Rightarrow> parse \<Rightarrow> parse option"
where
  "parse_statement 0 p = None"
| "parse_statement (Suc n) p =
     (if ptok p = sSTATESEP then Some (get p)
      else if is_instr (ptok p) then parse_instr n p
      else if is_directive (ptok p) then parse_directive n p
      else Option.bind (is_macro p) (\<lambda>macro.
        if macro then parse_macro_call n p
        else if ptok p = sVAR \<or> ptok p = sLET then parse_let n (ptok p = sLET) p
        else if ptok p = sPERIOD \<or> ptok p = sIDENT then parse_named n p
        else if ptok p = sIF then parse_if n p
        else if ptok p = sWHILE \<or> ptok p = sREPEAT then Some p
        else if ptok p = sBLOCKSTART then open_block p
        else if ptok p = sBLOCKEND then Some (close_block p)
        else if ptok p = sEOF \<or> ptok p = sEND then Some p
        else Some (get (err p))))"
| "parse_named 0 p = None"
| "parse_named (Suc n) p =
     (let loc = (ptok p = sPERIOD); (x, p) = parse_ident_def p; x = x\<lparr>is_local := loc\<rparr> in
      if is_proc loc x then parse_proc_sig n p
      else if ptok p = sBECOMES then
        (let (v, s) = alloc x (asm p) in map_option get (parse_assignment n v (p\<lparr>asm := s\<rparr>)))
      else if ptok p = sMACRO then
        map_option (\<lambda>p. get (interp_macro_end p)) (Option.bind (parse_macro_def n x (get p)) (parse_block n))
      else
        (let p = add_object OpLabel x p in
         if is_instr (ptok p) then parse_instr n p
         else if is_directive (ptok p) then parse_directive n p
         else Some p))"
| "parse_directive 0 p = None"
| "parse_directive (Suc n) p =
     (let t = ptok p; (md, p) = directive_modifier (get p) in
      if t = sERRORIF then
        map_option (\<lambda>p. p\<lparr>scan := (scan p)\<lparr>sym := sEND\<rparr>\<rparr>)
          (Option.bind (parse_if n (get p)) (parse_message n OpErrorIf))
      else plain_directive n t md p)"
| "parse_if 0 p = None"
| "parse_if (Suc n) p =
     Option.bind (parse_expression n False (get p)) (\<lambda>p.
       if ptok p = sBLOCKSTART then
         map_option (interp_add OpScopeEnd)
           (Option.bind (parse_block n (get (interp_add OpIfBegin p))) (\<lambda>p. else_arms n (get p)))
       else Some (err p))"
| "else_arms 0 p = None"
| "else_arms (Suc n) p =
     (if ptok p = sELSE then
        (let p = get (interp_add OpScopeEnd p) in
         Option.bind
           (if ptok p = sIF then
              Option.bind (parse_expression n False (get p)) (\<lambda>p.
                if ptok p = sBLOCKSTART
                then map_option get (parse_block n (get (interp_add OpElseIfBegin p))) else Some p)
            else if ptok p = sBLOCKSTART
            then map_option get (parse_block n (get (interp_add OpElseBegin p)))
            else Some (err p))
           (else_arms n))
      else Some p)"
| "parse_block 0 p = None"
| "parse_block (Suc n) p =
     Option.bind (parse_statement n p) (\<lambda>p. if ptok p \<noteq> sBLOCKEND then parse_block n p else Some p)"

fun parse_asm_file :: "nat \<Rightarrow> parse \<Rightarrow> parse option" where
  "parse_asm_file 0 p = None"
| "parse_asm_file (Suc n) p =
     Option.bind (parse_statement n p) (\<lambda>p.
       if ptok p \<noteq> sEOF \<and> ptok p \<noteq> sEND then parse_asm_file n p else Some p)"

text \<open>A symbol given on the command line; without a value it is 1.\<close>

definition parse_define :: "nat \<Rightarrow> parse \<Rightarrow> parse option" where
  "parse_define n p =
     (let (x, p) = parse_ident_def p in
      if ptok p = sBECOMES then
        (let (v, s) = alloc x (asm p) in parse_assignment n v (p\<lparr>asm := s\<rparr>))
      else
        (case val x of
           Str nm \<Rightarrow> on_asm (\<lambda>s. let (a, s) = alloc (int_object 1) s in as_define_symbol nm a s) p
         | _ \<Rightarrow> None))"

end
