(* ===== verification/Parsing.thy ===== *)
theory Parsing
  imports Parser Conditional Scanning
begin

text \<open>
  What the parser makes of an expression: the printed form of an expression tree, with parentheses
  where the grammar of \<open>parse_expression\<close> needs them, is read as exactly that tree.
\<close>

subsection \<open>Tokens to come\<close>

datatype token = Sym symbol | IntTok u32 | Name string

fun is_tok :: "token \<Rightarrow> scan \<Rightarrow> bool" where
  "is_tok (Sym t) s \<longleftrightarrow> sym s = t"
| "is_tok (IntTok v) s \<longleftrightarrow> sym s = sINTEGER \<and> ival s = v"
| "is_tok (Name nm) s \<longleftrightarrow> sym s = sIDENT \<and> ident s = nm"

text \<open>The scanner is at the first of these tokens, and \<open>scanner_get\<close> goes through the others.\<close>

fun feeds :: "token list \<Rightarrow> scan \<Rightarrow> bool" where
  "feeds [] s \<longleftrightarrow> True"
| "feeds (t # ts) s \<longleftrightarrow> is_tok t s \<and> feeds ts (scanner_get s)"

definition adv :: "nat \<Rightarrow> parse \<Rightarrow> parse" where
  "adv k p = p\<lparr>scan := (scanner_get ^^ k) (scan p)\<rparr>"

lemma adv_0 [simp]: "adv 0 p = p"
  by (simp add: adv_def)

lemma adv_adv [simp]: "adv j (adv k p) = adv (j + k) p"
  by (simp add: adv_def funpow_add)

lemma get_adv: "get p = adv 1 p"
  by (simp add: get_def adv_def)

lemma feeds_append: "feeds (xs @ ys) (scan p) \<longleftrightarrow> feeds xs (scan p) \<and> feeds ys (scan (adv (length xs) p))"
proof (induction xs arbitrary: p)
  case (Cons x xs)
  from Cons [of "adv 1 p"] show ?case by (simp add: adv_def funpow_swap1)
qed simp

subsection \<open>Enough fuel\<close>

definition runs :: "(nat \<Rightarrow> 'a option) \<Rightarrow> 'a \<Rightarrow> bool" where
  "runs f r \<longleftrightarrow> (\<exists>N. \<forall>n \<ge> N. f n = Some r)"

lemma runs_Some [simp]: "runs (\<lambda>n. Some r) r"
  by (auto simp: runs_def)

lemma runs_step: "(\<And>n. f (Suc n) = g n) \<Longrightarrow> runs g r \<Longrightarrow> runs f r"
  unfolding runs_def by (metis Suc_le_D Suc_le_mono)

lemma runs_bind: "runs f x \<Longrightarrow> runs (g x) r \<Longrightarrow> runs (\<lambda>n. Option.bind (f n) (\<lambda>y. g y n)) r"
  unfolding runs_def by (metis bind.bind_lunit nat_le_linear order_trans)

lemma runs_map: "runs f x \<Longrightarrow> runs (\<lambda>n. map_option g (f n)) (g x)"
  unfolding runs_def by fastforce

subsection \<open>Expression trees\<close>

datatype expr =
    Num u32
  | Ident string
  | Pre symbol expr
  | Mul symbol expr expr
  | Sum symbol expr expr
  | Neg expr
  | Rel symbol expr expr

primrec wf :: "expr \<Rightarrow> bool" where
  "wf (Num v) \<longleftrightarrow> True"
| "wf (Ident nm) \<longleftrightarrow> True"
| "wf (Pre t a) \<longleftrightarrow> prefix_op t \<noteq> None \<and> wf a"
| "wf (Mul t a b) \<longleftrightarrow> mul_op t \<noteq> None \<and> wf a \<and> wf b"
| "wf (Sum t a b) \<longleftrightarrow> sum_op t \<noteq> None \<and> wf a \<and> wf b"
| "wf (Neg a) \<longleftrightarrow> wf a"
| "wf (Rel t a b) \<longleftrightarrow> rel_op t \<noteq> None \<and> wf a \<and> wf b"

text \<open>Relation 0, signed sum 1, sum 2, term 3, factor 4.\<close>

primrec prec :: "expr \<Rightarrow> nat" where
  "prec (Num v) = 4"
| "prec (Ident nm) = 4"
| "prec (Pre t a) = 4"
| "prec (Mul t a b) = 3"
| "prec (Sum t a b) = 2"
| "prec (Neg a) = 1"
| "prec (Rel t a b) = 0"

definition wrap :: "nat \<Rightarrow> nat \<Rightarrow> token list \<Rightarrow> token list" where
  "wrap l k ts = (if l \<le> k then ts else Sym sLPAREN # ts @ [Sym sRPAREN])"

primrec body :: "expr \<Rightarrow> token list" where
  "body (Num v) = [IntTok v]"
| "body (Ident nm) = [Name nm]"
| "body (Pre t a) = Sym t # wrap 4 (prec a) (body a)"
| "body (Mul t a b) = wrap 3 (prec a) (body a) @ [Sym t] @ wrap 4 (prec b) (body b)"
| "body (Sum t a b) = wrap 2 (prec a) (body a) @ [Sym t] @ wrap 3 (prec b) (body b)"
| "body (Neg a) = Sym sMINUS # wrap 2 (prec a) (body a)"
| "body (Rel t a b) = wrap 1 (prec a) (body a) @ [Sym t] @ wrap 1 (prec b) (body b)"

definition show_at :: "nat \<Rightarrow> expr \<Rightarrow> token list" where
  "show_at l e = wrap l (prec e) (body e)"

text \<open>What the parser adds to the program for a tree.\<close>

primrec gen_expr :: "expr \<Rightarrow> parse \<Rightarrow> parse" where
  "gen_expr (Num v) p = add_object OpPush (int_object (scast v)) p"
| "gen_expr (Ident nm) p = add_object OpPushVar (name_object nm False) p"
| "gen_expr (Pre t a) p = interp_add (the (prefix_op t)) (gen_expr a p)"
| "gen_expr (Mul t a b) p = interp_add (the (mul_op t)) (gen_expr b (gen_expr a p))"
| "gen_expr (Sum t a b) p = interp_add (the (sum_op t)) (gen_expr b (gen_expr a p))"
| "gen_expr (Neg a) p = interp_add OpNeg (gen_expr a p)"
| "gen_expr (Rel t a b) p = interp_add (the (rel_op t)) (gen_expr b (gen_expr a p))"

lemma scan_interp_add [simp]: "scan (interp_add x p) = scan p"
  by (simp add: interp_add_def split: option.split)

lemma scan_add_object [simp]: "scan (add_object mk x p) = scan p"
  by (simp add: add_object_def Let_def alloc_def)

lemma scan_gen_expr [simp]: "scan (gen_expr e p) = scan p"
  by (induction e arbitrary: p) simp_all

lemma adv_interp_add [simp]: "adv k (interp_add x p) = interp_add x (adv k p)"
  by (simp add: adv_def interp_add_def split: option.split)

lemma adv_add_object [simp]: "adv k (add_object mk x p) = add_object mk x (adv k p)"
  by (simp add: add_object_def Let_def alloc_def adv_def interp_add_def split: option.split)

lemma adv_gen_expr [simp]: "adv k (gen_expr e p) = gen_expr e (adv k p)"
  by (induction e arbitrary: p) simp_all

lemma tok_gen [simp]: "ptok (interp_add x p) = ptok p" "ptok (add_object mk y p) = ptok p" "ptok (gen_expr e p) = ptok p"
  by (simp_all add: ptok_def)

subsection \<open>Reading a tree back\<close>

text \<open>The state after \<open>e\<close> has been read at level \<open>l\<close>.\<close>

definition after :: "nat \<Rightarrow> expr \<Rightarrow> parse \<Rightarrow> parse" where
  "after l e p = gen_expr e (adv (length (show_at l e)) p)"

definition at_expr :: "nat \<Rightarrow> expr \<Rightarrow> symbol \<Rightarrow> token list \<Rightarrow> parse \<Rightarrow> bool" where
  "at_expr l e t rest p \<longleftrightarrow> feeds (show_at l e @ Sym t # rest) (scan p) \<and> t \<noteq> sPERIOD"

lemma at_after: "at_expr l e t rest p \<Longrightarrow> feeds (Sym t # rest) (scan (after l e p)) \<and> ptok (after l e p) = t"
  by (simp add: at_expr_def after_def feeds_append ptok_def)

definition factor_ok :: "expr \<Rightarrow> bool" where
  "factor_ok e \<longleftrightarrow> (\<forall>t rest p. at_expr 4 e t rest p \<longrightarrow> runs (\<lambda>n. parse_factor n False p) (after 4 e p))"

definition term_ok :: "expr \<Rightarrow> bool" where
  "term_ok e \<longleftrightarrow> (\<forall>t rest p r. at_expr 3 e t rest p \<longrightarrow> runs (\<lambda>n. term_loop n (after 3 e p)) r \<longrightarrow>
     runs (\<lambda>n. parse_term n False p) r)"

definition sum_ok :: "expr \<Rightarrow> bool" where
  "sum_ok e \<longleftrightarrow> (\<forall>t rest p r. at_expr 2 e t rest p \<longrightarrow> mul_op t = None \<longrightarrow>
     runs (\<lambda>n. sum_loop n (after 2 e p)) r \<longrightarrow>
     runs (\<lambda>n. Option.bind (parse_term n False p) (sum_loop n)) r)"

definition simple_ok :: "expr \<Rightarrow> bool" where
  "simple_ok e \<longleftrightarrow> (\<forall>t rest p. at_expr 1 e t rest p \<longrightarrow> mul_op t = None \<longrightarrow> sum_op t = None \<longrightarrow>
     runs (\<lambda>n. parse_simple_expression n False p) (after 1 e p))"

definition expr_ok :: "expr \<Rightarrow> bool" where
  "expr_ok e \<longleftrightarrow> (\<forall>t rest p. at_expr 0 e t rest p \<longrightarrow> mul_op t = None \<longrightarrow> sum_op t = None \<longrightarrow> rel_op t = None \<longrightarrow>
     runs (\<lambda>n. parse_expression n False p) (after 0 e p))"

text \<open>At neighbouring levels most trees are printed alike.\<close>

lemma show_at_eq: "prec e < l \<and> prec e < m \<or> l \<le> prec e \<and> m \<le> prec e \<Longrightarrow> show_at l e = show_at m e"
  by (auto simp: show_at_def wrap_def)

lemma at_expr_eq: "show_at l e = show_at m e \<Longrightarrow> at_expr l e t rest p = at_expr m e t rest p \<and> after l e p = after m e p"
  by (simp add: at_expr_def after_def)

lemma term_loop_stops: "mul_op (ptok p) = None \<Longrightarrow> runs (\<lambda>n. term_loop n p) p"
  by (rule runs_step [where g = "\<lambda>n. Some p"]) simp_all

lemma sum_loop_stops: "sum_op (ptok p) = None \<Longrightarrow> runs (\<lambda>n. sum_loop n p) p"
  by (rule runs_step [where g = "\<lambda>n. Some p"]) simp_all

lemma factor_term:
  assumes "prec e \<noteq> 3" "prec e \<le> 4" "factor_ok e" shows "term_ok e"
  unfolding term_ok_def
proof (intro allI impI)
  fix t rest p r
  assume a: "at_expr 3 e t rest p" and r: "runs (\<lambda>n. term_loop n (after 3 e p)) r"
  have "show_at 3 e = show_at 4 e" using assms(1,2) by (intro show_at_eq) auto
  note eq = at_expr_eq [OF this, of t rest p]
  have "runs (\<lambda>n. parse_factor n False p) (after 3 e p)"
    using assms(3) a eq unfolding factor_ok_def by metis
  from runs_bind [where g = "\<lambda>y n. term_loop n y", OF this r] show "runs (\<lambda>n. parse_term n False p) r"
    by (rule runs_step [rotated]) simp
qed

lemma term_sum:
  assumes "prec e \<noteq> 2" "term_ok e" shows "sum_ok e"
  unfolding sum_ok_def
proof (intro allI impI)
  fix t rest p r
  assume a: "at_expr 2 e t rest p" and t: "mul_op t = None" and r: "runs (\<lambda>n. sum_loop n (after 2 e p)) r"
  have "show_at 2 e = show_at 3 e" using assms(1) by (intro show_at_eq) auto
  note eq = at_expr_eq [OF this, of t rest p]
  have "runs (\<lambda>n. term_loop n (after 2 e p)) (after 2 e p)"
    using at_after [OF a] t by (intro term_loop_stops) simp
  then have "runs (\<lambda>n. parse_term n False p) (after 2 e p)"
    using assms(2) a eq unfolding term_ok_def by metis
  from runs_bind [where g = "\<lambda>y n. sum_loop n y", OF this r] show "runs (\<lambda>n. Option.bind (parse_term n False p) (sum_loop n)) r" .
qed

text \<open>Below level 2 a tree does not begin with a sign.\<close>

lemma first_token:
  "wf e \<Longrightarrow> 2 \<le> l \<Longrightarrow> \<exists>x xs. show_at l e = x # xs \<and> x \<noteq> Sym sPLUS \<and> x \<noteq> Sym sMINUS"
proof (induction e arbitrary: l)
  case (Pre t a)
  then have "t \<noteq> sPLUS \<and> t \<noteq> sMINUS" by (auto simp: prefix_op_def)
  then show ?case by (auto simp: show_at_def wrap_def)
next
  case (Mul t a b)
  from Mul.IH(1) [of 3] Mul.prems obtain x xs where "show_at 3 a = x # xs \<and> x \<noteq> Sym sPLUS \<and> x \<noteq> Sym sMINUS" by auto
  then show ?case by (auto simp: show_at_def [of l] wrap_def [of l] simp flip: show_at_def)
next
  case (Sum t a b)
  from Sum.IH(1) [of 2] Sum.prems obtain x xs where "show_at 2 a = x # xs \<and> x \<noteq> Sym sPLUS \<and> x \<noteq> Sym sMINUS" by auto
  then show ?case by (auto simp: show_at_def [of l] wrap_def [of l] simp flip: show_at_def)
qed (auto simp: show_at_def wrap_def)

lemma not_signed:
  assumes "wf e" "2 \<le> l" "at_expr l e t rest p" shows "ptok p \<noteq> sPLUS \<and> ptok p \<noteq> sMINUS"
proof -
  from first_token [OF assms(1,2)] obtain x xs where
    "show_at l e = x # xs" "x \<noteq> Sym sPLUS" "x \<noteq> Sym sMINUS" by blast
  with assms(3) show ?thesis by (cases x) (auto simp: at_expr_def ptok_def)
qed

lemma sum_simple:
  assumes "wf e" "prec e \<noteq> 1" "sum_ok e" shows "simple_ok e"
  unfolding simple_ok_def
proof (intro allI impI)
  fix t rest p
  assume a: "at_expr 1 e t rest p" and t: "mul_op t = None" "sum_op t = None"
  have "show_at 1 e = show_at 2 e" using assms(2) by (intro show_at_eq) auto
  note eq = at_expr_eq [OF this, of t rest p]
  have "runs (\<lambda>n. sum_loop n (after 2 e p)) (after 2 e p)"
    using at_after [OF a] t eq by (intro sum_loop_stops) simp
  then have "runs (\<lambda>n. Option.bind (parse_term n False p) (sum_loop n)) (after 1 e p)"
    using assms(3) a eq t(1) unfolding sum_ok_def by metis
  moreover have "ptok p \<noteq> sPLUS \<and> ptok p \<noteq> sMINUS" using not_signed [OF assms(1) order_refl] a eq by blast
  ultimately show "runs (\<lambda>n. parse_simple_expression n False p) (after 1 e p)"
    by (intro runs_step [where f = "\<lambda>n. parse_simple_expression n False p"]) (simp_all add: option.map_ident)
qed

lemma simple_expr:
  assumes "prec e \<noteq> 0" "simple_ok e" shows "expr_ok e"
  unfolding expr_ok_def
proof (intro allI impI)
  fix t rest p
  assume a: "at_expr 0 e t rest p" and t: "mul_op t = None" "sum_op t = None" "rel_op t = None"
  have "show_at 0 e = show_at 1 e" using assms(1) by (intro show_at_eq) auto
  note eq = at_expr_eq [OF this, of t rest p]
  have "runs (\<lambda>n. parse_simple_expression n False p) (after 0 e p)"
    using assms(2) a eq t unfolding simple_ok_def by metis
  from runs_bind [OF this, of "\<lambda>p n. case rel_op (ptok p) of
         Some x \<Rightarrow> map_option (interp_add x) (parse_simple_expression n False (get p))
       | None \<Rightarrow> Some p" "after 0 e p"]
  show "runs (\<lambda>n. parse_expression n False p) (after 0 e p)"
    using at_after [OF a] t by (intro runs_step [where f = "\<lambda>n. parse_expression n False p"]) simp_all
qed

lemma expr_factor:
  assumes "prec e \<noteq> 4" "prec e \<le> 4" "expr_ok e" shows "factor_ok e"
  unfolding factor_ok_def
proof (intro allI impI)
  fix t rest p
  assume a: "at_expr 4 e t rest p"
  have s: "show_at 4 e = Sym sLPAREN # show_at 0 e @ [Sym sRPAREN]"
    using assms(1,2) by (simp add: show_at_def wrap_def)
  have "at_expr 0 e sRPAREN (Sym t # rest) (get p)" and lp: "ptok p = sLPAREN"
    using a by (simp_all add: at_expr_def s ptok_def get_def)
  moreover from this have "runs (\<lambda>n. parse_expression n False (get p)) (after 0 e (get p))"
    using assms(3) unfolding expr_ok_def by (simp add: mul_op_def sum_op_def rel_op_def)
  ultimately have "runs (\<lambda>n. map_option (\<lambda>p. if ptok p = sRPAREN then get p else err p)
      (parse_expression n False (get p))) (get (after 0 e (get p)))"
    using runs_map [of _ "after 0 e (get p)" "\<lambda>p. if ptok p = sRPAREN then get p else err p"]
      at_after [of 0 e sRPAREN "Sym t # rest" "get p"] by simp
  moreover have "get (after 0 e (get p)) = after 4 e p"
    by (simp add: after_def s get_adv add.commute)
  ultimately show "runs (\<lambda>n. parse_factor n False p) (after 4 e p)"
    using lp by (intro runs_step [where f = "\<lambda>n. parse_factor n False p"]) simp_all
qed

subsection \<open>Every tree is read back\<close>

lemma prec_le: "prec e \<le> 4"
  by (induction e) simp_all

definition all_ok :: "expr \<Rightarrow> bool" where
  "all_ok e \<longleftrightarrow> factor_ok e \<and> term_ok e \<and> sum_ok e \<and> simple_ok e \<and> expr_ok e"

lemma from_factor: "wf e \<Longrightarrow> prec e = 4 \<Longrightarrow> factor_ok e \<Longrightarrow> all_ok e"
  unfolding all_ok_def using factor_term term_sum sum_simple simple_expr by simp

lemma from_term: "wf e \<Longrightarrow> prec e = 3 \<Longrightarrow> term_ok e \<Longrightarrow> all_ok e"
  unfolding all_ok_def using term_sum sum_simple simple_expr expr_factor by simp

lemma from_sum: "wf e \<Longrightarrow> prec e = 2 \<Longrightarrow> sum_ok e \<Longrightarrow> all_ok e"
  unfolding all_ok_def using factor_term sum_simple simple_expr expr_factor by simp

lemma from_simple: "wf e \<Longrightarrow> prec e = 1 \<Longrightarrow> simple_ok e \<Longrightarrow> all_ok e"
  unfolding all_ok_def using factor_term term_sum simple_expr expr_factor by simp

lemma from_expr: "wf e \<Longrightarrow> prec e = 0 \<Longrightarrow> expr_ok e \<Longrightarrow> all_ok e"
  unfolding all_ok_def using factor_term term_sum sum_simple expr_factor by simp

text \<open>Operators are no full stop, and those of one level are not those of another.\<close>

lemma op_levels:
  "mul_op t \<noteq> None \<Longrightarrow> t \<noteq> sPERIOD \<and> sum_op t = None"
  "sum_op t \<noteq> None \<Longrightarrow> t \<noteq> sPERIOD \<and> mul_op t = None"
  "rel_op t \<noteq> None \<Longrightarrow> t \<noteq> sPERIOD \<and> mul_op t = None \<and> sum_op t = None"
  by (auto simp: mul_op_def sum_op_def rel_op_def)

text \<open>A tree of two parts and an operator, at the level where it stands without parentheses.\<close>

lemma at_two:
  assumes "at_expr l e t rest p" "show_at l e = show_at la a @ Sym u # show_at lb b" "u \<noteq> sPERIOD"
  shows "at_expr la a u (show_at lb b @ Sym t # rest) p" "at_expr lb b t rest (get (after la a p))"
proof -
  show a: "at_expr la a u (show_at lb b @ Sym t # rest) p" using assms by (simp add: at_expr_def)
  show "at_expr lb b t rest (get (after la a p))"
    using at_after [OF a] assms(1) by (simp add: at_expr_def get_def)
qed

lemma after_two:
  assumes "show_at l e = show_at la a @ Sym u # show_at lb b"
    and "gen_expr e = (\<lambda>p. interp_add x (gen_expr b (gen_expr a p)))"
  shows "after l e p = interp_add x (after lb b (get (after la a p)))"
  using assms by (simp add: after_def get_adv add.commute add.left_commute)

lemma mul_ok:
  assumes "all_ok a" "all_ok b" "mul_op u = Some x"
  shows "term_ok (Mul u a b)"
  unfolding term_ok_def
proof (intro allI impI)
  fix t rest p r
  let ?e = "Mul u a b"
  assume at: "at_expr 3 ?e t rest p" and r: "runs (\<lambda>n. term_loop n (after 3 ?e p)) r"
  have s: "show_at 3 ?e = show_at 3 a @ Sym u # show_at 4 b" by (simp add: show_at_def wrap_def [of 3 3])
  have u: "u \<noteq> sPERIOD" using op_levels(1) assms(3) by auto
  note two = at_two [OF at s u]
  have eq: "after 3 ?e p = interp_add x (after 4 b (get (after 3 a p)))"
    using assms(3) by (intro after_two [OF s]) (simp add: fun_eq_iff)
  have "runs (\<lambda>n. parse_factor n False (get (after 3 a p))) (after 4 b (get (after 3 a p)))"
    using assms(2) two(2) unfolding all_ok_def factor_ok_def by blast
  from runs_bind [where g = "\<lambda>q n. term_loop n (interp_add x q)", OF this r [unfolded eq]]
  have "runs (\<lambda>n. term_loop n (after 3 a p)) r"
    using at_after [OF two(1)] assms(3)
    by (intro runs_step [where f = "\<lambda>n. term_loop n (after 3 a p)"]) simp_all
  then show "runs (\<lambda>n. parse_term n False p) r"
    using assms(1) two(1) unfolding all_ok_def term_ok_def by blast
qed

lemma plus_ok:
  assumes "all_ok a" "all_ok b" "sum_op u = Some x"
  shows "sum_ok (Sum u a b)"
  unfolding sum_ok_def
proof (intro allI impI)
  fix t rest p r
  let ?e = "Sum u a b"
  assume at: "at_expr 2 ?e t rest p" and t: "mul_op t = None" and r: "runs (\<lambda>n. sum_loop n (after 2 ?e p)) r"
  have s: "show_at 2 ?e = show_at 2 a @ Sym u # show_at 3 b" by (simp add: show_at_def wrap_def [of 2 2])
  have u: "u \<noteq> sPERIOD" "mul_op u = None" using op_levels(2) assms(3) by auto
  note two = at_two [OF at s u(1)]
  have eq: "after 2 ?e p = interp_add x (after 3 b (get (after 2 a p)))"
    using assms(3) by (intro after_two [OF s]) (simp add: fun_eq_iff)
  have "runs (\<lambda>n. term_loop n (after 3 b (get (after 2 a p)))) (after 3 b (get (after 2 a p)))"
    using at_after [OF two(2)] t by (intro term_loop_stops) simp
  then have "runs (\<lambda>n. parse_term n False (get (after 2 a p))) (after 3 b (get (after 2 a p)))"
    using assms(2) two(2) unfolding all_ok_def term_ok_def by blast
  from runs_bind [where g = "\<lambda>q n. sum_loop n (interp_add x q)", OF this r [unfolded eq]]
  have "runs (\<lambda>n. sum_loop n (after 2 a p)) r"
    using at_after [OF two(1)] assms(3)
    by (intro runs_step [where f = "\<lambda>n. sum_loop n (after 2 a p)"]) simp_all
  then show "runs (\<lambda>n. Option.bind (parse_term n False p) (sum_loop n)) r"
    using assms(1) two(1) u(2) unfolding all_ok_def sum_ok_def by blast
qed

lemma neg_ok:
  assumes "all_ok a"
  shows "simple_ok (Neg a)"
  unfolding simple_ok_def
proof (intro allI impI)
  fix t rest p
  assume at: "at_expr 1 (Neg a) t rest p" and t: "mul_op t = None" "sum_op t = None"
  have s: "show_at 1 (Neg a) = Sym sMINUS # show_at 2 a" by (simp add: show_at_def wrap_def [of "Suc 0" "Suc 0"])
  have a: "at_expr 2 a t rest (get p)" and m: "ptok p = sMINUS"
    using at by (simp_all add: at_expr_def s [unfolded One_nat_def] ptok_def get_def)
  have "runs (\<lambda>n. sum_loop n (after 2 a (get p))) (after 2 a (get p))"
    using at_after [OF a] t by (intro sum_loop_stops) simp
  then have "runs (\<lambda>n. Option.bind (parse_term n False (get p)) (sum_loop n)) (after 2 a (get p))"
    using assms a t unfolding all_ok_def sum_ok_def by blast
  from runs_map [OF this, of "interp_add OpNeg"]
  have "runs (\<lambda>n. map_option (interp_add OpNeg) (Option.bind (parse_term n False (get p)) (sum_loop n)))
      (after 1 (Neg a) p)"
    by (simp add: after_def s [unfolded One_nat_def] get_adv)
  then show "runs (\<lambda>n. parse_simple_expression n False p) (after 1 (Neg a) p)"
    using m by (intro runs_step [where f = "\<lambda>n. parse_simple_expression n False p"]) simp_all
qed

lemma rel_ok:
  assumes "all_ok a" "all_ok b" "rel_op u = Some x"
  shows "expr_ok (Rel u a b)"
  unfolding expr_ok_def
proof (intro allI impI)
  fix t rest p
  let ?e = "Rel u a b"
  assume at: "at_expr 0 ?e t rest p" and t: "mul_op t = None" "sum_op t = None" "rel_op t = None"
  have s: "show_at 0 ?e = show_at 1 a @ Sym u # show_at 1 b" by (simp add: show_at_def wrap_def [of 0 0])
  have u: "u \<noteq> sPERIOD" "mul_op u = None" "sum_op u = None" using op_levels(3) assms(3) by auto
  note two = at_two [OF at s u(1)]
  have eq: "after 0 ?e p = interp_add x (after 1 b (get (after 1 a p)))"
    using assms(3) by (intro after_two [OF s]) (simp add: fun_eq_iff)
  have A: "runs (\<lambda>n. parse_simple_expression n False p) (after 1 a p)"
    using assms(1) two(1) u unfolding all_ok_def simple_ok_def by blast
  have "runs (\<lambda>n. parse_simple_expression n False (get (after 1 a p))) (after 1 b (get (after 1 a p)))"
    using assms(2) two(2) t unfolding all_ok_def simple_ok_def by blast
  from runs_map [OF this, of "interp_add x"]
  have "runs (\<lambda>n. case rel_op (ptok (after 1 a p)) of
         Some x \<Rightarrow> map_option (interp_add x) (parse_simple_expression n False (get (after 1 a p)))
       | None \<Rightarrow> Some (after 1 a p)) (after 0 ?e p)"
    using at_after [OF two(1)] assms(3) by (simp add: eq)
  from runs_bind [where g = "\<lambda>p n. case rel_op (ptok p) of
         Some x \<Rightarrow> map_option (interp_add x) (parse_simple_expression n False (get p))
       | None \<Rightarrow> Some p", OF A this]
  show "runs (\<lambda>n. parse_expression n False p) (after 0 ?e p)"
    by (intro runs_step [where f = "\<lambda>n. parse_expression n False p"]) simp_all
qed

lemma prefix_ok:
  assumes "all_ok a" "prefix_op u = Some x"
  shows "factor_ok (Pre u a)"
  unfolding factor_ok_def
proof (intro allI impI)
  fix t rest p
  assume at: "at_expr 4 (Pre u a) t rest p"
  have s: "show_at 4 (Pre u a) = Sym u # show_at 4 a" by (simp add: show_at_def wrap_def [of 4 4])
  have a: "at_expr 4 a t rest (get p)" and m: "ptok p = u"
    using at by (simp_all add: at_expr_def s ptok_def get_def)
  have "runs (\<lambda>n. parse_factor n False (get p)) (after 4 a (get p))"
    using assms(1) a unfolding all_ok_def factor_ok_def by blast
  from runs_map [OF this, of "interp_add x"]
  have "runs (\<lambda>n. map_option (interp_add x) (parse_factor n False (get p))) (after 4 (Pre u a) p)"
    using assms(2) by (simp add: after_def s get_adv)
  moreover have "u \<in> {sNOT, sLSS, sGTR, sCARET}" using assms(2) by (auto simp: prefix_op_def split: if_splits)
  ultimately show "runs (\<lambda>n. parse_factor n False p) (after 4 (Pre u a) p)"
    using m assms(2) by (intro runs_step [where f = "\<lambda>n. parse_factor n False p"]) auto
qed

lemma num_ok: "factor_ok (Num v)"
  unfolding factor_ok_def
proof (intro allI impI)
  fix t rest p
  assume "at_expr 4 (Num v) t rest p"
  then have "ptok p = sINTEGER" "tok_val p = v" by (simp_all add: at_expr_def show_at_def wrap_def ptok_def tok_val_def)
  then show "runs (\<lambda>n. parse_factor n False p) (after 4 (Num v) p)"
    by (intro runs_step [where f = "\<lambda>n. parse_factor n False p" and g = "\<lambda>n. Some (after 4 (Num v) p)"])
      (simp_all add: after_def show_at_def wrap_def get_adv)
qed

lemma ident_ok: "factor_ok (Ident nm)"
  unfolding factor_ok_def
proof (intro allI impI)
  fix t rest p
  assume "at_expr 4 (Ident nm) t rest p"
  then have i: "ptok p = sIDENT" "tok_id p = nm" and n: "ptok (get p) \<noteq> sPERIOD"
    by (simp_all add: at_expr_def show_at_def wrap_def ptok_def tok_id_def get_def)
  have "runs (\<lambda>n. dotted n nm (get p)) (nm, get p)"
    using n by (intro runs_step [where f = "\<lambda>n. dotted n nm (get p)" and g = "\<lambda>n. Some (nm, get p)"]) simp_all
  from runs_map [OF this, of "\<lambda>(v, p). add_object OpPushVar (name_object v False) p"] i
  show "runs (\<lambda>n. parse_factor n False p) (after 4 (Ident nm) p)"
    by (intro runs_step [where f = "\<lambda>n. parse_factor n False p"])
      (simp_all add: after_def show_at_def wrap_def get_adv)
qed

lemma every_tree_ok: "wf e \<Longrightarrow> all_ok e"
proof (induction e)
  case (Pre t a)
  then show ?case by (intro from_factor) (auto intro: prefix_ok)
next
  case (Mul t a b)
  then show ?case by (intro from_term) (auto intro: mul_ok)
next
  case (Sum t a b)
  then show ?case by (intro from_sum) (auto intro: plus_ok)
next
  case (Neg a)
  then show ?case by (intro from_simple) (auto intro: neg_ok)
next
  case (Rel t a b)
  then show ?case by (intro from_expr) (auto intro: rel_ok)
qed (auto intro: from_factor num_ok ident_ok)

text \<open>The token after an expression.\<close>

definition ends_expr :: "symbol \<Rightarrow> bool" where
  "ends_expr t \<longleftrightarrow> mul_op t = None \<and> sum_op t = None \<and> rel_op t = None \<and> t \<noteq> sPERIOD"

lemma expression_runs:
  assumes "wf e" "feeds (show_at 0 e @ Sym t # rest) (scan p)" "ends_expr t"
  shows "\<exists>N. \<forall>n \<ge> N. parse_expression n False p = Some (gen_expr e (adv (length (show_at 0 e)) p))"
  using every_tree_ok [OF assms(1)] assms(2,3)
  unfolding all_ok_def expr_ok_def at_expr_def after_def ends_expr_def runs_def by blast

text \<open>
  C17. The parser inverts the printing of expression trees: on the tokens of a printed tree, followed
  by a token that ends it, it stops right behind the tree and has added exactly the tree's postfix
  program. Parentheses are printed only where the levels of the grammar ask for them, so operators
  of one level group to the left, and a leading minus takes the whole sum after it.
\<close>

theorem expression_reads_back:
  assumes "wf e" "feeds (show_at 0 e @ Sym t # rest) (scan p)" "ends_expr t"
  shows "\<exists>N. \<forall>n \<ge> N. parse_expression n False p = Some (gen_expr e (adv (length (show_at 0 e)) p))"
  using expression_runs [OF assms] .

text \<open>A parser at the start of a source text, in the section of \<open>sample_module\<close>.\<close>

definition parse_start :: "string \<Rightarrow> parse" where
  "parse_start t =
     \<lparr>scan = scanner_get (start_scan t), asm = as_init (demo EM_816), elf = sample_module, code = \<lambda>_. [],
      macro_def = False, sigs = [], imps = [], fs = \<lambda>_. None, smb = \<lambda>_. None\<rparr>"

definition sample_expr :: expr where
  "sample_expr = Sum sPLUS (Num 1) (Mul sAST (Num 2) (Sum sMINUS (Num 7) (Num 4)))"

lemma feeds_sample: "feeds (show_at 0 sample_expr @ Sym sCOMMA # []) (scan (parse_start ''1+2*(7-4),''))"
  by code_simp

lemma sample_ok: "wf sample_expr" "ends_expr sCOMMA" "length (show_at 0 sample_expr) = 9"
  by code_simp+

lemma sample_runs:
  "\<exists>N. \<forall>n \<ge> N. parse_expression n False (parse_start ''1+2*(7-4),'') =
     Some (gen_expr sample_expr (adv 9 (parse_start ''1+2*(7-4),'')))"
  using expression_runs [OF sample_ok(1) feeds_sample sample_ok(2)] sample_ok(3) by simp

lemma expression_reads_back_witness:
  "\<exists>N. \<forall>n \<ge> N. parse_expression n False (parse_start ''1+2*(7-4),'') =
     Some (gen_expr sample_expr (adv 9 (parse_start ''1+2*(7-4),'')))"
  using expression_reads_back [OF sample_ok(1) feeds_sample sample_ok(2)] sample_ok(3) by simp

end
