(* ===== verification/Evaluation.thy ===== *)
theory Evaluation
  imports Parsing
begin

text \<open>
  From an expression's source to its value: the operations the parser appends for an expression tree,
  run by the interpreter, leave the tree's value on the stack.
\<close>

subsection \<open>What the parser appends\<close>

text \<open>The constants of a tree in the order of the source, and its postfix program when the first of
  them is the object \<open>k\<close>.\<close>

primrec consts_of :: "expr \<Rightarrow> obj list" where
  "consts_of (Num v) = [int_object (scast v)]"
| "consts_of (Ident nm) = [name_object nm False]"
| "consts_of (Pre t a) = consts_of a"
| "consts_of (Mul t a b) = consts_of a @ consts_of b"
| "consts_of (Sum t a b) = consts_of a @ consts_of b"
| "consts_of (Neg a) = consts_of a"
| "consts_of (Rel t a b) = consts_of a @ consts_of b"

definition two_ops :: "(nat \<Rightarrow> op list) \<Rightarrow> expr \<Rightarrow> (nat \<Rightarrow> op list) \<Rightarrow> op option \<Rightarrow> nat \<Rightarrow> op list" where
  "two_ops f a g x k = f k @ g (k + length (consts_of a)) @ [the x]"

primrec ops_of :: "expr \<Rightarrow> nat \<Rightarrow> op list" where
  "ops_of (Num v) = (\<lambda>k. [OpPush k])"
| "ops_of (Ident nm) = (\<lambda>k. [OpPushVar k])"
| "ops_of (Pre t a) = (\<lambda>k. ops_of a k @ [the (prefix_op t)])"
| "ops_of (Mul t a b) = two_ops (ops_of a) a (ops_of b) (mul_op t)"
| "ops_of (Sum t a b) = two_ops (ops_of a) a (ops_of b) (sum_op t)"
| "ops_of (Neg a) = (\<lambda>k. ops_of a k @ [OpNeg])"
| "ops_of (Rel t a b) = two_ops (ops_of a) a (ops_of b) (rel_op t)"

text \<open>Objects and operations appended to the parser's state, for section \<open>i\<close>.\<close>

definition appended :: "nat \<Rightarrow> obj list \<Rightarrow> op list \<Rightarrow> parse \<Rightarrow> parse" where
  "appended i xs ops p =
     p\<lparr>asm := (asm p)\<lparr>heap := heap (asm p) @ xs\<rparr>, code := (code p)(i := code p i @ ops)\<rparr>"

definition filling :: "nat \<Rightarrow> parse \<Rightarrow> bool" where
  "filling i p \<longleftrightarrow> current (elf p) = Some i \<and> \<not> macro_def p"

lemma appended_simps [simp]:
  "filling i (appended j xs ops p) = filling i p"
  "heap (asm (appended j xs ops p)) = heap (asm p) @ xs"
  "appended i ys ops' (appended i xs ops p) = appended i (xs @ ys) (ops @ ops') p"
  by (simp_all add: appended_def filling_def)

lemma interp_add_appended: "filling i p \<Longrightarrow> interp_add x p = appended i [] [x] p"
  by (simp add: filling_def interp_add_def appended_def)

lemma add_object_appended: "filling i p \<Longrightarrow> add_object mk x p = appended i [x] [mk (length (heap (asm p)))] p"
  by (simp add: add_object_def alloc_def filling_def interp_add_def appended_def)

lemma gen_expr_appended: "filling i p \<Longrightarrow> gen_expr e p = appended i (consts_of e) (ops_of e (length (heap (asm p)))) p"
  by (induction e arbitrary: p) (simp_all add: interp_add_appended add_object_appended two_ops_def)

subsection \<open>The value of a tree\<close>

definition meaning1 :: "symbol \<Rightarrow> u64 \<Rightarrow> u64" where
  "meaning1 t a =
     (if t = sNOT then truth (a = 0) else if t = sLSS then a AND 0xff
      else if t = sGTR then signed_drop_bit 8 a AND 0xff else signed_drop_bit 16 a AND 0xff)"

definition meaning2 :: "symbol \<Rightarrow> u64 \<Rightarrow> u64 \<Rightarrow> u64 option" where
  "meaning2 t a b =
     (if t = sAST then Some (a * b)
      else if t = sSLASH \<or> t = sDIV
      then (if divisible a b then Some (word_of_int (sint a sdiv sint b)) else None)
      else if t = sMOD then (if divisible a b then Some (word_of_int (sint a smod sint b)) else None)
      else if t = sAMPERSAND then Some (a AND b)
      else if t = sPLUS then Some (a + b)
      else if t = sMINUS then Some (a - b)
      else if t = sBARC then Some (a OR b)
      else if t = sEQL then Some (truth (a = b))
      else if t = sNEQ then Some (truth (a \<noteq> b))
      else if t = sLEQ then Some (truth (a \<le>s b))
      else if t = sGTR then Some (truth (b <s a))
      else if t = sGEQ then Some (truth (b \<le>s a))
      else if t = sLEFT_SHIFT then (if unat b < 64 then Some (push_bit (unat b) a) else None)
      else if t = sRIGHT_SHIFT then (if unat b < 64 then Some (signed_drop_bit (unat b) a) else None)
      else None)"

text \<open>
  Trees of numbers have a value unless they divide by zero or shift too far. \<open>sLSS\<close> as a relation
  has none here: the interpreter computes another relation for it.
\<close>

definition both :: "(u64 \<Rightarrow> u64 \<Rightarrow> u64 option) \<Rightarrow> u64 option \<Rightarrow> u64 option \<Rightarrow> u64 option" where
  "both f x y = Option.bind x (\<lambda>a. Option.bind y (f a))"

primrec expr_value :: "expr \<Rightarrow> u64 option" where
  "expr_value (Num v) = Some (scast v)"
| "expr_value (Ident nm) = None"
| "expr_value (Pre t a) = map_option (meaning1 t) (expr_value a)"
| "expr_value (Mul t a b) = both (meaning2 t) (expr_value a) (expr_value b)"
| "expr_value (Sum t a b) = both (meaning2 t) (expr_value a) (expr_value b)"
| "expr_value (Neg a) = map_option uminus (expr_value a)"
| "expr_value (Rel t a b) = both (meaning2 t) (expr_value a) (expr_value b)"

subsection \<open>One operation\<close>

text \<open>\<open>t\<close> is \<open>s\<close> with one more entry on the stack, an integer, and new objects only.\<close>

definition pushed :: "u64 \<Rightarrow> ptr list \<Rightarrow> obj list \<Rightarrow> asm \<Rightarrow> bool" where
  "pushed v st hp t \<longleftrightarrow>
     (\<exists>a new. stack_ok t \<and> stack_view t = a # st \<and> heap t = hp @ new \<and> a < length (heap t) \<and>
        deref t a = int_object v)"

lemma push_new_pushed: "stack_ok s \<Longrightarrow> pushed v (stack_view s) (heap s) (push_new (int_object v) s)"
proof -
  assume s: "stack_ok s"
  let ?s = "s\<lparr>heap := heap s @ [int_object v]\<rparr>"
  have "stack_ok ?s" "stack_view ?s = stack_view s" using s by (simp_all add: stack_ok_def stack_view_def)
  then have "stack_ok (stack_push (length (heap s)) ?s)"
    "stack_view (stack_push (length (heap s)) ?s) = length (heap s) # stack_view s"
    by (simp_all add: stack_ok_push stack_view_push)
  then show ?thesis
    by (simp add: pushed_def push_new_def alloc_def) (simp add: stack_push_def deref_def Let_def)
qed

lemma pushed_pop:
  assumes "pushed v st hp t"
  shows "\<exists>a s new. stack_pop t = Some (a, s) \<and> stack_ok s \<and> stack_view s = st \<and> heap s = hp @ new \<and>
    heap s = heap t \<and> deref s a = int_object v"
proof -
  from assms obtain a new where t: "stack_ok t" "stack_view t = a # st" "heap t = hp @ new" "deref t a = int_object v"
    unfolding pushed_def by blast
  from stack_pop_cons [OF t(1,2)] obtain s where s: "stack_pop t = Some (a, s)" "stack_view s = st" "stack_ok s" by blast
  have "heap s = heap t" using stack_pop_keeps [OF s(1)] by simp
  with s t show ?thesis by (auto simp: deref_def)
qed

lemma pushed_mono: "pushed v st (hp @ xs) t \<Longrightarrow> pushed v st hp t"
  unfolding pushed_def by auto

lemma op1_pushed:
  assumes "pushed a st hp t" "f (int_object a) = Some (int_object v)"
  shows "\<exists>u. stack_op1 f t = Some u \<and> pushed v st hp u"
proof -
  from pushed_pop [OF assms(1)] obtain l s new where s: "stack_pop t = Some (l, s)" "stack_ok s" "stack_view s = st"
    "heap s = hp @ new" "deref s l = int_object a" by blast
  show ?thesis
    using assms(2) s push_new_pushed [OF s(2), of v] by (auto simp: stack_op1_def intro: pushed_mono)
qed

lemma op2_pushed:
  assumes "pushed a st hp t" "pushed b (stack_view t) (heap t) u"
    and "f (int_object a) (int_object b) = Some (int_object v)"
  shows "\<exists>w. stack_op2 f u = Some w \<and> pushed v st hp w"
proof -
  from pushed_pop [OF assms(2)] obtain r s new where s: "stack_pop u = Some (r, s)" "stack_ok s"
    "stack_view s = stack_view t" "heap s = heap t @ new" "deref s r = int_object b" by blast
  have "pushed a st hp s" using assms(1) s unfolding pushed_def by (force simp: deref_def nth_append)
  from pushed_pop [OF this] obtain l q new' where q: "stack_pop s = Some (l, q)" "stack_ok q" "stack_view q = st"
    "heap q = hp @ new'" "heap q = heap s" "deref q l = int_object a" by blast
  have "deref q r = int_object b" using s q by (simp add: deref_def)
  then show ?thesis
    using assms(3) s q push_new_pushed [OF q(2), of v] by (auto simp: stack_op2_def intro: pushed_mono)
qed

lemma exec_prefix:
  assumes "prefix_op t = Some x" "pushed a st hp s"
  shows "\<exists>u. exec_op x s = Some u \<and> pushed (meaning1 t a) st hp u"
  using assms(1)
  by (auto simp: prefix_op_def meaning1_def stack_op_defs object_ops lift1_def split: if_splits
      intro!: op1_pushed [OF assms(2)])

lemma exec_two:
  assumes "mul_op t = Some x \<or> sum_op t = Some x \<or> rel_op t = Some x" "meaning2 t a b = Some v"
    and "pushed a st hp s" "pushed b (stack_view s) (heap s) u"
  shows "\<exists>w. exec_op x u = Some w \<and> pushed v st hp w"
  using assms(1,2)
  by (auto simp: mul_op_def sum_op_def rel_op_def meaning2_def stack_op_defs object_ops object_equal_def lift2_def
      split: if_splits intro!: op2_pushed [OF assms(3,4)])

subsection \<open>A whole tree\<close>

definition holds_at :: "nat \<Rightarrow> obj list \<Rightarrow> obj list \<Rightarrow> bool" where
  "holds_at k xs hp \<longleftrightarrow> (\<exists>h1 h2. hp = h1 @ xs @ h2 \<and> length h1 = k)"

lemma holds_at_append: "holds_at k (xs @ ys) hp \<Longrightarrow> holds_at k xs hp \<and> holds_at (k + length xs) ys (hp @ new)"
  unfolding holds_at_def by (metis append_assoc length_append)

definition gives :: "op list \<Rightarrow> asm \<Rightarrow> u64 \<Rightarrow> bool" where
  "gives xs s v \<longleftrightarrow> (\<exists>t. run_ops xs s = Some t \<and> pushed v (stack_view s) (heap s) t)"

lemma gives_one:
  assumes "gives xs s a" "\<And>t. pushed a (stack_view s) (heap s) t \<Longrightarrow> \<exists>u. exec_op x t = Some u \<and> pushed v (stack_view s) (heap s) u"
  shows "gives (xs @ [x]) s v"
proof -
  from assms(1) obtain t where t: "run_ops xs s = Some t" "pushed a (stack_view s) (heap s) t"
    unfolding gives_def by blast
  from assms(2) [OF t(2)] t(1) show ?thesis by (auto simp: gives_def run_ops_append)
qed

lemma gives_two:
  assumes f: "gives (f k) s a" and g: "\<And>t. pushed a (stack_view s) (heap s) t \<Longrightarrow> gives (g (k + length (consts_of e))) t b"
    and x: "\<And>t u. pushed a (stack_view s) (heap s) t \<Longrightarrow> pushed b (stack_view t) (heap t) u \<Longrightarrow>
      \<exists>w. exec_op (the x) u = Some w \<and> pushed v (stack_view s) (heap s) w"
  shows "gives (two_ops f e g x k) s v"
proof -
  from f obtain t where t: "run_ops (f k) s = Some t" "pushed a (stack_view s) (heap s) t"
    unfolding gives_def by blast
  from g [OF t(2)] obtain u where u: "run_ops (g (k + length (consts_of e))) t = Some u"
    "pushed b (stack_view t) (heap t) u"
    unfolding gives_def by blast
  from x [OF t(2) u(2)] t(1) u(1) show ?thesis by (auto simp: gives_def two_ops_def run_ops_append)
qed

lemma both_Some: "both f x y = Some v \<longleftrightarrow> (\<exists>a b. x = Some a \<and> y = Some b \<and> f a b = Some v)"
  by (cases x; cases y) (auto simp: both_def)

lemma pushed_keeps: "pushed a st hp t \<Longrightarrow> stack_ok t \<and> (\<exists>new. heap t = hp @ new)"
  unfolding pushed_def by blast

text \<open>The three kinds of trees with two parts.\<close>

lemma gives_parts:
  assumes v: "both (meaning2 t) (expr_value a) (expr_value b) = Some v"
    and op: "x \<noteq> None" "x = mul_op t \<or> x = sum_op t \<or> x = rel_op t"
    and s: "stack_ok s" "holds_at k (consts_of a @ consts_of b) (heap s)"
    and a: "\<And>s k v. expr_value a = Some v \<Longrightarrow> stack_ok s \<Longrightarrow> holds_at k (consts_of a) (heap s) \<Longrightarrow> gives (ops_of a k) s v"
    and b: "\<And>s k v. expr_value b = Some v \<Longrightarrow> stack_ok s \<Longrightarrow> holds_at k (consts_of b) (heap s) \<Longrightarrow> gives (ops_of b k) s v"
  shows "gives (two_ops (ops_of a) a (ops_of b) x k) s v"
proof -
  from v obtain va vb where va: "expr_value a = Some va" and vb: "expr_value b = Some vb"
    and m: "meaning2 t va vb = Some v" by (auto simp: both_Some)
  from op(1) obtain y where "x = Some y" by auto
  with op(2) have y: "x = Some y" "mul_op t = Some y \<or> sum_op t = Some y \<or> rel_op t = Some y" by auto
  show ?thesis
  proof (rule gives_two)
    show "gives (ops_of a k) s va" using a va s holds_at_append by blast
    show "gives (ops_of b (k + length (consts_of a))) t vb" if "pushed va (stack_view s) (heap s) t" for t
      using pushed_keeps [OF that] holds_at_append [OF s(2)] b [OF vb] by auto
    show "\<exists>w. exec_op (the x) u = Some w \<and> pushed v (stack_view s) (heap s) w"
      if "pushed va (stack_view s) (heap s) t" "pushed vb (stack_view t) (heap t) u" for t u
      using exec_two [OF y(2) m that] y(1) by simp
  qed
qed

lemma gives_value:
  "wf e \<Longrightarrow> expr_value e = Some v \<Longrightarrow> stack_ok s \<Longrightarrow> holds_at k (consts_of e) (heap s) \<Longrightarrow> gives (ops_of e k) s v"
proof (induction e arbitrary: k s v)
  case (Num n)
  then show ?case
    by (auto simp: gives_def pushed_def holds_at_def stack_view_push stack_ok_push)
      (auto simp: stack_push_def deref_def Let_def)
next
  case (Pre t a)
  then obtain a' x where a: "expr_value a = Some a'" "v = meaning1 t a'" "prefix_op t = Some x" by auto
  have "gives (ops_of a k) s a'" using Pre a by simp
  then show ?case using a by (auto intro!: gives_one exec_prefix)
next
  case (Neg a)
  then obtain a' where a: "expr_value a = Some a'" "v = - a'" by auto
  have "gives (ops_of a k) s a'" using Neg a by simp
  then show ?case
    using a by (auto simp: stack_op_defs object_ops lift1_def intro!: gives_one op1_pushed)
next
  case (Mul t a b)
  then show ?case by (auto intro!: gives_parts [of t])
next
  case (Sum t a b)
  then show ?case by (auto intro!: gives_parts [of t])
next
  case (Rel t a b)
  then show ?case by (auto intro!: gives_parts [of t])
qed simp

lemma plain_append [simp]: "plain (xs @ ys) \<longleftrightarrow> plain xs \<and> plain ys"
  by (auto simp: plain_def)

lemma plain_op:
  "prefix_op t = Some x \<or> mul_op t = Some x \<or> sum_op t = Some x \<or> rel_op t = Some x \<or> x = OpNeg \<Longrightarrow> plain [x]"
  by (auto simp: prefix_op_def mul_op_def sum_op_def rel_op_def plain_def branching_def macro_call_def split: if_splits)

lemma plain_ops_of: "wf e \<Longrightarrow> plain (ops_of e k)"
proof (induction e arbitrary: k)
  case (Num n)
  show ?case by (simp add: plain_def branching_def macro_call_def)
next
  case (Ident n)
  show ?case by (simp add: plain_def branching_def macro_call_def)
qed (auto simp: two_ops_def intro: plain_op)



text \<open>
  The operation for \<open><\<close> computes \<open>\<le>\<close>: for equal values it is true.
\<close>

lemma less_is_less_equal:
  assumes "wf a" "wf b" "expr_value a = Some va" "expr_value b = Some vb"
    and "stack_ok s" "holds_at k (consts_of a @ consts_of b) (heap s)"
  shows "gives (ops_of (Rel sLSS a b) k) s (truth (va \<le>s vb))"
proof -
  have x: "\<exists>w. exec_op (the (rel_op sLSS)) u = Some w \<and> pushed (truth (va \<le>s vb)) (stack_view s) (heap s) w"
    if "pushed va (stack_view s) (heap s) t" "pushed vb (stack_view t) (heap t) u" for t u
    by (auto simp: rel_op_def stack_op_defs object_ops lift2_def intro!: op2_pushed [OF that])
  have b: "gives (ops_of b (k + length (consts_of a))) t vb" if "pushed va (stack_view s) (heap s) t" for t
    using pushed_keeps [OF that] holds_at_append [OF assms(6)] gives_value [OF assms(2,4)] by auto
  have "gives (ops_of a k) s va" using gives_value assms(1,3,5) holds_at_append [OF assms(6)] by blast
  then show ?thesis using gives_two [of "ops_of a" k s va "ops_of b" a vb "rel_op sLSS", OF _ b x] by simp
qed

end
