(* ===== verification/Returning.thy ===== *)
theory Returning
  imports Parsing
begin

text \<open>
  Which parts of the parser come to an end: expressions, lists and instructions do on every input,
  blocks and files do not.
\<close>

subsection \<open>What is left of the source\<close>

lemma left_scan_one: "left (scan_one s) \<le> left s"
proof -
  define s1 where "s1 = skip (\<lambda>c. c \<noteq> 10 \<and> c \<le> 32) s"
  have "left s1 \<le> left s" by (simp add: s1_def)
  moreover have "left (scan_one s) \<le> left s1"
    using left_scan_punct [of s1] left_scan_middle [of s1] left_scan_letter [of s1] unread_left [of s1]
    by (auto simp: scan_one_def Let_def s1_def [symmetric] intro: order_trans [OF left_next])
  ultimately show ?thesis by linarith
qed

lemma left_scanner_get: "left (scanner_get s) \<le> left s"
proof (induction s rule: scanner_get.induct)
  case (1 s)
  then show ?case
    using left_scan_one [of s] by (subst scanner_get.simps) (auto simp: Let_def)
qed

text \<open>A measure that every token but the end of file brings down.\<close>

definition todo :: "parse \<Rightarrow> nat" where
  "todo p = 2 * left (scan p) + (if ptok p = sEOF then 0 else 1)"

lemma todo_get: "todo (get p) \<le> todo p" "ptok p \<noteq> sEOF \<Longrightarrow> todo (get p) < todo p"
  using left_scanner_get [of "scan p"] scanner_get_progress [of "scan p"]
  by (auto simp: todo_def get_def ptok_def)

lemma todo_scan: "scan q = scan p \<Longrightarrow> todo q = todo p"
  by (simp add: todo_def ptok_def)

lemma todo_same [simp]:
  "todo (interp_add x p) = todo p" "todo (add_object mk y p) = todo p" "todo (err p) = todo p"
  "todo (add_instr i m md p) = todo p"
  by (auto intro!: todo_scan simp: err_def add_instr_def)

lemma todo_get_same: "todo (get (add_object mk x p)) \<le> todo p" "todo (get (err p)) \<le> todo p"
  using todo_get(1) [of "add_object mk x p"] todo_get(1) [of "err p"] by simp_all

lemma todo_expect: "todo (expect t p) \<le> todo p"
  using todo_get(1) [of p] todo_get(1) [of "err p"] by (auto simp: expect_def)

subsection \<open>Returning\<close>

definition returns :: "(nat \<Rightarrow> parse \<Rightarrow> parse option) \<Rightarrow> parse \<Rightarrow> bool" where
  "returns f p \<longleftrightarrow> (\<exists>q. runs (\<lambda>n. f n p) q \<and> todo q \<le> todo p)"

lemma returns_one: "(\<And>n. f (Suc n) p = Some q) \<Longrightarrow> todo q \<le> todo p \<Longrightarrow> returns f p"
  unfolding returns_def by (rule exI [of _ q], rule conjI, rule runs_step [OF _ runs_Some]) auto

lemma returns_step:
  assumes "returns g q" "\<And>n. f (Suc n) p = g n q" "todo q \<le> todo p"
  shows "returns f p"
  using assms runs_step [where f = "\<lambda>n. f n p" and g = "\<lambda>n. g n q"] unfolding returns_def
  by (meson order_trans)

lemma returns_bind:
  assumes "returns f p" "\<And>q. todo q \<le> todo p \<Longrightarrow> returns g q"
  shows "returns (\<lambda>n p. Option.bind (f n p) (g n)) p"
proof -
  from assms(1) obtain q where q: "runs (\<lambda>n. f n p) q" "todo q \<le> todo p" unfolding returns_def by blast
  from assms(2) [OF q(2)] obtain r where r: "runs (\<lambda>n. g n q) r" "todo r \<le> todo q" unfolding returns_def by blast
  from runs_bind [where g = "\<lambda>y n. g n y", OF q(1) r(1)] q(2) r(2) show ?thesis
    unfolding returns_def by (meson order_trans)
qed

lemma returns_map:
  assumes "returns f p" "\<And>q. todo (g q) \<le> todo q"
  shows "returns (\<lambda>n p. map_option g (f n p)) p"
  using assms runs_map [of "\<lambda>n. f n p" _ g] unfolding returns_def by (meson order_trans)

lemma returns_at: "returns f (h p) \<Longrightarrow> todo (h p) \<le> todo p \<Longrightarrow> returns (\<lambda>n p. f n (h p)) p"
  unfolding returns_def by (meson order_trans)

subsection \<open>Expressions\<close>

lemma runs_dotted: "\<exists>w q. runs (\<lambda>n. dotted n v p) (w, q) \<and> todo q \<le> todo p"
proof (induction p arbitrary: v rule: measure_induct_rule [of todo])
  case (less p)
  show ?case
  proof (cases "ptok p = sPERIOD \<and> ptok (get p) = sIDENT")
    case True
    then have "ptok p \<noteq> sEOF" by simp
    with todo_get(1) [of "get p"] todo_get(2) have lt: "todo (get (get p)) < todo p" by (meson le_less_trans)
    from less [OF this, of "take 127 (v @ ''.'' @ tok_id (get p))"] obtain w q
      where "runs (\<lambda>n. dotted n (take 127 (v @ ''.'' @ tok_id (get p))) (get (get p))) (w, q)"
        "todo q \<le> todo (get (get p))" by blast
    with True lt show ?thesis
      by (intro exI [of _ w] exI [of _ q] conjI runs_step [where f = "\<lambda>n. dotted n v p"]) (simp_all add: Let_def)
  next
    case False
    let ?q = "if ptok p = sPERIOD then get p else p"
    show ?thesis
      using False todo_get(1) [of p]
      by (intro exI [of _ v] exI [of _ ?q] conjI runs_step [where f = "\<lambda>n. dotted n v p" and g = "\<lambda>n. Some (v, ?q)"])
        (auto simp: Let_def)
  qed
qed

definition returns_below :: "nat \<Rightarrow> bool" where
  "returns_below k \<longleftrightarrow> (\<forall>l p. todo p < k \<longrightarrow>
     returns (\<lambda>n. parse_factor n l) p \<and> returns (\<lambda>n. parse_expression n l) p)"

lemma factor_returns:
  assumes below: "returns_below k" and p: "todo p \<le> k"
  shows "returns (\<lambda>n. parse_factor n l) p"
proof -
  note get1 = todo_get(1) [of p]
  consider "ptok p \<in> {sINTEGER, sCHAR}" | "ptok p = sREAL" | "ptok p = sSTRING" | "ptok p = sPERIOD"
    | (id) "ptok p = sIDENT" l | (name) "ptok p = sIDENT" "\<not> l" | (paren) "ptok p = sLPAREN"
    | (prefix) "ptok p \<in> {sNOT, sLSS, sGTR, sCARET}"
    | (other) "ptok p \<notin> {sINTEGER, sCHAR, sREAL, sSTRING, sPERIOD, sIDENT, sLPAREN, sNOT, sLSS, sGTR, sCARET}"
    by blast
  then show ?thesis
  proof cases
    case 1
    show ?thesis
      by (rule returns_one [where q = "get (add_object OpPush (int_object (scast (tok_val p))) p)"])
        (use 1 in \<open>auto simp: todo_get_same\<close>)
  next
    case 2
    show ?thesis
      by (rule returns_one [where q = "get (add_object OpPush ((object_new Const RealForm)\<lparr>val := Real (sint (tok_val p))\<rparr>) p)"])
        (use 2 in \<open>auto simp: todo_get_same\<close>)
  next
    case 3
    show ?thesis
      by (rule returns_one [where q = "get (add_object OpPush ((object_new Const StringForm)\<lparr>val := Str (tok_id p)\<rparr>) p)"])
        (use 3 in \<open>auto simp: todo_get_same\<close>)
  next
    case 4
    have "todo (expect sIDENT (get p)) \<le> todo p" using todo_expect [of sIDENT "get p"] get1 by linarith
    with 4 show ?thesis
      by (intro returns_one [where q = "let p = expect sIDENT (get p) in add_object OpPushVar (name_object (tok_id p) True) p"])
        (auto simp: Let_def)
  next
    case id
    with get1 show ?thesis
      by (intro returns_one [where q = "add_object OpPushVar (name_object (tok_id p) True) (get p)"]) auto
  next
    case name
    from runs_dotted [of "tok_id p" "get p"] obtain w q where
      d: "runs (\<lambda>n. dotted n (tok_id p) (get p)) (w, q)" "todo q \<le> todo (get p)" by blast
    from runs_map [OF d(1), of "\<lambda>(v, p). add_object OpPushVar (name_object v l) p"] name
    have "runs (\<lambda>n. parse_factor n l p) (add_object OpPushVar (name_object w l) q)"
      by (intro runs_step [where f = "\<lambda>n. parse_factor n l p"]) simp_all
    with d(2) get1 show ?thesis unfolding returns_def by force
  next
    case paren
    then have "todo (get p) < k" using todo_get(2) [of p] p by simp
    with below have "returns (\<lambda>n. parse_expression n False) (get p)" unfolding returns_below_def by blast
    from returns_map [OF this, of "\<lambda>p. if ptok p = sRPAREN then get p else err p"] paren get1 show ?thesis
      by (intro returns_step [where f = "\<lambda>n. parse_factor n l"]) (auto simp: todo_get(1))
  next
    case prefix
    then have "ptok p \<noteq> sEOF" by auto
    then have "todo (get p) < k" using todo_get(2) [of p] p by simp
    with below have r: "returns (\<lambda>n. parse_factor n False) (get p)" unfolding returns_below_def by blast
    from prefix obtain x where "prefix_op (ptok p) = Some x" by (auto simp: prefix_op_def)
    with returns_map [OF r, of "interp_add x"] prefix get1 show ?thesis
      by (intro returns_step [where f = "\<lambda>n. parse_factor n l"]) auto
  next
    case other
    then have "prefix_op (ptok p) = None" by (auto simp: prefix_op_def)
    with other show ?thesis
      by (intro returns_one [where q = "get (err p)"]) (auto simp: todo_get_same)
  qed
qed

text \<open>A loop over operators, each with an operand.\<close>

lemma loop_returns:
  assumes eq: "\<And>n p. loop (Suc n) p = (case opr (ptok p) of
      Some x \<Rightarrow> Option.bind (operand n (get p)) (\<lambda>p. loop n (interp_add x p)) | None \<Rightarrow> Some p)"
    and opr: "opr sEOF = None" and sub: "\<And>q. todo q \<le> k \<Longrightarrow> returns operand q"
  shows "todo p \<le> k \<Longrightarrow> returns loop p"
proof (induction p rule: measure_induct_rule [of todo])
  case (less p)
  show ?case
  proof (cases "opr (ptok p)")
    case None
    then show ?thesis by (intro returns_one [where q = p]) (simp_all add: eq)
  next
    case (Some x)
    with opr have "ptok p \<noteq> sEOF" by auto
    then have lt: "todo (get p) < todo p" by (rule todo_get(2))
    have op: "returns operand (get p)" using lt less.prems by (intro sub) linarith
    have rest: "returns (\<lambda>n q. loop n (interp_add x q)) q" if "todo q \<le> todo (get p)" for q
    proof (rule returns_at)
      show "returns loop (interp_add x q)" using that lt less.prems by (intro less.IH) simp_all
    qed simp
    have step: "loop (Suc n) p = Option.bind (operand n (get p)) (\<lambda>p. loop n (interp_add x p))" for n
      unfolding eq using Some by simp
    show ?thesis
      by (rule returns_step [where g = "\<lambda>n q. Option.bind (operand n q) (\<lambda>q. loop n (interp_add x q))" and q = "get p"])
        (use lt step op rest in \<open>auto intro: returns_bind\<close>)
  qed
qed

lemma term_returns:
  assumes "\<And>l q. todo q \<le> k \<Longrightarrow> returns (\<lambda>n. parse_factor n l) q" and p: "todo p \<le> k"
  shows "returns (\<lambda>n. parse_term n l) p"
proof -
  have "returns term_loop q" if "todo q \<le> k" for q
    using assms(1) by (intro loop_returns [where operand = "\<lambda>n. parse_factor n False" and opr = mul_op, OF _ _ _ that])
      (auto simp: mul_op_def)
  with assms have "returns (\<lambda>n p. Option.bind (parse_factor n l p) (term_loop n)) p"
    by (intro returns_bind) auto
  then show ?thesis by (rule returns_step) auto
qed

lemma simple_returns:
  assumes "\<And>l q. todo q \<le> k \<Longrightarrow> returns (\<lambda>n. parse_factor n l) q" and p: "todo p \<le> k"
  shows "returns (\<lambda>n. parse_simple_expression n l) p"
proof -
  have t: "returns (\<lambda>n. parse_term n l) q" if "todo q \<le> k" for l q using term_returns [OF assms(1) that] .
  have loop: "returns sum_loop q" if "todo q \<le> k" for q
    using t by (intro loop_returns [where operand = "\<lambda>n. parse_term n False" and opr = sum_op, OF _ _ _ that])
      (auto simp: sum_op_def)
  let ?q = "if ptok p = sPLUS \<or> ptok p = sMINUS then get p else p"
  have q: "todo ?q \<le> todo p" using todo_get(1) by simp
  with p t loop have "returns (\<lambda>n p. Option.bind (parse_term n l p) (sum_loop n)) ?q"
    by (intro returns_bind) auto
  from returns_map [OF this, of "\<lambda>r. if ptok p = sMINUS then interp_add OpNeg r else r"] q show ?thesis
    by (intro returns_step [where f = "\<lambda>n. parse_simple_expression n l" and p = p]) (auto simp: Let_def)
qed

lemma relation_returns:
  assumes "\<And>l q. todo q \<le> k \<Longrightarrow> returns (\<lambda>n. parse_factor n l) q" and p: "todo p \<le> k"
  shows "returns (\<lambda>n. parse_expression n l) p"
proof -
  have s: "returns (\<lambda>n. parse_simple_expression n l) q" if "todo q \<le> k" for l q using simple_returns [OF assms(1) that] .
  have "returns (\<lambda>n q. case rel_op (ptok q) of
         Some x \<Rightarrow> map_option (interp_add x) (parse_simple_expression n False (get q))
       | None \<Rightarrow> Some q) q" if q: "todo q \<le> todo p" for q
  proof (cases "rel_op (ptok q)")
    case None
    then show ?thesis by (intro returns_one [where q = q]) simp_all
  next
    case (Some x)
    have "todo (get q) \<le> k" using q p todo_get(1) [of q] by linarith
    from returns_map [OF s [OF this], of "interp_add x"] Some todo_get(1) [of q] show ?thesis
      unfolding returns_def by (auto intro: order_trans)
  qed
  from returns_bind [OF s [OF p] this] show ?thesis by (rule returns_step) auto
qed

lemma returns_below: "returns_below k"
proof (induction k rule: less_induct)
  case (less k)
  show ?case unfolding returns_below_def
  proof (intro allI impI)
    fix l p assume p: "todo p < k"
    have f: "returns (\<lambda>n. parse_factor n l) q" if "todo q \<le> todo p" for l q
      using factor_returns [OF less [OF p] that] .
    then show "returns (\<lambda>n. parse_factor n l) p \<and> returns (\<lambda>n. parse_expression n l) p"
      using relation_returns [of "todo p" p l] by auto
  qed
qed

lemma expression_returns: "returns (\<lambda>n. parse_expression n l) p"
  using returns_below [of "Suc (todo p)"] by (auto simp: returns_below_def)

subsection \<open>Lists and instructions\<close>

lemma runs_expression: "\<exists>q. runs (\<lambda>n. parse_expression n l p) q \<and> todo q \<le> todo p"
  using expression_returns unfolding returns_def .

definition list_returns :: "parse \<Rightarrow> bool" where
  "list_returns p \<longleftrightarrow> (\<forall>c. \<exists>c' q. runs (\<lambda>n. list_loop n c p) (c', q) \<and> todo q \<le> todo p)"

lemma list_item_returns:
  assumes "\<And>q. todo q \<le> todo (if ptok p = sCOMMA then get p else p) \<Longrightarrow> ptok q = sCOMMA \<Longrightarrow> list_returns q"
  shows "list_returns p"
  unfolding list_returns_def
proof
  fix c
  let ?p = "if ptok p = sCOMMA then get p else p"
  have p: "todo ?p \<le> todo p" using todo_get(1) by simp
  show "\<exists>c' q. runs (\<lambda>n. list_loop n c p) (c', q) \<and> todo q \<le> todo p"
  proof (cases "ptok ?p = sSTATESEP")
    case True
    then have "list_loop (Suc n) c p = Some (c, ?p)" for n by (simp add: Let_def)
    with p show ?thesis
      by (intro exI [of _ c] exI [of _ ?p] conjI runs_step [where f = "\<lambda>n. list_loop n c p" and g = "\<lambda>n. Some (c, ?p)"])
        simp_all
  next
    case False
    then have step: "list_loop (Suc n) c p = Option.bind (parse_expression n False ?p) (\<lambda>p.
        if ptok p = sCOMMA then list_loop n (c + 1) p else Some (c + 1, p))" for n
      by (simp add: Let_def)
    from runs_expression [of False ?p] obtain q where q: "runs (\<lambda>n. parse_expression n False ?p) q" "todo q \<le> todo ?p"
      by blast
    have "\<exists>c' r. runs (\<lambda>n. if ptok q = sCOMMA then list_loop n (c + 1) q else Some (c + 1, q)) (c', r) \<and> todo r \<le> todo q"
    proof (cases "ptok q = sCOMMA")
      case True
      then show ?thesis using assms [OF q(2)] by (simp add: list_returns_def)
    next
      case False
      then show ?thesis by (intro exI [of _ "c + 1"] exI [of _ q]) simp
    qed
    then obtain c' r where r: "runs (\<lambda>n. if ptok q = sCOMMA then list_loop n (c + 1) q else Some (c + 1, q)) (c', r)"
      "todo r \<le> todo q" by blast
    from runs_bind [where g = "\<lambda>p n. if ptok p = sCOMMA then list_loop n (c + 1) p else Some (c + 1, p)", OF q(1) r(1)]
    have "runs (\<lambda>n. list_loop n c p) (c', r)" by (rule runs_step [where f = "\<lambda>n. list_loop n c p", OF step])
    with r(2) q(2) p show ?thesis by (intro exI conjI) (assumption, linarith)
  qed
qed

lemma list_from_comma: "ptok q = sCOMMA \<Longrightarrow> list_returns q"
proof (induction q rule: measure_induct_rule [of todo])
  case (less q)
  have lt: "todo (get q) < todo q" using todo_get(2) [of q] less.prems by simp
  show ?case
  proof (rule list_item_returns)
    fix r assume "todo r \<le> todo (if ptok q = sCOMMA then get q else q)" and c: "ptok r = sCOMMA"
    then have "todo r < todo q" using lt less.prems by simp
    from less.IH [OF this c] show "list_returns r" .
  qed
qed

lemma list_returns: "list_returns p"
  by (rule list_item_returns, erule list_from_comma)

lemma counted_returns: "returns (\<lambda>n. counted n mk) p"
proof -
  let ?h = "\<lambda>(c, p). if 0 < sint c then add_object mk (int_object (scast c)) p else p"
  from list_returns [of p] obtain c q where q: "runs (\<lambda>n. list_loop n 0 p) (c, q)" "todo q \<le> todo p"
    unfolding list_returns_def by blast
  have "runs (\<lambda>n. counted n mk p) (?h (c, q))"
    unfolding counted_def parse_list_def by (rule runs_map [OF q(1), of ?h])
  moreover have "todo (?h (c, q)) = todo q" by simp
  ultimately show ?thesis unfolding returns_def using q(2) by (intro exI [of _ "?h (c, q)"]) simp
qed

lemma todo_end_instr [simp]: "todo (end_instr i m md p) = todo p"
  by (simp add: end_instr_def)

lemma returns_value: "todo (h p) \<le> todo p \<Longrightarrow> returns (\<lambda>n p. Some (h p)) p"
  unfolding returns_def by (rule exI [of _ "h p"]) simp

lemma returns_same: "(\<And>n. f n p = g n q) \<Longrightarrow> returns g q \<Longrightarrow> todo q \<le> todo p \<Longrightarrow> returns f p"
  unfolding returns_def by (auto intro: order_trans)

lemma todo_get_le: "todo p \<le> k \<Longrightarrow> todo (get p) \<le> k"
  using todo_get(1) [of p] by linarith

lemma todo_end_get: "todo (end_instr i m md (get p)) \<le> todo p"
  by (simp add: todo_get(1))

lemma hash_returns: "returns (\<lambda>n. parse_hash n i md) p"
proof -
  have "returns (\<lambda>n q. if ptok q = sCOMMA then
         (let p = get q; p = (if ptok p = sHASH then get p else p)
          in map_option (add_instr i BlockMove md) (parse_expression n False p))
       else Some (add_instr i Immediate md q)) q" for q
  proof (cases "ptok q = sCOMMA")
    case True
    let ?q = "if ptok (get q) = sHASH then get (get q) else get q"
    have r: "returns (\<lambda>n q. map_option (add_instr i BlockMove md) (parse_expression n False q)) ?q"
      by (intro returns_map expression_returns) simp
    show ?thesis by (rule returns_same [OF _ r]) (use True in \<open>simp_all add: Let_def todo_get_le\<close>)
  next
    case False
    then show ?thesis unfolding returns_def by (intro exI [of _ "add_instr i Immediate md q"]) simp
  qed
  from returns_bind [OF expression_returns this]
  show ?thesis by (rule returns_same [rotated]) (simp_all add: parse_hash_def todo_get(1))
qed

lemma returns_operand:
  "(\<And>q. todo (h p q) \<le> todo q) \<Longrightarrow> returns (\<lambda>n p. map_option (h p) (parse_expression n l (get p))) p"
  using returns_map [OF expression_returns, of "h p" l "get p"] todo_get(1) [of p]
  unfolding returns_def by (auto intro: order_trans)

lemma bracket_returns: "returns (\<lambda>n. parse_bracket n i md) p"
  unfolding parse_bracket_def by (rule returns_operand) (simp add: bracket_end_def Let_def todo_get_le)

lemma plain_returns: "returns (\<lambda>n. parse_plain n i md l) p"
proof -
  let ?three = "\<lambda>n p. if ptok p = sSTATESEP then Some (add_instr i BlockMove md p)
      else if ptok p = sCOMMA then map_option (end_instr i BitAbsoluteRelative md) (parse_expression n False (get p))
      else Some p"
  let ?two = "\<lambda>n p. if ptok p = sREGX then Some (end_instr i AbsoluteIndexedX md (get p))
      else if ptok p = sREGY then Some (end_instr i AbsoluteIndexedY md (get p))
      else if ptok p = sREGS then Some (end_instr i StackRelative md (get p))
      else Option.bind (parse_expression n False p) (?three n)"
  let ?one = "\<lambda>n p. if ptok p = sSTATESEP then Some (add_instr i Absolute md p)
      else if ptok p = sCOMMA then ?two n (get p) else Some p"
  have three: "returns ?three q" for q
    using returns_operand [of "\<lambda>_. end_instr i BitAbsoluteRelative md" q False]
      returns_value [of "add_instr i BlockMove md" q] returns_value [of "\<lambda>q. q" q]
    by (cases "ptok q = sSTATESEP"; cases "ptok q = sCOMMA") (simp_all add: returns_def)
  have two: "returns ?two q" for q
    using returns_bind [OF expression_returns [of False q] three] todo_end_get [of i _ md q]
      returns_value [of "\<lambda>q. end_instr i AbsoluteIndexedX md (get q)" q]
      returns_value [of "\<lambda>q. end_instr i AbsoluteIndexedY md (get q)" q]
      returns_value [of "\<lambda>q. end_instr i StackRelative md (get q)" q]
    by (cases "ptok q = sREGX"; cases "ptok q = sREGY"; cases "ptok q = sREGS") (simp_all add: returns_def)
  have one: "returns ?one q" for q
    using two [of "get q"] todo_get(1) [of q]
      returns_value [of "add_instr i Absolute md" q] returns_value [of "\<lambda>q. q" q]
    by (cases "ptok q = sSTATESEP"; cases "ptok q = sCOMMA") (auto simp: returns_def intro: order_trans)
  from returns_bind [OF expression_returns one] show ?thesis
    unfolding parse_plain_def Let_def .
qed

lemma instr_returns: "returns parse_instr p"
proof -
  let ?i = "ptok p"
  obtain md l q where q: "instr_modifier (get p) = (md, l, q)" by (cases "instr_modifier (get p)")
  then have le: "todo q \<le> todo p"
    by (auto simp: instr_modifier_def Let_def todo_get_le split: if_splits option.splits)
  let ?g = "\<lambda>n p. if ptok p = sHASH then parse_hash n ?i md p
         else if ptok p = sREGA then Some (add_instr ?i Accumulator md (get p))
         else if ptok p = sSTATESEP then Some (add_instr ?i Implied md p)
         else if ptok p = sLSQ \<or> ptok p = sLPAREN then parse_bracket n ?i md p
         else parse_plain n ?i md l p"
  have "returns ?g q"
    using hash_returns [of ?i md q] bracket_returns [of ?i md q] plain_returns [of ?i md l q]
      returns_value [of "\<lambda>p. add_instr ?i Accumulator md (get p)" q] returns_value [of "add_instr ?i Implied md" q]
      todo_get(1) [of q]
    by (cases "ptok q = sHASH"; cases "ptok q = sREGA"; cases "ptok q = sSTATESEP"; cases "ptok q = sLSQ \<or> ptok q = sLPAREN")
      (simp_all add: returns_def)
  then show ?thesis by (rule returns_same [rotated]) (simp_all add: parse_instr_def q le)
qed

text \<open>
  C24. Expressions, lists and instructions come to an end on every input: there is a fuel with which,
  and with any more, the function returns the same state, in which no more of the source is left
  than before.
\<close>

theorem instructions_return:
  "(\<exists>N q. (\<forall>n \<ge> N. parse_expression n l p = Some q) \<and> left (scan q) \<le> left (scan p)) \<and>
   (\<exists>N q. (\<forall>n \<ge> N. parse_instr n p = Some q) \<and> left (scan q) \<le> left (scan p)) \<and>
   (\<exists>N q. (\<forall>n \<ge> N. parse_data n md p = Some q) \<and> left (scan q) \<le> left (scan p))"
proof -
  have le: "todo q \<le> todo p \<Longrightarrow> left (scan q) \<le> left (scan p)" for q p
    by (auto simp: todo_def split: if_splits)
  have *: "\<exists>N q. (\<forall>n \<ge> N. f n p = Some q) \<and> left (scan q) \<le> left (scan p)" if "returns f p" for f
    using that le unfolding returns_def runs_def by blast
  show ?thesis
    using * [OF expression_returns] * [OF instr_returns] * [OF counted_returns, of "data_op md"]
    unfolding parse_data_def by blast
qed

lemma instructions_return_witness:
  "\<exists>N q. \<forall>n \<ge> N. parse_instr n (parse_start ''lda (1,(2'') = Some q"
  using instructions_return [of False "parse_start ''lda (1,(2''" MNone] by blast

subsection \<open>What does not return\<close>

lemma stuck_file:
  assumes "\<And>n. parse_statement (Suc n) p = Some p" "ptok p \<noteq> sEOF" "ptok p \<noteq> sEND"
  shows "parse_asm_file n p = None"
proof (induction n)
  case (Suc n)
  then show ?case using assms by (cases n) simp_all
qed simp

lemma stuck_block:
  assumes "\<And>n. parse_statement (Suc n) p = Some p" "ptok p \<noteq> sBLOCKEND"
  shows "parse_block n p = None"
proof (induction n)
  case (Suc n)
  then show ?case using assms by (cases n) simp_all
qed simp

lemma no_words:
  "\<not> is_instr sWHILE \<and> \<not> is_directive sWHILE \<and> \<not> is_instr sREPEAT \<and> \<not> is_directive sREPEAT \<and>
   \<not> is_instr sEOF \<and> \<not> is_directive sEOF \<and> \<not> is_word sINTEGER"
  by code_simp

text \<open>
  C29. Three inputs on which the parser runs forever: a source file where a \<open>while\<close> or \<open>repeat\<close>
  begins a statement, a block whose end is missing, and a procedure signature with a number for a
  type.
\<close>

theorem parser_hangs:
  "(ptok p \<in> {sWHILE, sREPEAT} \<longrightarrow> (\<forall>n. parse_asm_file n p = None)) \<and>
   (ptok p = sEOF \<longrightarrow> (\<forall>n. parse_block n p = None)) \<and>
   (ptok p = sINTEGER \<longrightarrow> (\<forall>n ps. proc_params n ps p = None))"
proof (intro conjI impI allI)
  show "parse_asm_file n p = None" if "ptok p \<in> {sWHILE, sREPEAT}" for n
    using that no_words by (intro stuck_file) (auto simp: is_macro_def)
  show "parse_block n p = None" if "ptok p = sEOF" for n
    using that no_words by (intro stuck_block) (auto simp: is_macro_def)
  show "proc_params n ps p = None" if "ptok p = sINTEGER" for n ps
    using that no_words by (induction n) (auto simp: Let_def)
qed

lemma parser_hangs_witness:
  "(\<forall>n. parse_asm_file n (parse_start ''while x'') = None) \<and> (\<forall>n. parse_block n (parse_start '''') = None) \<and>
   (\<forall>n ps. proc_params n ps (parse_start ''3)'') = None)"
proof -
  have "ptok (parse_start ''while x'') = sWHILE \<and> ptok (parse_start '''') = sEOF \<and> ptok (parse_start ''3)'') = sINTEGER"
    by code_simp
  then show ?thesis by (simp add: parser_hangs)
qed

end
