(* ===== verification/Programs.thy ===== *)
theory Programs
  imports Evaluation
begin

text \<open>
  What the parser makes of instructions and whole programs: their printed form is read as exactly
  the operations of their statements.
\<close>

subsection \<open>Operands\<close>

datatype operand =
    NoOperand | AccOperand | ImmOperand expr | ImmPair expr expr
  | Mem expr | MemX expr | MemY expr | MemS expr | MemPair expr expr | MemTriple expr expr expr
  | Ind expr | IndX expr | IndPostX expr | IndY expr | IndLong expr | IndLongX expr | IndLongY expr | IndSY expr

definition paren :: "symbol \<Rightarrow> token list \<Rightarrow> symbol \<Rightarrow> token list" where
  "paren a ts b = Sym a # ts @ [Sym b]"

fun show_operand :: "operand \<Rightarrow> token list" where
  "show_operand NoOperand = []"
| "show_operand AccOperand = [Sym sREGA]"
| "show_operand (ImmOperand e) = Sym sHASH # show_at 0 e"
| "show_operand (ImmPair e f) = Sym sHASH # show_at 0 e @ Sym sCOMMA # Sym sHASH # show_at 0 f"
| "show_operand (Mem e) = show_at 0 e"
| "show_operand (MemX e) = show_at 0 e @ [Sym sCOMMA, Sym sREGX]"
| "show_operand (MemY e) = show_at 0 e @ [Sym sCOMMA, Sym sREGY]"
| "show_operand (MemS e) = show_at 0 e @ [Sym sCOMMA, Sym sREGS]"
| "show_operand (MemPair e f) = show_at 0 e @ Sym sCOMMA # show_at 0 f"
| "show_operand (MemTriple e f g) = show_at 0 e @ Sym sCOMMA # show_at 0 f @ Sym sCOMMA # show_at 0 g"
| "show_operand (Ind e) = Sym sLPAREN # show_at 0 e @ [Sym sRPAREN]"
| "show_operand (IndX e) = Sym sLPAREN # show_at 0 e @ [Sym sCOMMA, Sym sREGX, Sym sRPAREN]"
| "show_operand (IndPostX e) = Sym sLPAREN # show_at 0 e @ [Sym sRPAREN, Sym sCOMMA, Sym sREGX]"
| "show_operand (IndY e) = Sym sLPAREN # show_at 0 e @ [Sym sRPAREN, Sym sCOMMA, Sym sREGY]"
| "show_operand (IndLong e) = Sym sLSQ # show_at 0 e @ [Sym sRSQ]"
| "show_operand (IndLongX e) = Sym sLSQ # show_at 0 e @ [Sym sCOMMA, Sym sREGX, Sym sRSQ]"
| "show_operand (IndLongY e) = Sym sLSQ # show_at 0 e @ [Sym sRSQ, Sym sCOMMA, Sym sREGY]"
| "show_operand (IndSY e) =
     Sym sLPAREN # show_at 0 e @ [Sym sCOMMA, Sym sREGS, Sym sRPAREN, Sym sCOMMA, Sym sREGY]"

fun operand_mode :: "operand \<Rightarrow> addr_mode" where
  "operand_mode NoOperand = Implied"
| "operand_mode AccOperand = Accumulator"
| "operand_mode (ImmOperand e) = Immediate"
| "operand_mode (ImmPair e f) = BlockMove"
| "operand_mode (Mem e) = Absolute"
| "operand_mode (MemX e) = AbsoluteIndexedX"
| "operand_mode (MemY e) = AbsoluteIndexedY"
| "operand_mode (MemS e) = StackRelative"
| "operand_mode (MemPair e f) = BlockMove"
| "operand_mode (MemTriple e f g) = BitAbsoluteRelative"
| "operand_mode (Ind e) = AbsoluteIndirect"
| "operand_mode (IndX e) = AbsoluteIndexedIndirect"
| "operand_mode (IndPostX e) = DirectPageIndexedIndirectX"
| "operand_mode (IndY e) = DirectPageIndirectIndexedY"
| "operand_mode (IndLong e) = AbsoluteIndirectLong"
| "operand_mode (IndLongX e) = AbsoluteIndexedIndirect"
| "operand_mode (IndLongY e) = DirectPageIndirectLongIndexedY"
| "operand_mode (IndSY e) = StackRelativeIndirectIndexedY"

fun operand_exprs :: "operand \<Rightarrow> expr list" where
  "operand_exprs NoOperand = []"
| "operand_exprs AccOperand = []"
| "operand_exprs (ImmPair e f) = [e, f]"
| "operand_exprs (MemPair e f) = [e, f]"
| "operand_exprs (MemTriple e f g) = [e, f, g]"
| "operand_exprs (ImmOperand e) = [e]"
| "operand_exprs (Mem e) = [e]"
| "operand_exprs (MemX e) = [e]"
| "operand_exprs (MemY e) = [e]"
| "operand_exprs (MemS e) = [e]"
| "operand_exprs (Ind e) = [e]"
| "operand_exprs (IndX e) = [e]"
| "operand_exprs (IndPostX e) = [e]"
| "operand_exprs (IndY e) = [e]"
| "operand_exprs (IndLong e) = [e]"
| "operand_exprs (IndLongX e) = [e]"
| "operand_exprs (IndLongY e) = [e]"
| "operand_exprs (IndSY e) = [e]"

text \<open>
  An operand that is not in brackets must not begin with one: the parser takes it for the address of
  an indirect operand.
\<close>

definition bare :: "expr \<Rightarrow> bool" where
  "bare e \<longleftrightarrow> hd (show_at 0 e) \<noteq> Sym sLPAREN"

definition is_mem :: "operand \<Rightarrow> bool" where
  "is_mem x \<longleftrightarrow> (case x of Mem e \<Rightarrow> True | MemX e \<Rightarrow> True | MemY e \<Rightarrow> True | MemS e \<Rightarrow> True
     | MemPair e f \<Rightarrow> True | MemTriple e f g \<Rightarrow> True | _ \<Rightarrow> False)"

definition operand_ok :: "operand \<Rightarrow> bool" where
  "operand_ok x \<longleftrightarrow> list_all wf (operand_exprs x) \<and> (is_mem x \<longrightarrow> bare (hd (operand_exprs x)))"

definition gen_exprs :: "expr list \<Rightarrow> parse \<Rightarrow> parse" where
  "gen_exprs es p = fold gen_expr es p"

lemma gen_exprs_simps [simp]:
  "gen_exprs [] p = p" "gen_exprs (e # es) p = gen_exprs es (gen_expr e p)"
  "scan (gen_exprs es p) = scan p" "adv k (gen_exprs es p) = gen_exprs es (adv k p)"
proof -
  show "scan (gen_exprs es p) = scan p" by (induction es arbitrary: p) (simp_all add: gen_exprs_def)
  show "adv k (gen_exprs es p) = gen_exprs es (adv k p)"
    by (induction es arbitrary: p) (simp_all add: gen_exprs_def)
qed (simp_all add: gen_exprs_def)

subsection \<open>Reading an operand\<close>

lemma read_expr:
  assumes "wf e" "feeds (show_at 0 e @ Sym t # rest) (scan p)" "ends_expr t"
  shows "runs (\<lambda>n. parse_expression n False p) (after 0 e p)" "feeds (Sym t # rest) (scan (after 0 e p))"
  using expression_runs [OF assms] assms(2)
  by (simp_all add: runs_def after_def feeds_append)

lemma ends_expr_tokens [simp]:
  "ends_expr sSTATESEP" "ends_expr sCOMMA" "ends_expr sRPAREN" "ends_expr sRSQ" "ends_expr sBLOCKSTART"
  by (simp_all add: ends_expr_def mul_op_def sum_op_def rel_op_def)

lemma feeds_get: "feeds (t # ts) (scan p) \<longleftrightarrow> is_tok t (scan p) \<and> feeds ts (scan (get p))"
  by (simp add: get_def)

lemma first_of_expr:
  "wf e \<Longrightarrow> \<exists>x xs. show_at l e = x # xs \<and>
     (x = Sym sLPAREN \<or> x = Sym sMINUS \<or> (\<exists>v. x = IntTok v) \<or> (\<exists>v. x = Name v) \<or> (\<exists>t. x = Sym t \<and> prefix_op t \<noteq> None))"
proof (induction e arbitrary: l)
  case (Mul t a b)
  from Mul.IH(1) [of 3] Mul.prems show ?case by (auto simp: show_at_def [of l] wrap_def [of l] simp flip: show_at_def)
next
  case (Sum t a b)
  from Sum.IH(1) [of 2] Sum.prems show ?case by (auto simp: show_at_def [of l] wrap_def [of l] simp flip: show_at_def)
next
  case (Rel t a b)
  from Rel.IH(1) [of 1] Rel.prems show ?case by (auto simp: show_at_def [of l] wrap_def [of l] simp flip: show_at_def)
qed (auto simp: show_at_def wrap_def)

text \<open>The token a bare expression begins with is not one that begins another form.\<close>

lemma bare_token:
  assumes "wf e" "feeds (show_at 0 e @ ts) (scan p)"
  shows "ptok p \<notin> {sHASH, sREGA, sREGX, sREGY, sREGS, sSTATESEP, sLSQ, sPERIOD, sCOMMA, sBLOCKSTART}"
    "bare e \<Longrightarrow> ptok p \<noteq> sLPAREN"
proof -
  from first_of_expr [OF assms(1), of 0] obtain x xs where x: "show_at 0 e = x # xs"
    "x = Sym sLPAREN \<or> x = Sym sMINUS \<or> (\<exists>v. x = IntTok v) \<or> (\<exists>v. x = Name v) \<or> (\<exists>t. x = Sym t \<and> prefix_op t \<noteq> None)"
    by blast
  have tok: "is_tok x (scan p)" using assms(2) x(1) by simp
  show "ptok p \<notin> {sHASH, sREGA, sREGX, sREGY, sREGS, sSTATESEP, sLSQ, sPERIOD, sCOMMA, sBLOCKSTART}"
    using tok x(2) by (auto simp: ptok_def prefix_op_def split: if_splits)
  show "ptok p \<noteq> sLPAREN" if "bare e"
    using that tok x by (auto simp: ptok_def bare_def prefix_op_def split: if_splits)
qed

lemma runs_Some_iff: "runs (\<lambda>n. Some x) r \<longleftrightarrow> x = r"
  by (auto simp: runs_def)

lemmas reading = after_def get_adv add_instr_def

lemma feeds_Sym: "feeds (Sym t # ts) (scan p) \<longleftrightarrow> ptok p = t \<and> feeds ts (scan (get p))"
  by (simp add: ptok_def get_def)

text \<open>An expression and the tokens after it, one by one.\<close>

lemma tokens_after:
  assumes "wf e" "feeds (show_at 0 e @ Sym t # ts) (scan p)" "ends_expr t"
  shows "runs (\<lambda>n. parse_expression n False p) (after 0 e p)" "ptok (after 0 e p) = t"
    "feeds ts (scan (get (after 0 e p)))"
proof -
  note r = read_expr [OF assms]
  show "runs (\<lambda>n. parse_expression n False p) (after 0 e p)" by (rule r(1))
  show "ptok (after 0 e p) = t" "feeds ts (scan (get (after 0 e p)))" using r(2) unfolding feeds_Sym by auto
qed

text \<open>What the parser does with one expression and no other: a function of the state behind it.\<close>

lemma operand_one:
  assumes "wf e" "feeds (show_at 0 e @ Sym t # ts) (scan p)" "ends_expr t" "h (after 0 e p) = r"
  shows "runs (\<lambda>n. map_option h (parse_expression n False p)) r"
  using runs_map [OF tokens_after(1) [OF assms(1-3)], of h] assms(4) by simp

lemma operand_more:
  assumes "wf e" "feeds (show_at 0 e @ Sym t # ts) (scan p)" "ends_expr t" "runs (g (after 0 e p)) r"
  shows "runs (\<lambda>n. Option.bind (parse_expression n False p) (\<lambda>y. g y n)) r"
  using runs_bind [where g = g, OF tokens_after(1) [OF assms(1-3)] assms(4)] .

lemma operand_plain:
  assumes "is_mem x" "operand_ok x" "feeds (show_operand x @ Sym sSTATESEP # rest) (scan p)"
  shows "runs (\<lambda>n. parse_plain n i md False p)
    (add_instr i (operand_mode x) md (gen_exprs (operand_exprs x) (adv (length (show_operand x)) p)))"
proof (cases x)
  case (Mem e)
  have a: "wf e" "feeds (show_at 0 e @ Sym sSTATESEP # rest) (scan p)"
    using assms by (simp_all add: Mem operand_ok_def)
  note t = tokens_after(2,3) [OF a]
  show ?thesis unfolding parse_plain_def Let_def
    by (rule operand_more [OF a]) (simp_all add: t runs_Some_iff Mem, simp add: reading)
next
  case (MemX e)
  have a: "wf e" "feeds (show_at 0 e @ Sym sCOMMA # Sym sREGX # Sym sSTATESEP # rest) (scan p)"
    using assms by (simp_all add: MemX operand_ok_def)
  note t = tokens_after(2,3) [OF a, unfolded feeds_Sym]
  show ?thesis unfolding parse_plain_def Let_def
    by (rule operand_more [OF a]) (simp_all add: t runs_Some_iff end_instr_def MemX, simp add: reading)
next
  case (MemY e)
  have a: "wf e" "feeds (show_at 0 e @ Sym sCOMMA # Sym sREGY # Sym sSTATESEP # rest) (scan p)"
    using assms by (simp_all add: MemY operand_ok_def)
  note t = tokens_after(2,3) [OF a, unfolded feeds_Sym]
  show ?thesis unfolding parse_plain_def Let_def
    by (rule operand_more [OF a]) (simp_all add: t runs_Some_iff end_instr_def MemY, simp add: reading)
next
  case (MemS e)
  have a: "wf e" "feeds (show_at 0 e @ Sym sCOMMA # Sym sREGS # Sym sSTATESEP # rest) (scan p)"
    using assms by (simp_all add: MemS operand_ok_def)
  note t = tokens_after(2,3) [OF a, unfolded feeds_Sym]
  show ?thesis unfolding parse_plain_def Let_def
    by (rule operand_more [OF a]) (simp_all add: t runs_Some_iff end_instr_def MemS, simp add: reading)
next
  case (MemPair e f)
  let ?q = "get (after 0 e p)"
  have a: "wf e" "feeds (show_at 0 e @ Sym sCOMMA # show_at 0 f @ Sym sSTATESEP # rest) (scan p)" and f: "wf f"
    using assms by (simp_all add: MemPair operand_ok_def)
  note t = tokens_after(2,3) [OF a ends_expr_tokens(2)]
  note u = tokens_after(2,3) [OF f t(2) ends_expr_tokens(1), unfolded feeds_Sym]
  have "runs (\<lambda>n. Option.bind (parse_expression n False ?q) (\<lambda>p. if ptok p = sSTATESEP then Some (add_instr i BlockMove md p)
        else if ptok p = sCOMMA then map_option (end_instr i BitAbsoluteRelative md) (parse_expression n False (get p))
        else Some p)) (add_instr i BlockMove md (after 0 f ?q))"
    by (rule operand_more [OF f t(2)]) (simp_all add: u)
  then show ?thesis unfolding parse_plain_def Let_def using bare_token [OF f t(2)]
    by (intro operand_more [OF a]) (simp_all add: t MemPair, simp add: reading add.commute)
next
  case (MemTriple e f g)
  let ?q = "get (after 0 e p)"
  let ?r = "get (after 0 f ?q)"
  have a: "wf e" "feeds (show_at 0 e @ Sym sCOMMA # show_at 0 f @ Sym sCOMMA # show_at 0 g @ Sym sSTATESEP # rest) (scan p)"
    and f: "wf f" and g: "wf g"
    using assms by (simp_all add: MemTriple operand_ok_def)
  note t = tokens_after(2,3) [OF a ends_expr_tokens(2)]
  note u = tokens_after(2,3) [OF f t(2) ends_expr_tokens(2)]
  note v = tokens_after(2,3) [OF g u(2) ends_expr_tokens(1), unfolded feeds_Sym]
  have "runs (\<lambda>n. map_option (end_instr i BitAbsoluteRelative md) (parse_expression n False ?r))
      (add_instr i BitAbsoluteRelative md (after 0 g ?r))"
    by (rule operand_one [OF g u(2)]) (simp_all add: v end_instr_def)
  then have "runs (\<lambda>n. Option.bind (parse_expression n False ?q) (\<lambda>p. if ptok p = sSTATESEP then Some (add_instr i BlockMove md p)
        else if ptok p = sCOMMA then map_option (end_instr i BitAbsoluteRelative md) (parse_expression n False (get p))
        else Some p)) (add_instr i BitAbsoluteRelative md (after 0 g ?r))"
    by (intro operand_more [OF f t(2)]) (simp_all add: u)
  then show ?thesis unfolding parse_plain_def Let_def using bare_token [OF f t(2)]
    by (intro operand_more [OF a]) (simp_all add: t MemTriple, simp add: reading add.commute add.left_commute)
qed (use assms in \<open>simp_all add: is_mem_def\<close>)

text \<open>The bracketed operands: an opening bracket, the expression, and what \<open>bracket_end\<close> reads.\<close>

lemma bracket_runs:
  assumes "wf e" "feeds (Sym b # show_at 0 e @ Sym t # ts @ Sym sSTATESEP # rest) (scan p)" "ends_expr t"
    and h: "\<And>q. feeds (Sym t # ts @ Sym sSTATESEP # rest) (scan q) \<Longrightarrow>
      bracket_end i md (b = sLSQ) q = add_instr i m md (adv (length (Sym t # ts)) q)"
  shows "runs (\<lambda>n. parse_bracket n i md p) (add_instr i m md (gen_expr e (adv (length (Sym b # show_at 0 e @ Sym t # ts)) p)))"
proof -
  from assms(2) have b: "ptok p = b" and f: "feeds (show_at 0 e @ Sym t # ts @ Sym sSTATESEP # rest) (scan (get p))"
    by (simp_all add: feeds_Sym del: feeds.simps)
  from h [OF read_expr(2) [OF assms(1) f assms(3)]]
  show ?thesis unfolding parse_bracket_def b
    by (intro operand_one [OF assms(1) f assms(3)]) (simp add: reading add.commute)
qed

lemma operand_bracket_at:
  assumes "operand_ok x" "feeds (show_operand x @ Sym sSTATESEP # rest) (scan p)"
    and s: "show_operand x = Sym b # show_at 0 e @ Sym t # ts" "operand_exprs x = [e]" "ends_expr t"
    and h: "\<And>q. feeds (Sym t # ts @ Sym sSTATESEP # rest) (scan q) \<Longrightarrow>
      bracket_end i md (b = sLSQ) q = add_instr i (operand_mode x) md (adv (length (Sym t # ts)) q)"
  shows "runs (\<lambda>n. parse_bracket n i md p)
    (add_instr i (operand_mode x) md (gen_exprs (operand_exprs x) (adv (length (show_operand x)) p)))"
proof -
  have "wf e" using assms(1) s(2) by (simp add: operand_ok_def)
  moreover have "feeds (Sym b # show_at 0 e @ Sym t # ts @ Sym sSTATESEP # rest) (scan p)" using assms(2) s(1) by simp
  ultimately show ?thesis unfolding s gen_exprs_simps using s(3) h by (rule bracket_runs)
qed

lemma operand_bracket:
  assumes "operand_ok x" "feeds (show_operand x @ Sym sSTATESEP # rest) (scan p)" "ptok p \<in> {sLPAREN, sLSQ}" "\<not> is_mem x"
  shows "runs (\<lambda>n. parse_bracket n i md p)
    (add_instr i (operand_mode x) md (gen_exprs (operand_exprs x) (adv (length (show_operand x)) p)))"
proof -
  note h = bracket_end_def closes_def end_instr_def feeds_Sym add_instr_def get_adv Let_def
  show ?thesis
  proof (cases x)
    case (Ind e)
    show ?thesis
      by (rule operand_bracket_at [OF assms(1,2), where b = sLPAREN and e = e and t = sRPAREN and ts = "[]"])
        (simp_all add: Ind h del: feeds.simps)
  next
    case (IndX e)
    show ?thesis
      by (rule operand_bracket_at [OF assms(1,2), where b = sLPAREN and e = e and t = sCOMMA and ts = "[Sym sREGX, Sym sRPAREN]"])
        (simp_all add: IndX h del: feeds.simps)
  next
    case (IndPostX e)
    show ?thesis
      by (rule operand_bracket_at [OF assms(1,2), where b = sLPAREN and e = e and t = sRPAREN and ts = "[Sym sCOMMA, Sym sREGX]"])
        (simp_all add: IndPostX h del: feeds.simps)
  next
    case (IndY e)
    show ?thesis
      by (rule operand_bracket_at [OF assms(1,2), where b = sLPAREN and e = e and t = sRPAREN and ts = "[Sym sCOMMA, Sym sREGY]"])
        (simp_all add: IndY h del: feeds.simps)
  next
    case (IndLong e)
    show ?thesis
      by (rule operand_bracket_at [OF assms(1,2), where b = sLSQ and e = e and t = sRSQ and ts = "[]"])
        (simp_all add: IndLong h del: feeds.simps)
  next
    case (IndLongX e)
    show ?thesis
      by (rule operand_bracket_at [OF assms(1,2), where b = sLSQ and e = e and t = sCOMMA and ts = "[Sym sREGX, Sym sRSQ]"])
        (simp_all add: IndLongX h del: feeds.simps)
  next
    case (IndLongY e)
    show ?thesis
      by (rule operand_bracket_at [OF assms(1,2), where b = sLSQ and e = e and t = sRSQ and ts = "[Sym sCOMMA, Sym sREGY]"])
        (simp_all add: IndLongY h del: feeds.simps)
  next
    case (IndSY e)
    show ?thesis
      by (rule operand_bracket_at [OF assms(1,2), where b = sLPAREN and e = e and t = sCOMMA and ts = "[Sym sREGS, Sym sRPAREN, Sym sCOMMA, Sym sREGY]"])
        (simp_all add: IndSY h del: feeds.simps)
  qed (use assms in \<open>simp_all add: is_mem_def feeds_Sym del: feeds.simps\<close>)
qed

subsection \<open>Instructions\<close>

fun show_modifier :: "modifier \<Rightarrow> token list" where
  "show_modifier MByte = [Sym sPERIOD, Name ''b'']"
| "show_modifier MDirect = [Sym sPERIOD, Name ''d'']"
| "show_modifier MWord = [Sym sPERIOD, Name ''w'']"
| "show_modifier MLong = [Sym sPERIOD, Name ''l'']"
| "show_modifier _ = []"

definition modifier_ok :: "modifier \<Rightarrow> bool" where
  "modifier_ok md \<longleftrightarrow> md \<in> {MNone, MByte, MDirect, MWord, MLong}"

lemma letters: "letter_modifier CHR ''b'' = Some MByte \<and> letter_modifier CHR ''d'' = Some MDirect \<and>
    letter_modifier CHR ''w'' = Some MWord \<and> letter_modifier CHR ''l'' = Some MLong"
  by code_simp

lemma feeds_Name: "feeds (Name nm # ts) (scan p) \<longleftrightarrow> ptok p = sIDENT \<and> tok_id p = nm \<and> feeds ts (scan (get p))"
  by (auto simp: ptok_def tok_id_def get_def)

lemma instr_modifier_read:
  assumes "modifier_ok md" "feeds (show_modifier md @ ts) (scan q)" "md = MNone \<Longrightarrow> ptok q \<noteq> sPERIOD"
  shows "instr_modifier q = (md, False, adv (length (show_modifier md)) q)"
  using assms letters
  by (auto simp: modifier_ok_def instr_modifier_def Let_def feeds_Sym feeds_Name get_adv simp del: feeds.simps)

definition instr_part :: "nat \<Rightarrow> symbol \<Rightarrow> modifier \<Rightarrow> bool \<Rightarrow> parse \<Rightarrow> parse option" where
  "instr_part n i md l p =
     (if ptok p = sHASH then parse_hash n i md p
      else if ptok p = sREGA then Some (add_instr i Accumulator md (get p))
      else if ptok p = sSTATESEP then Some (add_instr i Implied md p)
      else if ptok p = sLSQ \<or> ptok p = sLPAREN then parse_bracket n i md p
      else parse_plain n i md l p)"

lemma operand_hash:
  assumes "operand_ok x" "feeds (show_operand x @ Sym sSTATESEP # rest) (scan p)" "x = ImmOperand e \<or> x = ImmPair e f"
  shows "runs (\<lambda>n. parse_hash n i md p)
    (add_instr i (operand_mode x) md (gen_exprs (operand_exprs x) (adv (length (show_operand x)) p)))"
  using assms(3)
proof
  assume x: "x = ImmOperand e"
  have a: "wf e" "feeds (show_at 0 e @ Sym sSTATESEP # rest) (scan (get p))"
    using assms(1,2) by (simp_all add: x operand_ok_def feeds_Sym del: feeds.simps)
  note t = tokens_after(2,3) [OF a]
  show ?thesis unfolding parse_hash_def Let_def
    by (rule operand_more [OF a]) (simp_all add: t x runs_Some_iff, simp add: reading)
next
  assume x: "x = ImmPair e f"
  let ?q = "get (get (after 0 e (get p)))"
  have a: "wf e" "feeds (show_at 0 e @ Sym sCOMMA # Sym sHASH # show_at 0 f @ Sym sSTATESEP # rest) (scan (get p))"
    and f: "wf f" using assms(1,2) by (simp_all add: x operand_ok_def feeds_Sym del: feeds.simps)
  note t = tokens_after(2,3) [OF a ends_expr_tokens(2), unfolded feeds_Sym [of sHASH]]
  have "runs (\<lambda>n. map_option (add_instr i BlockMove md) (parse_expression n False ?q)) (add_instr i BlockMove md (after 0 f ?q))"
    using t by (intro operand_one [OF f]) auto
  then show ?thesis unfolding parse_hash_def Let_def
    by (intro operand_more [OF a]) (simp_all add: t x, simp add: reading add.commute)
qed

lemma operand_runs:
  assumes "operand_ok x" "feeds (show_operand x @ Sym sSTATESEP # rest) (scan p)"
  shows "runs (\<lambda>n. instr_part n i md False p)
    (add_instr i (operand_mode x) md (gen_exprs (operand_exprs x) (adv (length (show_operand x)) p)))"
proof (cases "is_mem x")
  case True
  then obtain e ts where e: "show_operand x = show_at 0 e @ ts" "wf e" "bare e"
    using assms(1) by (cases x) (auto simp: operand_ok_def is_mem_def)
  then have f: "feeds (show_at 0 e @ ts @ Sym sSTATESEP # rest) (scan p)" using assms(2) by simp
  have "instr_part n i md False p = parse_plain n i md False p" for n
    using bare_token [OF e(2) f] e(3) by (simp add: instr_part_def)
  with operand_plain [OF True assms] show ?thesis by simp
next
  case False
  note s = instr_part_def feeds_Sym
  show ?thesis
  proof (cases x)
    case NoOperand
    then show ?thesis using assms by (simp add: s runs_Some_iff del: feeds.simps)
  next
    case AccOperand
    then show ?thesis using assms by (simp add: s runs_Some_iff get_adv del: feeds.simps)
  next
    case (ImmOperand e)
    then have "instr_part n i md False p = parse_hash n i md p" for n
      using assms(2) by (simp add: s del: feeds.simps)
    with operand_hash [OF assms] ImmOperand show ?thesis by simp
  next
    case (ImmPair e f)
    then have "instr_part n i md False p = parse_hash n i md p" for n
      using assms(2) by (simp add: s del: feeds.simps)
    with operand_hash [OF assms] ImmPair show ?thesis by simp
  qed (use False operand_bracket [OF assms] assms(2) in \<open>simp_all add: is_mem_def s del: feeds.simps\<close>)
qed

lemma operand_first:
  assumes "operand_ok x" "feeds (show_operand x @ Sym sSTATESEP # rest) (scan p)" shows "ptok p \<noteq> sPERIOD"
proof (cases "is_mem x")
  case True
  then obtain e ts where e: "show_operand x = show_at 0 e @ ts" "wf e"
    using assms(1) by (cases x) (auto simp: operand_ok_def is_mem_def)
  then show ?thesis using bare_token(1) [OF e(2), of "ts @ Sym sSTATESEP # rest" p] assms(2) by simp
next
  case False
  then show ?thesis using assms(2) by (cases x) (simp_all add: is_mem_def feeds_Sym del: feeds.simps)
qed

definition show_instr :: "symbol \<Rightarrow> modifier \<Rightarrow> operand \<Rightarrow> token list" where
  "show_instr i md x = Sym i # show_modifier md @ show_operand x"

definition gen_instr :: "symbol \<Rightarrow> modifier \<Rightarrow> operand \<Rightarrow> parse \<Rightarrow> parse" where
  "gen_instr i md x p = add_instr i (operand_mode x) md (gen_exprs (operand_exprs x) p)"

lemma instr_runs:
  assumes "operand_ok x" "modifier_ok md" "feeds (show_instr i md x @ Sym sSTATESEP # rest) (scan p)"
  shows "runs (\<lambda>n. parse_instr n p) (gen_instr i md x (adv (length (show_instr i md x)) p))"
proof -
  let ?m = "length (show_modifier md)"
  let ?q = "adv ?m (get p)"
  have f: "ptok p = i" "feeds (show_modifier md @ show_operand x @ Sym sSTATESEP # rest) (scan (get p))"
    using assms(3) by (simp_all add: show_instr_def feeds_Sym del: feeds.simps)
  then have g: "feeds (show_operand x @ Sym sSTATESEP # rest) (scan ?q)" by (simp add: feeds_append)
  have "md = MNone \<Longrightarrow> ptok (get p) \<noteq> sPERIOD" using operand_first [OF assms(1) g] by simp
  with f(2) have m: "instr_modifier (get p) = (md, False, ?q)" using instr_modifier_read [OF assms(2)] by blast
  have "parse_instr n p = instr_part n i md False ?q" for n
    by (simp add: parse_instr_def m f(1) instr_part_def)
  with operand_runs [OF assms(1) g] show ?thesis
    by (simp add: gen_instr_def show_instr_def get_adv add.commute)
qed

fun ops_list :: "expr list \<Rightarrow> nat \<Rightarrow> op list" where
  "ops_list [] k = []"
| "ops_list (e # es) k = ops_of e k @ ops_list es (k + length (consts_of e))"

lemma gen_exprs_appended:
  "filling i p \<Longrightarrow> gen_exprs es p = appended i (concat (map consts_of es)) (ops_list es (length (heap (asm p)))) p"
  by (induction es arbitrary: p) (simp_all add: gen_expr_appended, simp_all add: appended_def)



end
