(* ===== verification/Sources.thy ===== *)
theory Sources
  imports Programs
begin

text \<open>
  Whole source texts: the printed form of a program of labels, instructions, assignments, data and
  nested conditionals is parsed into exactly the operations of its statements.
\<close>

subsection \<open>Statements\<close>

datatype stmt =
    Blank
  | Instr symbol modifier operand
  | Label bool string
  | Assign string expr
  | Define bool string expr
  | Data symbol "expr list"
  | If expr "stmt list"
  | IfElse expr "stmt list" "stmt list"

definition list_op :: "symbol \<Rightarrow> (ptr \<Rightarrow> op) option" where
  "list_op t = map_of [(sBYTE, OpByte), (sWORD, OpWord), (sLONG, OpLong), (sFLOAT, OpFloat), (sDOUBLE, OpByte),
     (sDATA, OpByte), (sTEXT, OpText), (sFILL, OpFillByte), (sERROR, OpError), (sMESSAGE, OpMessage),
     (sTITLE, OpTitle), (sSUBHEADING, OpSubheading)] t"

definition show_name :: "bool \<Rightarrow> string \<Rightarrow> token list" where
  "show_name loc nm = (if loc then [Sym sPERIOD, Name nm] else [Name nm])"

fun show_list :: "expr list \<Rightarrow> token list" where
  "show_list [] = []"
| "show_list [e] = show_at 0 e"
| "show_list (e # es) = show_at 0 e @ Sym sCOMMA # show_list es"

fun show_stmt :: "stmt \<Rightarrow> token list"
and show_stmts :: "stmt list \<Rightarrow> token list"
where
  "show_stmt Blank = [Sym sSTATESEP]"
| "show_stmt (Instr i md x) = show_instr i md x @ [Sym sSTATESEP]"
| "show_stmt (Label loc nm) = show_name loc nm @ [Sym sCOLON, Sym sSTATESEP]"
| "show_stmt (Assign nm e) = Name nm # Sym sBECOMES # show_at 0 e @ [Sym sSTATESEP]"
| "show_stmt (Define ro nm e) = Sym (if ro then sLET else sVAR) # Name nm # Sym sBECOMES # show_at 0 e @ [Sym sSTATESEP]"
| "show_stmt (Data t es) = Sym t # show_list es @ [Sym sSTATESEP]"
| "show_stmt (If e b) = Sym sIF # show_at 0 e @ Sym sBLOCKSTART # show_stmts b @ [Sym sBLOCKEND]"
| "show_stmt (IfElse e b c) = Sym sIF # show_at 0 e @ Sym sBLOCKSTART # show_stmts b @
     Sym sBLOCKEND # Sym sELSE # Sym sBLOCKSTART # show_stmts c @ [Sym sBLOCKEND]"
| "show_stmts [] = []"
| "show_stmts (s # ss) = show_stmt s @ show_stmts ss"

fun stmt_ok :: "stmt \<Rightarrow> bool"
and stmts_ok :: "stmt list \<Rightarrow> bool"
where
  "stmt_ok Blank \<longleftrightarrow> True"
| "stmt_ok (Instr i md x) \<longleftrightarrow> is_instr i \<and> operand_ok x \<and> modifier_ok md"
| "stmt_ok (Label loc nm) \<longleftrightarrow> \<not> (loc \<and> same_nocase nm ''proc'')"
| "stmt_ok (Assign nm e) \<longleftrightarrow> wf e"
| "stmt_ok (Define ro nm e) \<longleftrightarrow> wf e"
| "stmt_ok (Data t es) \<longleftrightarrow> list_op t \<noteq> None \<and> es \<noteq> [] \<and> length es < 2 ^ 31 \<and> list_all wf es"
| "stmt_ok (If e b) \<longleftrightarrow> wf e \<and> b \<noteq> [] \<and> stmts_ok b"
| "stmt_ok (IfElse e b c) \<longleftrightarrow> wf e \<and> b \<noteq> [] \<and> stmts_ok b \<and> c \<noteq> [] \<and> stmts_ok c"
| "stmts_ok [] \<longleftrightarrow> True"
| "stmts_ok (s # ss) \<longleftrightarrow> stmt_ok s \<and> stmts_ok ss"

text \<open>The object of the name is made before the operations of the expression.\<close>

definition gen_assign :: "obj \<Rightarrow> expr \<Rightarrow> parse \<Rightarrow> parse" where
  "gen_assign x e p = (let (v, s) = alloc x (asm p) in interp_add (OpPopVar v) (gen_expr e (p\<lparr>asm := s\<rparr>)))"

fun gen_stmt :: "stmt \<Rightarrow> parse \<Rightarrow> parse"
and gen_stmts :: "stmt list \<Rightarrow> parse \<Rightarrow> parse"
where
  "gen_stmt Blank p = p"
| "gen_stmt (Instr i md x) p = gen_instr i md x p"
| "gen_stmt (Label loc nm) p = add_object OpLabel (name_object nm loc) p"
| "gen_stmt (Assign nm e) p = gen_assign (name_object nm False) e p"
| "gen_stmt (Define ro nm e) p = gen_assign ((name_object nm False)\<lparr>readonly := ro\<rparr>) e p"
| "gen_stmt (Data t es) p = add_object (the (list_op t)) (int_object (of_nat (length es))) (gen_exprs es p)"
| "gen_stmt (If e b) p = interp_add OpScopeEnd (gen_stmts b (interp_add OpIfBegin (gen_expr e p)))"
| "gen_stmt (IfElse e b c) p = interp_add OpScopeEnd (gen_stmts c (interp_add OpElseBegin
     (interp_add OpScopeEnd (gen_stmts b (interp_add OpIfBegin (gen_expr e p))))))"
| "gen_stmts [] p = p"
| "gen_stmts (s # ss) p = gen_stmts ss (gen_stmt s p)"

lemma adv_asm: "adv k (p\<lparr>asm := s\<rparr>) = (adv k p)\<lparr>asm := s\<rparr>" "asm (adv k p) = asm p"
  by (cases p, simp_all add: adv_def)

lemma gen_assign_simps [simp]: "scan (gen_assign x e p) = scan p" "adv k (gen_assign x e p) = gen_assign x e (adv k p)"
  by (simp_all add: gen_assign_def alloc_def adv_asm)

lemma gen_stmt_simps [simp]:
  "scan (gen_stmt s p) = scan p" "adv k (gen_stmt s p) = gen_stmt s (adv k p)"
  "scan (gen_stmts ss p) = scan p" "adv k (gen_stmts ss p) = gen_stmts ss (adv k p)"
  by (induction s p and ss p rule: gen_stmt_gen_stmts.induct) (simp_all add: gen_instr_def add_instr_def)

lemma ptok_gen_stmt [simp]:
  "ptok (gen_stmt s p) = ptok p" "ptok (gen_stmts ss p) = ptok p" "ptok (gen_assign x e p) = ptok p"
  by (simp_all add: ptok_def)

subsection \<open>No macros\<close>

text \<open>
  In the outermost scope, with no macro defined in it: at the start of a source file it is empty, or
  holds the built-in symbols.
\<close>

definition top_scope :: "ptr \<Rightarrow> obj list \<Rightarrow> bool" where
  "top_scope sc hp \<longleftrightarrow>
     sc < length hp \<and> parent (hp ! sc) = None \<and> map_get (desc (hp ! sc)) ''.'' = None \<and>
     list_all (\<lambda>(k, a). a < length hp \<and> omode (hp ! a) \<noteq> Macro) (entries (desc (hp ! sc)))"

definition at_top :: "parse \<Rightarrow> bool" where
  "at_top p \<longleftrightarrow> top_scope (scope (asm p)) (heap (asm p))"

lemma map_get_entry: "map_get t k = Some v \<Longrightarrow> \<exists>k'. (k', v) \<in> set (entries t)"
  by (induction t k rule: map_get.induct) (auto split: if_splits simp: Let_def)

lemma top_scope_entry:
  assumes "top_scope sc hp" "map_get (desc (hp ! sc)) k = Some a" shows "omode (hp ! a) \<noteq> Macro"
  using assms map_get_entry [OF assms(2)] by (auto simp: top_scope_def list_all_iff)

lemma at_top_no_macro:
  assumes "at_top p" shows "is_macro p = Some False"
proof -
  let ?s = "asm p"
  have "scope_find_object (tok_id p) ?s = Some (map_get (desc (deref ?s (scope ?s))) (tok_id p))"
    using assms by (auto simp: at_top_def top_scope_def scope_find_object_def deref_def Let_def split: option.split)
  moreover have "omode (deref ?s a) \<noteq> Macro" if "map_get (desc (deref ?s (scope ?s))) (tok_id p) = Some a" for a
    using top_scope_entry [OF assms [unfolded at_top_def]] that by (simp add: deref_def)
  ultimately show ?thesis by (auto simp: is_macro_def as_get_macro_def split: option.split)
qed

lemma top_scope_append: "top_scope sc hp \<Longrightarrow> top_scope sc (hp @ xs)"
  by (auto simp: top_scope_def nth_append list_all_iff)

lemma at_top_alloc: "at_top p \<Longrightarrow> at_top (p\<lparr>asm := (asm p)\<lparr>heap := heap (asm p) @ xs\<rparr>\<rparr>)"
  by (simp add: at_top_def top_scope_append)

lemma at_top_gen:
  "at_top p \<Longrightarrow> at_top (interp_add x p)" "at_top p \<Longrightarrow> at_top (add_object mk y p)"
  "at_top p \<Longrightarrow> at_top (gen_expr e p)" "at_top p \<Longrightarrow> at_top (gen_exprs es p)" "at_top p \<Longrightarrow> at_top (adv k p)"
  "at_top p \<Longrightarrow> at_top (gen_assign y e p)"
proof -
  show add: "at_top (interp_add x p)" if "at_top p" for x p
    using that by (auto simp: interp_add_def at_top_def split: option.split)
  show obj: "at_top (add_object mk y p)" if "at_top p" for mk y p
    using add [OF at_top_alloc [OF that]] by (simp add: add_object_def alloc_def)
  show e: "at_top (gen_expr e p)" if "at_top p" for e p
    using that by (induction e arbitrary: p) (simp_all add: add obj)
  show "at_top (gen_exprs es p)" if "at_top p"
    using that by (induction es arbitrary: p) (simp_all add: e)
  show "at_top (adv k p)" if "at_top p" using that by (simp add: adv_def at_top_def)
  show "at_top (gen_assign y e p)" if "at_top p"
    using add [OF e [OF at_top_alloc [OF that]]] by (simp add: gen_assign_def alloc_def)
qed

lemma at_top_stmt: "at_top p \<Longrightarrow> at_top (gen_stmt s p)" "at_top p \<Longrightarrow> at_top (gen_stmts ss p)"
  by (induction s p and ss p rule: gen_stmt_gen_stmts.induct) (simp_all add: gen_instr_def add_instr_def at_top_gen)

subsection \<open>Reading a statement\<close>

text \<open>
  A statement is read to its end, or to the end of its line; the loops read that as a statement of
  its own.
\<close>

definition stmt_runs :: "parse \<Rightarrow> parse \<Rightarrow> bool" where
  "stmt_runs p q \<longleftrightarrow> runs (\<lambda>n. parse_statement n p) q \<or>
     (\<exists>q'. runs (\<lambda>n. parse_statement n p) q' \<and> ptok q' = sSTATESEP \<and> get q' = q)"

locale statement_loop =
  fixes loop :: "nat \<Rightarrow> parse \<Rightarrow> parse option" and stop :: "symbol \<Rightarrow> bool"
  assumes loop_Suc: "loop (Suc n) p =
      Option.bind (parse_statement n p) (\<lambda>p. if stop (ptok p) then Some p else loop n p)"
    and stops: "stop t \<Longrightarrow> t \<in> {sBLOCKEND, sEOF, sEND}"
begin

lemma goes_on: "\<not> stop sSTATESEP" "\<not> stop sIDENT" "\<not> stop sINTEGER" "\<not> stop sELSE"
  using stops by fastforce+

definition rest :: "nat \<Rightarrow> parse \<Rightarrow> parse option" where
  "rest n p = (if stop (ptok p) then Some p else loop n p)"

lemma loop_statement:
  assumes "runs (\<lambda>n. parse_statement n p) q" "runs (\<lambda>n. rest n q) r"
  shows "runs (\<lambda>n. loop n p) r"
  using runs_bind [where g = "\<lambda>p n. rest n p", OF assms]
  by (intro runs_step [where f = "\<lambda>n. loop n p"]) (simp_all add: loop_Suc rest_def)

lemma loop_step:
  assumes "stmt_runs p q" "runs (\<lambda>n. rest n q) r"
  shows "runs (\<lambda>n. loop n p) r"
  using assms(1) unfolding stmt_runs_def
proof
  assume "runs (\<lambda>n. parse_statement n p) q"
  with assms(2) show ?thesis by (rule loop_statement [rotated])
next
  assume "\<exists>q'. runs (\<lambda>n. parse_statement n p) q' \<and> ptok q' = sSTATESEP \<and> get q' = q"
  then obtain q' where q: "runs (\<lambda>n. parse_statement n p) q'" "ptok q' = sSTATESEP" "get q' = q" by blast
  have "runs (\<lambda>n. parse_statement n q') q"
    by (rule runs_step [where f = "\<lambda>n. parse_statement n q'" and g = "\<lambda>n. Some q"]) (simp_all add: q)
  then have "runs (\<lambda>n. loop n q') r" using assms(2) by (rule loop_statement)
  then have "runs (\<lambda>n. rest n q') r" by (simp add: rest_def q(2) goes_on)
  with q(1) show ?thesis by (rule loop_statement)
qed

end

interpretation block: statement_loop parse_block "\<lambda>t. t = sBLOCKEND"
  by unfold_locales (auto intro: bind_option_cong)

interpretation source: statement_loop parse_asm_file "\<lambda>t. t = sEOF \<or> t = sEND"
  by unfold_locales (auto intro: bind_option_cong)

text \<open>What a statement's first token is not.\<close>

definition inner :: "token \<Rightarrow> bool" where
  "inner x \<longleftrightarrow> (\<forall>t. x = Sym t \<longrightarrow> t \<notin> {sELSE, sBLOCKEND, sEOF, sEND})"

lemma no_instr: "\<not> is_instr sELSE \<and> \<not> is_instr sBLOCKEND \<and> \<not> is_instr sEOF \<and> \<not> is_instr sEND"
  by code_simp

lemma no_separator: "\<not> is_instr sSTATESEP \<and> \<not> is_directive sSTATESEP"
  by code_simp

lemma first_of_stmt: "stmt_ok s \<Longrightarrow> \<exists>x xs. show_stmt s = x # xs \<and> inner x"
  using no_instr by (cases s) (auto simp: inner_def show_instr_def show_name_def list_op_def split: if_splits)

definition reads :: "stmt \<Rightarrow> bool" where
  "reads s \<longleftrightarrow> (\<forall>p k rest. at_top p \<longrightarrow> feeds (show_stmt s @ k # rest) (scan p) \<longrightarrow> k \<noteq> Sym sELSE \<longrightarrow>
     stmt_runs p (gen_stmt s (adv (length (show_stmt s)) p)))"

context statement_loop begin

lemma inner_goes_on: "inner x \<Longrightarrow> is_tok x (scan q) \<Longrightarrow> \<not> stop (ptok q)"
  using stops goes_on by (cases x) (auto simp: inner_def ptok_def)

lemma statements_run:
  assumes "\<forall>s\<in>set ss. reads s \<and> stmt_ok s" "ss \<noteq> []" "at_top p" "stop t"
    and "feeds (show_stmts ss @ Sym t # ts) (scan p)"
  shows "runs (\<lambda>n. loop n p) (gen_stmts ss (adv (length (show_stmts ss)) p))"
  using assms
proof (induction ss arbitrary: p)
  case (Cons s ss)
  let ?q = "gen_stmt s (adv (length (show_stmt s)) p)"
  have f: "feeds (show_stmt s @ show_stmts ss @ Sym t # ts) (scan p)" using Cons.prems(5) by simp
  then have g: "feeds (show_stmts ss @ Sym t # ts) (scan ?q)" by (simp add: feeds_append)
  have top: "at_top ?q" using Cons.prems(3) by (simp add: at_top_gen at_top_stmt)
  show ?case
  proof (cases ss)
    case Nil
    have "t \<noteq> sELSE" using Cons.prems(4) goes_on by auto
    with f Nil Cons.prems(1,3) have "stmt_runs p ?q" by (auto simp: reads_def)
    moreover have "ptok ?q = t" using g Nil by (simp add: feeds_Sym del: feeds.simps)
    ultimately show ?thesis using Nil Cons.prems(4) by (intro loop_step [of p ?q]) (simp_all add: rest_def)
  next
    case (Cons s' ss')
    then obtain x xs where x: "show_stmts ss = x # xs" "inner x"
      using first_of_stmt [of s'] Cons.prems(1) by fastforce
    then have "x \<noteq> Sym sELSE" by (auto simp: inner_def)
    with f x(1) Cons.prems(1,3) have s: "stmt_runs p ?q" by (auto simp: reads_def)
    have "\<not> stop (ptok ?q)" using g x by (intro inner_goes_on [OF x(2)]) simp
    moreover have "runs (\<lambda>n. loop n ?q) (gen_stmts ss (adv (length (show_stmts ss)) ?q))"
      using Cons.IH [OF _ _ top Cons.prems(4) g] Cons.prems(1) \<open>ss = s' # ss'\<close> by simp
    ultimately have "runs (\<lambda>n. rest n ?q) (gen_stmts ss (adv (length (show_stmts ss)) ?q))"
      by (simp add: rest_def)
    from loop_step [OF s this] show ?thesis by (simp add: add.commute)
  qed
qed simp

end

subsection \<open>Every statement is read\<close>

lemma statement_is:
  assumes "\<And>n. parse_statement (Suc n) p = f n" "runs f q" shows "runs (\<lambda>n. parse_statement n p) q"
  by (rule runs_step [where f = "\<lambda>n. parse_statement n p", OF assms])

lemma reads_Blank: "reads Blank"
  unfolding reads_def stmt_runs_def
proof (intro allI impI disjI1)
  fix p :: parse and k rest
  assume "feeds (show_stmt Blank @ k # rest) (scan p)"
  then have "ptok p = sSTATESEP" by (simp add: feeds_Sym del: feeds.simps)
  then show "runs (\<lambda>n. parse_statement n p) (gen_stmt Blank (adv (length (show_stmt Blank)) p))"
    by (intro statement_is [where f = "\<lambda>n. Some (get p)"]) (simp_all add: get_adv)
qed

lemma reads_Instr: "stmt_ok (Instr i md x) \<Longrightarrow> reads (Instr i md x)"
  unfolding reads_def stmt_runs_def
proof (intro allI impI disjI2)
  fix p :: parse and k rest
  assume ok: "stmt_ok (Instr i md x)" and f: "feeds (show_stmt (Instr i md x) @ k # rest) (scan p)"
  then have f: "feeds (show_instr i md x @ Sym sSTATESEP # k # rest) (scan p)" by simp
  then have "ptok p = i" by (simp add: show_instr_def feeds_Sym del: feeds.simps)
  moreover have "i \<noteq> sSTATESEP" using ok no_separator by auto
  ultimately have "runs (\<lambda>n. parse_statement n p) (gen_instr i md x (adv (length (show_instr i md x)) p))"
    using ok f by (intro statement_is [OF _ instr_runs]) auto
  moreover have "ptok (adv (length (show_instr i md x)) p) = sSTATESEP"
    using f by (simp add: feeds_append feeds_Sym del: feeds.simps)
  ultimately show "\<exists>q'. runs (\<lambda>n. parse_statement n p) q' \<and> ptok q' = sSTATESEP \<and>
      get q' = gen_stmt (Instr i md x) (adv (length (show_stmt (Instr i md x))) p)"
    by (intro exI conjI) (assumption, simp_all add: gen_instr_def add_instr_def get_adv ptok_def)
qed

lemma ident_def_colon:
  "feeds (show_name loc nm @ Sym sCOLON # ts) (scan p) \<Longrightarrow>
     parse_ident_def p = (name_object nm loc, adv (Suc (length (show_name loc nm))) p)"
  by (cases loc) (auto simp: show_name_def parse_ident_def_def name_object_def object_new_def feeds_Sym feeds_Name
      get_adv simp del: feeds.simps)

lemma ident_def_becomes:
  "feeds (Name nm # Sym sBECOMES # ts) (scan p) \<Longrightarrow> parse_ident_def p = (name_object nm False, get p)"
  by (simp add: parse_ident_def_def name_object_def object_new_def feeds_Sym feeds_Name del: feeds.simps)

lemma val_name_object [simp]: "val (name_object nm loc) = Str nm" "(name_object nm loc)\<lparr>is_local := loc\<rparr> = name_object nm loc"
  by (simp_all add: name_object_def)

lemma is_word_tokens: "\<not> is_instr sPERIOD \<and> \<not> is_instr sIDENT \<and> \<not> is_instr sLET \<and> \<not> is_instr sVAR \<and> \<not> is_instr sIF \<and>
    \<not> is_directive sPERIOD \<and> \<not> is_directive sIDENT \<and> \<not> is_directive sLET \<and> \<not> is_directive sVAR \<and> \<not> is_directive sIF"
  by code_simp

lemma reads_Label: "stmt_ok (Label loc nm) \<Longrightarrow> reads (Label loc nm)"
  unfolding reads_def stmt_runs_def
proof (intro allI impI disjI2)
  fix p :: parse and k rest
  assume ok: "stmt_ok (Label loc nm)" and top: "at_top p" and "feeds (show_stmt (Label loc nm) @ k # rest) (scan p)"
  then have f: "feeds (show_name loc nm @ Sym sCOLON # Sym sSTATESEP # k # rest) (scan p)" by simp
  let ?q = "adv (Suc (length (show_name loc nm))) p"
  let ?r = "add_object OpLabel (name_object nm loc) ?q"
  have t: "ptok p = (if loc then sPERIOD else sIDENT)"
    using f by (auto simp: show_name_def feeds_Sym feeds_Name simp del: feeds.simps)
  have "feeds ((show_name loc nm @ [Sym sCOLON]) @ Sym sSTATESEP # k # rest) (scan p)" using f by simp
  then have sep: "ptok ?q = sSTATESEP" unfolding feeds_append by (simp add: feeds_Sym del: feeds.simps)
  have "parse_named (Suc n) p = Some ?r" for n
    using ok sep no_separator by (simp add: ident_def_colon [OF f] t is_proc_def Let_def)
  then have "runs (\<lambda>n. parse_named n p) ?r" by (rule runs_step [where f = "\<lambda>n. parse_named n p"]) simp
  then have "runs (\<lambda>n. parse_statement n p) ?r"
    by (rule statement_is [rotated]) (use t is_word_tokens at_top_no_macro [OF top] in auto)
  with sep show "\<exists>q'. runs (\<lambda>n. parse_statement n p) q' \<and> ptok q' = sSTATESEP \<and>
      get q' = gen_stmt (Label loc nm) (adv (length (show_stmt (Label loc nm))) p)"
    by (intro exI [of _ ?r] conjI) (simp_all add: get_adv)
qed

lemma assignment_runs:
  assumes "wf e" "feeds (Sym sBECOMES # show_at 0 e @ Sym sSTATESEP # ts) (scan p)"
  shows "runs (\<lambda>n. let (v, s) = alloc x (asm p) in parse_assignment n v (p\<lparr>asm := s\<rparr>))
    (gen_assign x e (adv (Suc (length (show_at 0 e))) p))"
proof -
  obtain v s where a: "alloc x (asm p) = (v, s)" by (cases "alloc x (asm p)")
  let ?p = "get (p\<lparr>asm := s\<rparr>)"
  have b: "ptok p = sBECOMES" and f: "feeds (show_at 0 e @ Sym sSTATESEP # ts) (scan ?p)"
    using assms(2) by (simp_all add: feeds_Sym get_def del: feeds.simps)
  have "runs (\<lambda>n. map_option (interp_add (OpPopVar v)) (parse_expression n False ?p)) (interp_add (OpPopVar v) (after 0 e ?p))"
    by (rule operand_one [OF assms(1) f]) simp_all
  moreover have "interp_add (OpPopVar v) (after 0 e ?p) = gen_assign x e (adv (Suc (length (show_at 0 e))) p)"
    by (simp add: gen_assign_def a after_def get_adv adv_asm)
  ultimately show ?thesis using b by (simp add: a parse_assignment_def ptok_def)
qed

lemma reads_Assign: "stmt_ok (Assign nm e) \<Longrightarrow> reads (Assign nm e)"
  unfolding reads_def stmt_runs_def
proof (intro allI impI disjI1)
  fix p :: parse and k rest
  assume ok: "stmt_ok (Assign nm e)" and top: "at_top p" and "feeds (show_stmt (Assign nm e) @ k # rest) (scan p)"
  then have f: "feeds (Name nm # Sym sBECOMES # show_at 0 e @ Sym sSTATESEP # k # rest) (scan p)" by simp
  then have t: "ptok p = sIDENT" "ptok (get p) = sBECOMES"
    and g: "feeds (Sym sBECOMES # show_at 0 e @ Sym sSTATESEP # k # rest) (scan (get p))"
    by (simp_all add: feeds_Name feeds_Sym del: feeds.simps)
  have "wf e" using ok by simp
  from runs_map [where g = get, OF assignment_runs [OF this g, of "name_object nm False"]]
  have "runs (\<lambda>n. map_option get (let (v, s) = alloc (name_object nm False) (asm (get p)) in
      parse_assignment n v ((get p)\<lparr>asm := s\<rparr>))) (gen_stmt (Assign nm e) (adv (length (show_stmt (Assign nm e))) p))"
    by (simp add: get_adv)
  then have "runs (\<lambda>n. parse_named n p) (gen_stmt (Assign nm e) (adv (length (show_stmt (Assign nm e))) p))"
    by (rule runs_step [where f = "\<lambda>n. parse_named n p", rotated])
      (simp add: ident_def_becomes [OF f] t is_proc_def alloc_def)
  then show "runs (\<lambda>n. parse_statement n p) (gen_stmt (Assign nm e) (adv (length (show_stmt (Assign nm e))) p))"
    by (rule statement_is [rotated]) (use t is_word_tokens at_top_no_macro [OF top] in auto)
qed

lemma reads_Define: "stmt_ok (Define ro nm e) \<Longrightarrow> reads (Define ro nm e)"
  unfolding reads_def stmt_runs_def
proof (intro allI impI disjI2)
  fix p :: parse and k rest
  assume ok: "stmt_ok (Define ro nm e)" and top: "at_top p" and "feeds (show_stmt (Define ro nm e) @ k # rest) (scan p)"
  then have f: "feeds (Sym (if ro then sLET else sVAR) # Name nm # Sym sBECOMES # show_at 0 e @ Sym sSTATESEP # k # rest) (scan p)"
    by simp
  then have t: "ptok p = (if ro then sLET else sVAR)"
    and n: "feeds (Name nm # Sym sBECOMES # show_at 0 e @ Sym sSTATESEP # k # rest) (scan (get p))"
    and g: "feeds (Sym sBECOMES # show_at 0 e @ Sym sSTATESEP # k # rest) (scan (get (get p)))"
    by (simp_all add: feeds_Name feeds_Sym del: feeds.simps)
  let ?x = "(name_object nm False)\<lparr>readonly := ro\<rparr>"
  let ?r = "gen_assign ?x e (adv (Suc (length (show_at 0 e))) (get (get p)))"
  have "wf e" using ok by simp
  from assignment_runs [OF this g, of ?x] have "runs (\<lambda>n. parse_let n ro p) ?r"
    by (simp add: parse_let_def ident_def_becomes [OF n])
  then have "runs (\<lambda>n. parse_statement n p) ?r"
    by (rule statement_is [rotated]) (use t is_word_tokens at_top_no_macro [OF top] in auto)
  moreover have "feeds (show_at 0 e @ Sym sSTATESEP # k # rest) (scan (get (get (get p))))"
    using g by (simp add: feeds_Sym del: feeds.simps)
  then have "ptok ?r = sSTATESEP" unfolding feeds_append by (simp add: feeds_Sym get_adv add.commute del: feeds.simps)
  ultimately show "\<exists>q'. runs (\<lambda>n. parse_statement n p) q' \<and> ptok q' = sSTATESEP \<and>
      get q' = gen_stmt (Define ro nm e) (adv (length (show_stmt (Define ro nm e))) p)"
    by (intro exI [of _ ?r] conjI) (simp_all add: get_adv)
qed

subsection \<open>Data\<close>

definition past_comma :: "parse \<Rightarrow> parse" where
  "past_comma p = (if ptok p = sCOMMA then get p else p)"

lemma list_loop_step:
  assumes "wf e" "feeds (show_at 0 e @ Sym t # ts) (scan (past_comma p))" "ends_expr t"
    and "runs (\<lambda>n. if t = sCOMMA then list_loop n (c + 1) (after 0 e (past_comma p)) else Some (c + 1, after 0 e (past_comma p))) r"
  shows "runs (\<lambda>n. list_loop n c p) r"
proof -
  note t = tokens_after(2,3) [OF assms(1-3)]
  have "ptok (past_comma p) \<noteq> sSTATESEP" using bare_token(1) [OF assms(1,2)] by simp
  then have step: "list_loop (Suc n) c p = Option.bind (parse_expression n False (past_comma p))
      (\<lambda>p. if ptok p = sCOMMA then list_loop n (c + 1) p else Some (c + 1, p))" for n
    by (simp add: past_comma_def Let_def)
  have "runs (\<lambda>n. Option.bind (parse_expression n False (past_comma p))
      (\<lambda>p. if ptok p = sCOMMA then list_loop n (c + 1) p else Some (c + 1, p))) r"
    using assms(4) by (intro operand_more [OF assms(1-3)]) (simp add: t)
  then show ?thesis by (rule runs_step [where f = "\<lambda>n. list_loop n c p", OF step])
qed

lemma list_runs:
  "es \<noteq> [] \<Longrightarrow> list_all wf es \<Longrightarrow> feeds (show_list es @ Sym sSTATESEP # ts) (scan (past_comma p)) \<Longrightarrow>
   runs (\<lambda>n. list_loop n c p) (c + of_nat (length es), gen_exprs es (adv (length (show_list es)) (past_comma p)))"
proof (induction es arbitrary: c p rule: show_list.induct)
  case (2 e)
  then show ?case
    by (intro list_loop_step [of e sSTATESEP ts]) (simp_all add: after_def)
next
  case (3 e e' es)
  let ?q = "after 0 e (past_comma p)"
  have a: "wf e" "feeds (show_at 0 e @ Sym sCOMMA # show_list (e' # es) @ Sym sSTATESEP # ts) (scan (past_comma p))"
    using 3 by simp_all
  note t = tokens_after(2,3) [OF a ends_expr_tokens(2)]
  have q: "past_comma ?q = get ?q" using t(1) by (simp add: past_comma_def)
  have "runs (\<lambda>n. list_loop n (c + 1) ?q)
      (c + 1 + of_nat (length (e' # es)), gen_exprs (e' # es) (adv (length (show_list (e' # es))) (get ?q)))"
    using "3.IH" [of ?q "c + 1"] "3.prems"(2) t(2) by (simp add: q)
  then show ?case
    by (intro list_loop_step [OF a]) (simp_all add: reading add.commute add.left_commute)
qed simp

lemma list_directive:
  assumes "list_op t = Some mk" shows "plain_directive n t MNone p = counted n mk p" "is_directive t" "\<not> is_instr t"
    "t \<noteq> sERRORIF" "t \<noteq> sSTATESEP"
proof -
  have d: "list_all (\<lambda>t. is_directive t \<and> \<not> is_instr t) [sBYTE, sWORD, sLONG, sFLOAT, sDOUBLE, sDATA, sTEXT, sFILL,
    sERROR, sMESSAGE, sTITLE, sSUBHEADING]" by code_simp
  show "plain_directive n t MNone p = counted n mk p"
    using assms by (auto simp: list_op_def plain_directive_def parse_message_def parse_data_def parse_text_def
      parse_fill_def parse_title_def parse_subheading_def split: if_splits)
  show "is_directive t" "\<not> is_instr t" "t \<noteq> sERRORIF" "t \<noteq> sSTATESEP"
    using assms d by (auto simp: list_op_def split: if_splits)
qed

lemma reads_Data: "stmt_ok (Data t es) \<Longrightarrow> reads (Data t es)"
  unfolding reads_def stmt_runs_def
proof (intro allI impI disjI2)
  fix p :: parse and k rest
  assume ok: "stmt_ok (Data t es)" and "feeds (show_stmt (Data t es) @ k # rest) (scan p)"
  then have p: "ptok p = t" and f: "feeds (show_list es @ Sym sSTATESEP # k # rest) (scan (get p))"
    by (simp_all add: feeds_Sym del: feeds.simps)
  from ok obtain mk where mk: "list_op t = Some mk" and es: "es \<noteq> []" "list_all wf es" "length es < 2 ^ 31" by auto
  obtain e es' where e: "es = e # es'" using es(1) by (cases es) auto
  then obtain us where "show_list es = show_at 0 e @ us" by (cases es') auto
  then have "ptok (get p) \<notin> {sCOMMA, sPERIOD}"
    using bare_token(1) [of e "us @ Sym sSTATESEP # k # rest" "get p"] f es(2) e by auto
  then have q: "past_comma (get p) = get p" "directive_modifier (get p) = (MNone, get p)"
    by (simp_all add: past_comma_def directive_modifier_def)
  let ?r = "add_object mk (int_object (of_nat (length es))) (gen_exprs es (adv (length (show_list es)) (get p)))"
  let ?c = "of_nat (length es) :: u32"
  have sint: "sint ?c = int (length es)"
    using es(3) by (simp add: sint_uint unsigned_of_nat take_bit_nat_eq_self signed_take_bit_int_eq_self)
  then have sc: "(scast ?c :: u64) = of_nat (length es)" "0 < sint ?c"
    using es(1) by (simp_all add: scast_eq)
  have "runs (\<lambda>n. list_loop n 0 (get p)) (?c, gen_exprs es (adv (length (show_list es)) (get p)))"
    using list_runs [OF es(1,2), of _ "get p" 0] f by (simp add: q)
  from runs_map [OF this, of "\<lambda>(c, p). if 0 < sint c then add_object mk (int_object (scast c)) p else p"]
  have "runs (\<lambda>n. counted n mk (get p)) ?r" using sc by (simp add: counted_def parse_list_def)
  then have "runs (\<lambda>n. parse_directive n p) ?r"
    by (rule runs_step [where f = "\<lambda>n. parse_directive n p", rotated]) (simp add: p q list_directive [OF mk])
  then have r: "runs (\<lambda>n. parse_statement n p) ?r"
    by (rule statement_is [rotated]) (simp add: p list_directive [OF mk])
  have "ptok ?r = sSTATESEP" using f unfolding feeds_append
    by (simp add: feeds_Sym ptok_def get_adv del: feeds.simps)
  with r show "\<exists>q'. runs (\<lambda>n. parse_statement n p) q' \<and> ptok q' = sSTATESEP \<and>
      get q' = gen_stmt (Data t es) (adv (length (show_stmt (Data t es))) p)"
    by (intro exI [of _ ?r] conjI) (simp_all add: get_adv mk)
qed

subsection \<open>Conditionals\<close>

lemma parse_if_runs:
  assumes "ptok p = sIF" "wf e" "feeds (show_at 0 e @ Sym sBLOCKSTART # ts) (scan (get p))"
    and b: "runs (\<lambda>n. parse_block n (get (interp_add OpIfBegin (after 0 e (get p))))) q"
    and r: "runs (\<lambda>n. else_arms n (get q)) r"
  shows "runs (\<lambda>n. parse_if n p) (interp_add OpScopeEnd r)"
proof -
  note t = tokens_after(2) [OF assms(2,3) ends_expr_tokens(5)]
  from runs_map [OF runs_bind [where g = "\<lambda>p n. else_arms n (get p)", OF b r], of "interp_add OpScopeEnd"]
  have "runs (\<lambda>n. Option.bind (parse_expression n False (get p)) (\<lambda>p.
       if ptok p = sBLOCKSTART then
         map_option (interp_add OpScopeEnd)
           (Option.bind (parse_block n (get (interp_add OpIfBegin p))) (\<lambda>p. else_arms n (get p)))
       else Some (err p))) (interp_add OpScopeEnd r)"
    by (intro operand_more [OF assms(2,3) ends_expr_tokens(5)]) (simp add: t)
  then show ?thesis by (rule runs_step [where f = "\<lambda>n. parse_if n p", rotated]) simp
qed

lemma else_arms_end: "ptok p \<noteq> sELSE \<Longrightarrow> runs (\<lambda>n. else_arms n p) p"
  by (rule runs_step [where f = "\<lambda>n. else_arms n p" and g = "\<lambda>n. Some p"]) simp_all

lemma else_runs:
  assumes "ptok p = sELSE" "ptok (get p) = sBLOCKSTART" "runs (\<lambda>n. parse_block n (interp_add OpElseBegin (interp_add OpScopeEnd (get (get p))))) q"
    and "ptok (get q) \<noteq> sELSE"
  shows "runs (\<lambda>n. else_arms n p) (get q)"
proof -
  have c: "get (interp_add OpScopeEnd p) = interp_add OpScopeEnd (get p)"
    "get (interp_add OpElseBegin (interp_add OpScopeEnd (get p))) = interp_add OpElseBegin (interp_add OpScopeEnd (get (get p)))"
    by (simp_all add: get_adv)
  from runs_map [OF assms(3), of get]
  have b: "runs (\<lambda>n. map_option get (parse_block n (interp_add OpElseBegin (interp_add OpScopeEnd (get (get p)))))) (get q)" .
  from runs_bind [where g = "\<lambda>p n. else_arms n p", OF b else_arms_end [OF assms(4)]] show ?thesis
    by (rule runs_step [where f = "\<lambda>n. else_arms n p", rotated]) (simp add: assms(1,2) c)
qed

lemma if_statement:
  assumes "at_top p" "ptok p = sIF" "runs (\<lambda>n. parse_if n p) q"
  shows "runs (\<lambda>n. parse_statement n p) q"
  using assms(3) by (rule statement_is [rotated]) (use assms(2) is_word_tokens at_top_no_macro [OF assms(1)] in auto)

lemma tok_not_else: "k \<noteq> Sym sELSE \<Longrightarrow> feeds (k # ts) (scan p) \<Longrightarrow> ptok p \<noteq> sELSE"
  by (cases k) (auto simp: ptok_def)

text \<open>A condition, a block, and what is left behind it.\<close>

lemma block_reads:
  assumes ok: "\<forall>s\<in>set b. reads s \<and> stmt_ok s" "b \<noteq> []" "at_top p"
    and f: "feeds (show_stmts b @ Sym sBLOCKEND # ts) (scan p)"
  shows "runs (\<lambda>n. parse_block n p) (gen_stmts b (adv (length (show_stmts b)) p))"
    "feeds ts (scan (get (gen_stmts b (adv (length (show_stmts b)) p))))"
proof -
  show "runs (\<lambda>n. parse_block n p) (gen_stmts b (adv (length (show_stmts b)) p))"
    using block.statements_run [OF ok] f by simp
  show "feeds ts (scan (get (gen_stmts b (adv (length (show_stmts b)) p))))"
    using f unfolding feeds_append by (simp add: get_adv adv_def)
qed

lemma stmts_ok_set: "stmts_ok ss \<longleftrightarrow> (\<forall>s\<in>set ss. stmt_ok s)"
  by (induction ss) auto

lemma reads_If:
  assumes b: "\<forall>s\<in>set b. reads s" and ok: "stmt_ok (If e b)"
  shows "reads (If e b)"
  unfolding reads_def stmt_runs_def
proof (intro allI impI disjI1)
  fix p :: parse and k rest
  assume top: "at_top p" and "feeds (show_stmt (If e b) @ k # rest) (scan p)" and k: "k \<noteq> Sym sELSE"
  then have t: "ptok p = sIF" and f: "feeds (show_at 0 e @ Sym sBLOCKSTART # show_stmts b @ Sym sBLOCKEND # k # rest) (scan (get p))"
    by (simp_all add: feeds_Sym del: feeds.simps)
  have e: "wf e" using ok by simp
  let ?p = "get (interp_add OpIfBegin (after 0 e (get p)))"
  let ?q = "gen_stmts b (adv (length (show_stmts b)) ?p)"
  have "?p = interp_add OpIfBegin (get (after 0 e (get p)))" by (simp add: get_adv)
  then have g: "feeds (show_stmts b @ Sym sBLOCKEND # k # rest) (scan ?p)" "at_top ?p"
    using tokens_after(3) [OF e f ends_expr_tokens(5)] top
    by (simp_all add: get_adv at_top_gen after_def)
  note q = block_reads [OF _ _ g(2,1)]
  have bs: "\<forall>s\<in>set b. reads s \<and> stmt_ok s" "b \<noteq> []" using b ok by (simp_all add: stmts_ok_set)
  have "runs (\<lambda>n. parse_if n p) (interp_add OpScopeEnd (get ?q))"
    by (rule parse_if_runs [OF t e f q(1) [OF bs] else_arms_end [OF tok_not_else [OF k q(2) [OF bs]]]])
  moreover have "interp_add OpScopeEnd (get ?q) = gen_stmt (If e b) (adv (length (show_stmt (If e b))) p)"
    by (simp add: after_def get_adv add.commute add.left_commute)
  ultimately show "runs (\<lambda>n. parse_statement n p) (gen_stmt (If e b) (adv (length (show_stmt (If e b))) p))"
    using if_statement [OF top t] by simp
qed

lemma reads_IfElse:
  assumes b: "\<forall>s\<in>set b. reads s" and c: "\<forall>s\<in>set c. reads s" and ok: "stmt_ok (IfElse e b c)"
  shows "reads (IfElse e b c)"
  unfolding reads_def stmt_runs_def
proof (intro allI impI disjI1)
  fix p :: parse and k rest
  let ?c = "Sym sELSE # Sym sBLOCKSTART # show_stmts c @ Sym sBLOCKEND # k # rest"
  assume top: "at_top p" and "feeds (show_stmt (IfElse e b c) @ k # rest) (scan p)" and k: "k \<noteq> Sym sELSE"
  then have t: "ptok p = sIF" and f: "feeds (show_at 0 e @ Sym sBLOCKSTART # show_stmts b @ Sym sBLOCKEND # ?c) (scan (get p))"
    by (simp_all add: feeds_Sym del: feeds.simps)
  have e: "wf e" using ok by simp
  let ?p = "get (interp_add OpIfBegin (after 0 e (get p)))"
  let ?q = "gen_stmts b (adv (length (show_stmts b)) ?p)"
  have "?p = interp_add OpIfBegin (get (after 0 e (get p)))" by (simp add: get_adv)
  then have g: "feeds (show_stmts b @ Sym sBLOCKEND # ?c) (scan ?p)" "at_top ?p"
    using tokens_after(3) [OF e f ends_expr_tokens(5)] top
    by (simp_all add: get_adv at_top_gen after_def)
  have bs: "\<forall>s\<in>set b. reads s \<and> stmt_ok s" "b \<noteq> []" "\<forall>s\<in>set c. reads s \<and> stmt_ok s" "c \<noteq> []"
    using b c ok by (simp_all add: stmts_ok_set)
  note q = block_reads [OF bs(1,2) g(2,1)]
  let ?r = "interp_add OpElseBegin (interp_add OpScopeEnd (get (get (get ?q))))"
  have el: "ptok (get ?q) = sELSE" "ptok (get (get ?q)) = sBLOCKSTART"
    and h: "feeds (show_stmts c @ Sym sBLOCKEND # k # rest) (scan ?r)"
    using q(2) by (simp_all add: feeds_Sym del: feeds.simps)
  have "at_top (after 0 e (get p))" using top by (simp add: after_def get_adv at_top_gen)
  then have "at_top ?r" by (simp add: get_adv at_top_gen at_top_stmt)
  note r = block_reads [OF bs(3,4) this h]
  have "runs (\<lambda>n. parse_if n p) (interp_add OpScopeEnd (get (gen_stmts c (adv (length (show_stmts c)) ?r))))"
    by (rule parse_if_runs [OF t e f q(1) else_runs [OF el r(1) tok_not_else [OF k r(2)]]])
  moreover have "interp_add OpScopeEnd (get (gen_stmts c (adv (length (show_stmts c)) ?r))) =
      gen_stmt (IfElse e b c) (adv (length (show_stmt (IfElse e b c))) p)"
    by (simp add: after_def get_adv add.commute add.left_commute)
  ultimately show "runs (\<lambda>n. parse_statement n p) (gen_stmt (IfElse e b c) (adv (length (show_stmt (IfElse e b c))) p))"
    using if_statement [OF top t] by simp
qed

lemma every_statement: "stmt_ok s \<Longrightarrow> reads s"
proof (induction s)
  case (If e b)
  then show ?case by (intro reads_If) (auto simp: stmts_ok_set)
next
  case (IfElse e b c)
  then show ?case by (intro reads_IfElse) (auto simp: stmts_ok_set)
qed (auto intro: reads_Blank reads_Instr reads_Label reads_Assign reads_Define reads_Data)

lemma source_runs:
  assumes "stmts_ok ss" "ss \<noteq> []" "at_top p" "t = sEOF \<or> t = sEND"
    and "feeds (show_stmts ss @ Sym t # rest) (scan p)"
  shows "\<exists>N. \<forall>n \<ge> N. parse_asm_file n p = Some (gen_stmts ss (adv (length (show_stmts ss)) p))"
proof -
  have "\<forall>s\<in>set ss. reads s \<and> stmt_ok s" using assms(1) every_statement by (simp add: stmts_ok_set)
  from source.statements_run [OF this assms(2,3) assms(4,5)] show ?thesis by (simp add: runs_def)
qed

text \<open>
  C2. The parser inverts the printing of programs: a source text with the tokens of a non-empty list
  of statements - empty lines, instructions, labels, assignments, definitions, data and conditionals
  nested to any depth - followed by the end of the file or \<open>end\<close>, is read to that token, and what has
  been appended are exactly the operations of the statements, in their order.
\<close>

theorem source_reads_back:
  assumes "stmts_ok ss" "ss \<noteq> []" "at_top p" "t = sEOF \<or> t = sEND"
    and "feeds (show_stmts ss @ Sym t # rest) (scan p)"
  shows "\<exists>N. \<forall>n \<ge> N. parse_asm_file n p = Some (gen_stmts ss (adv (length (show_stmts ss)) p))"
  using source_runs [OF assms] .

text \<open>A small program.\<close>

definition sample_source :: "stmt list" where
  "sample_source = [Label False ''go'', If (Num 1) [Instr sNOP MNone NoOperand], Blank]"

definition sample_text :: string where
  "sample_text = ''go:
if 1 {nop
}
''"

lemma sample_source_feeds: "feeds (show_stmts sample_source @ Sym sEOF # []) (scan (parse_start sample_text))"
  by code_simp

lemma sample_source_ok:
  "stmts_ok sample_source \<and> sample_source \<noteq> [] \<and> length (show_stmts sample_source) = 10"
  by code_simp

lemma source_reads_back_witness:
  "\<exists>N. \<forall>n \<ge> N. parse_asm_file n (parse_start sample_text) =
     Some (gen_stmts sample_source (adv 10 (parse_start sample_text)))"
proof -
  have "at_top (parse_start sample_text)" by (simp add: at_top_def top_scope_def parse_start_def as_init_def object_new_def)
  with source_reads_back [OF _ _ this _ sample_source_feeds] sample_source_ok show ?thesis by simp
qed

end
