(* ===== verification/Selecting.thy ===== *)
theory Selecting
  imports Sources
begin

text \<open>
  From the source of a conditional to what is assembled: the branch the value of the condition
  selects.
\<close>

subsection \<open>The operations of a program\<close>

text \<open>The objects a statement makes, and its operations when the first of them is the object \<open>k\<close>.\<close>

fun objs_of :: "stmt \<Rightarrow> obj list"
and objs_all :: "stmt list \<Rightarrow> obj list"
where
  "objs_of Blank = []"
| "objs_of (Instr i md x) = concat (map consts_of (operand_exprs x))"
| "objs_of (Label loc nm) = [name_object nm loc]"
| "objs_of (Assign nm e) = name_object nm False # consts_of e"
| "objs_of (Define ro nm e) = (name_object nm False)\<lparr>readonly := ro\<rparr> # consts_of e"
| "objs_of (Data t es) = concat (map consts_of es) @ [int_object (of_nat (length es))]"
| "objs_of (If e b) = consts_of e @ objs_all b"
| "objs_of (IfElse e b c) = consts_of e @ objs_all b @ objs_all c"
| "objs_all [] = []"
| "objs_all (s # ss) = objs_of s @ objs_all ss"

fun ops_stmt :: "stmt \<Rightarrow> nat \<Rightarrow> op list"
and ops_stmts :: "stmt list \<Rightarrow> nat \<Rightarrow> op list"
where
  "ops_stmt Blank k = []"
| "ops_stmt (Instr i md x) k =
     ops_list (operand_exprs x) k @ [OpEmit \<lparr>opcode = i, mode = operand_mode x, modifier = md\<rparr>]"
| "ops_stmt (Label loc nm) k = [OpLabel k]"
| "ops_stmt (Assign nm e) k = ops_of e (k + 1) @ [OpPopVar k]"
| "ops_stmt (Define ro nm e) k = ops_of e (k + 1) @ [OpPopVar k]"
| "ops_stmt (Data t es) k = ops_list es k @ [the (list_op t) (k + length (concat (map consts_of es)))]"
| "ops_stmt (If e b) k = ops_of e k @ OpIfBegin # ops_stmts b (k + length (consts_of e)) @ [OpScopeEnd]"
| "ops_stmt (IfElse e b c) k =
     (let m = k + length (consts_of e) in
      ops_of e k @ OpIfBegin # ops_stmts b m @ OpScopeEnd # OpElseBegin # ops_stmts c (m + length (objs_all b)) @ [OpScopeEnd])"
| "ops_stmts [] k = []"
| "ops_stmts (s # ss) k = ops_stmt s k @ ops_stmts ss (k + length (objs_of s))"

lemma gen_assign_appended:
  "filling i p \<Longrightarrow> gen_assign x e p = appended i (x # consts_of e)
     (ops_of e (length (heap (asm p)) + 1) @ [OpPopVar (length (heap (asm p)))]) p"
proof -
  assume f: "filling i p"
  let ?p = "p\<lparr>asm := (asm p)\<lparr>heap := heap (asm p) @ [x]\<rparr>\<rparr>"
  have "?p = appended i [x] [] p" by (cases p) (simp add: appended_def)
  then show ?thesis
    using f by (simp add: gen_assign_def alloc_def gen_expr_appended interp_add_appended)
qed

lemma appended_Nil [simp]: "appended i [] [] p = p"
  by (cases p) (simp add: appended_def)

lemma gen_stmt_appended:
  "filling i p \<Longrightarrow> gen_stmt s p = appended i (objs_of s) (ops_stmt s (length (heap (asm p)))) p"
  "filling i p \<Longrightarrow> gen_stmts ss p = appended i (objs_all ss) (ops_stmts ss (length (heap (asm p)))) p"
  by (induction s p and ss p rule: gen_stmt_gen_stmts.induct)
    (simp_all add: gen_instr_def add_instr_def gen_exprs_appended gen_expr_appended interp_add_appended
      add_object_appended gen_assign_appended Let_def add.assoc)

subsection \<open>Statements without conditionals\<close>

fun flat :: "stmt \<Rightarrow> bool" where
  "flat (If e b) \<longleftrightarrow> False"
| "flat (IfElse e b c) \<longleftrightarrow> False"
| "flat s \<longleftrightarrow> True"

lemma plain_ops_list: "list_all wf es \<Longrightarrow> plain (ops_list es k)"
  by (induction es arbitrary: k) (simp_all add: plain_ops_of, simp add: plain_def)

lemma plain_Cons: "plain (x # xs) \<longleftrightarrow> plain [x] \<and> plain xs"
  by (auto simp: plain_def)

lemma plain_one:
  "plain [OpLabel k]" "plain [OpPopVar k]" "plain [OpEmit i]" "list_op t = Some mk \<Longrightarrow> plain [mk k]" "plain []"
  by (auto simp: plain_def branching_def macro_call_def list_op_def split: if_splits)

lemma plain_flat: "stmt_ok s \<Longrightarrow> flat s \<Longrightarrow> plain (ops_stmt s k)"
  by (cases s) (auto simp: plain_one plain_ops_of plain_ops_list operand_ok_def)

lemma plain_flats: "stmts_ok ss \<Longrightarrow> list_all flat ss \<Longrightarrow> plain (ops_stmts ss k)"
  by (induction ss arbitrary: k) (simp_all add: plain_flat, simp add: plain_def)

subsection \<open>The selected branch\<close>

lemma stack_if_pushed:
  assumes "pushed v st hp t"
  shows "\<exists>s new. stack_if t = Some (v \<noteq> 0, s) \<and> stack_ok s \<and> stack_view s = st \<and> heap s = hp @ new"
proof -
  from pushed_pop [OF assms] obtain a s new where s: "stack_pop t = Some (a, s)" "stack_ok s" "stack_view s = st"
    "heap s = hp @ new" "deref s a = int_object v" by blast
  then show ?thesis by (auto simp: stack_if_def if_value_def)
qed

lemma source_one:
  assumes "stmt_ok s" "at_top p" "filling i p" "t = sEOF \<or> t = sEND" "feeds (show_stmt s @ Sym t # rest) (scan p)"
  shows "\<exists>N. \<forall>n \<ge> N. parse_asm_file n p =
    Some (appended i (objs_of s) (ops_stmt s (length (heap (asm p)))) (adv (length (show_stmt s)) p))"
proof -
  let ?p = "adv (length (show_stmt s)) p"
  have "filling i ?p" "asm ?p = asm p" using assms(3) by (simp_all add: filling_def adv_def)
  then have "gen_stmts [s] ?p = appended i (objs_of s) (ops_stmt s (length (heap (asm p)))) ?p"
    by (simp add: gen_stmt_appended)
  then show ?thesis using source_runs [of "[s]" p t rest] assms by simp
qed


definition sample_if_text :: string where
  "sample_if_text = ''if 1 {nop
} else {inx
}''"


end
