(* ===== verification/Wellformed.thy ===== *)
theory Wellformed
  imports Selecting
begin

text \<open>
  Whatever the source, the program the parser makes of it is sound: every pointer in the state and
  in the operations is that of an object, so that running it stays within the store.
\<close>

subsection \<open>The invariant\<close>

definition parse_ok :: "parse \<Rightarrow> bool" where
  "parse_ok p \<longleftrightarrow> asm_ok (asm p) \<and> (\<forall>i. ops_ok (length (heap (asm p))) (code p i))"

text \<open>\<open>m\<close> is the result of a function of the parser called in the state \<open>p\<close>.\<close>

definition grows :: "parse \<Rightarrow> parse \<Rightarrow> bool" where
  "grows p q \<longleftrightarrow> parse_ok q \<and> length (heap (asm p)) \<le> length (heap (asm q))"

definition sound :: "parse option \<Rightarrow> parse \<Rightarrow> bool" where
  "sound m p \<longleftrightarrow> (parse_ok p \<longrightarrow> (\<forall>q. m = Some q \<longrightarrow> grows p q))"

named_theorems sounds \<open>functions of the parser that keep its state sound\<close>

lemma grows_trans: "grows p q \<Longrightarrow> grows q r \<Longrightarrow> grows p r"
  by (simp add: grows_def)

lemma sound_None [simp, sounds]: "sound None p"
  by (simp add: sound_def)

lemma sound_Some: "(parse_ok p \<Longrightarrow> grows p q) \<Longrightarrow> sound (Some q) p"
  by (auto simp: sound_def)

lemma sound_same [sounds]: "sound (Some p) p"
  by (simp add: sound_def grows_def)

lemma sound_bind [sounds]:
  "sound m p \<Longrightarrow> (\<And>q. m = Some q \<Longrightarrow> grows p q \<Longrightarrow> sound (f q) q) \<Longrightarrow> sound (Option.bind m f) p"
  unfolding sound_def grows_def by (cases m) fastforce+

lemma sound_map [sounds]:
  "sound m p \<Longrightarrow> (\<And>q. m = Some q \<Longrightarrow> grows p q \<Longrightarrow> sound (Some (f q)) q) \<Longrightarrow> sound (map_option f m) p"
  unfolding sound_def grows_def by (cases m) fastforce+

lemma sound_at: "sound (Some q) p \<Longrightarrow> (grows p q \<Longrightarrow> sound m q) \<Longrightarrow> sound m p"
  unfolding sound_def using order_trans by (fastforce simp: grows_def)

lemma sound_if [sounds]: "(b \<Longrightarrow> sound x p) \<Longrightarrow> (\<not> b \<Longrightarrow> sound y p) \<Longrightarrow> sound (if b then x else y) p"
  by simp

lemma sound_asm:
  assumes "safe (asm p) s" shows "sound (Some (p\<lparr>asm := s\<rparr>)) p"
proof (rule sound_Some)
  assume ok: "parse_ok p"
  then have "asm_ok s" "length (heap (asm p)) \<le> length (heap s)" using assms by (auto simp: safe_def parse_ok_def)
  then show "grows p (p\<lparr>asm := s\<rparr>)" using ok by (auto simp: grows_def parse_ok_def intro: ops_ok_mono)
qed

lemma sound_on_asm: "(\<And>t. f (asm p) = Some t \<Longrightarrow> safe (asm p) t) \<Longrightarrow> sound (on_asm f p) p"
  using sound_asm [of p] by (auto simp: on_asm_def sound_def)

lemma parse_ok_same: "asm q = asm p \<Longrightarrow> code q = code p \<Longrightarrow> parse_ok p \<Longrightarrow> grows p q"
  by (simp add: parse_ok_def grows_def)

lemma sound_get [sounds]: "sound (Some (get p)) p"
  by (intro sound_Some parse_ok_same) (simp_all add: get_def)

lemma sound_err [sounds]: "sound (Some (err p)) p"
  unfolding err_def by (intro sound_asm safe_error)

lemma sound_after_get: "sound (Some (f (get p))) (get p) \<Longrightarrow> sound (Some (f (get p))) p"
  by (rule sound_at [OF sound_get])

lemma sound_expect [sounds]: "sound (Some (expect t p)) p"
  unfolding expect_def by (auto intro: sound_get sound_at [OF sound_err])

lemma asm_ok_macros:
  "asm_ok s \<Longrightarrow> length ms = length (macros s) \<Longrightarrow> \<forall>xs\<in>set ms. ops_ok (length (heap s)) xs \<Longrightarrow>
     asm_ok (s\<lparr>macros := ms\<rparr>)"
  by (simp add: asm_ok_def heap_ok_def stack_ok_def stack_view_def)

lemma sound_interp_add:
  assumes "\<And>a. parse_ok p \<Longrightarrow> op_ptr x = Some a \<Longrightarrow> a < length (heap (asm p))"
  shows "sound (Some (interp_add x p)) p"
proof (rule sound_Some)
  assume ok: "parse_ok p"
  let ?n = "length (heap (asm p))"
  have x: "ops_ok ?n [x]" using assms [OF ok] by (simp add: ops_ok_def)
  have app: "ops_ok ?n ys \<Longrightarrow> ops_ok ?n (ys @ [x])" for ys using x by (auto simp: ops_ok_def)
  have last: "ops_ok ?n (last (macros (asm p)) @ [x])" if "macros (asm p) \<noteq> []"
    using ok that by (intro app) (simp add: parse_ok_def asm_ok_def heap_ok_def)
  have "asm_ok ((asm p)\<lparr>macros := (macros (asm p))[length (macros (asm p)) - 1 := last (macros (asm p)) @ [x]]\<rparr>)"
  proof (rule asm_ok_macros)
    show "asm_ok (asm p)" using ok by (simp add: parse_ok_def)
    show "\<forall>xs\<in>set ((macros (asm p))[length (macros (asm p)) - 1 := last (macros (asm p)) @ [x]]). ops_ok ?n xs"
    proof (cases "macros (asm p) = []")
      case False
      have "set ((macros (asm p))[length (macros (asm p)) - 1 := last (macros (asm p)) @ [x]])
          \<subseteq> insert (last (macros (asm p)) @ [x]) (set (macros (asm p)))"
        by (rule set_update_subset_insert)
      with last [OF False] ok show ?thesis by (auto simp: parse_ok_def asm_ok_def heap_ok_def)
    qed simp
  qed simp
  with ok app show "grows p (interp_add x p)"
    by (auto simp: grows_def parse_ok_def interp_add_def split: option.split)
qed

lemma obj_ok_name [simp]: "obj_ok n m (name_object nm loc)"
  using obj_ok_new [of n m Const StringForm] by (simp add: name_object_def obj_ok_def object_new_def)

lemma sound_add_object:
  assumes "\<And>n m. obj_ok n m x" "\<And>a. op_ptr (mk a) = Some a \<or> op_ptr (mk a) = None"
  shows "sound (Some (add_object mk x p)) p"
proof -
  let ?p = "p\<lparr>asm := snd (alloc x (asm p))\<rparr>"
  have "sound (Some ?p) p" using assms(1) by (intro sound_asm safe_alloc)
  moreover have "sound (Some (interp_add (mk (fst (alloc x (asm p)))) ?p)) ?p"
  proof (rule sound_interp_add)
    fix a assume "op_ptr (mk (fst (alloc x (asm p)))) = Some a"
    then show "a < length (heap (asm ?p))" using assms(2) [of "fst (alloc x (asm p))"] by auto
  qed
  ultimately show ?thesis by (simp add: add_object_def split_def sound_at)
qed

subsection \<open>Expressions\<close>

lemma sound_then_get: "sound (Some q) p \<Longrightarrow> sound (Some (get q)) p"
  by (rule sound_at [OF _ sound_get])

lemma sound_get_then: "sound m (get p) \<Longrightarrow> sound m p"
  by (rule sound_at [OF sound_get])

lemma op_ptr_operators:
  "mul_op t = Some x \<Longrightarrow> op_ptr x = None" "sum_op t = Some x \<Longrightarrow> op_ptr x = None"
  "rel_op t = Some x \<Longrightarrow> op_ptr x = None" "prefix_op t = Some x \<Longrightarrow> op_ptr x = None"
  by (auto simp: mul_op_def sum_op_def rel_op_def prefix_op_def split: if_splits)

lemma sound_plain_op: "op_ptr x = None \<Longrightarrow> sound (Some (interp_add x p)) p"
  by (rule sound_interp_add) simp

lemma obj_ok_consts [simp]:
  "obj_ok n m ((object_new Const RealForm)\<lparr>val := Real r\<rparr>)" "obj_ok n m ((object_new Const StringForm)\<lparr>val := Str t\<rparr>)"
  "obj_ok n m ((object_new Macro StringForm)\<lparr>val := Str t\<rparr>)"
  using obj_ok_new by (simp_all add: obj_ok_def)

lemma sound_push: "(\<And>n m. obj_ok n m x) \<Longrightarrow> sound (Some (add_object OpPush x p)) p"
  and sound_push_var: "(\<And>n m. obj_ok n m x) \<Longrightarrow> sound (Some (add_object OpPushVar x p)) p"
  by (rule sound_add_object; simp)+

text \<open>Functions that return something beside the state.\<close>

definition sound2 :: "('a \<times> parse) option \<Rightarrow> parse \<Rightarrow> bool" where
  "sound2 m p \<longleftrightarrow> sound (map_option snd m) p"

lemma sound2_Some: "sound2 (Some (x, q)) p = sound (Some q) p"
  by (simp add: sound2_def)

lemma sound2_map: "sound2 m p \<Longrightarrow> (\<And>x q. m = Some (x, q) \<Longrightarrow> grows p q \<Longrightarrow> sound (Some (f (x, q))) q) \<Longrightarrow> sound (map_option f m) p"
  unfolding sound2_def sound_def grows_def by (cases m) fastforce+

lemma sound2_bind: "sound2 m p \<Longrightarrow> (\<And>x q. m = Some (x, q) \<Longrightarrow> grows p q \<Longrightarrow> sound (f (x, q)) q) \<Longrightarrow> sound (Option.bind m f) p"
  unfolding sound2_def sound_def grows_def by (cases m) fastforce+

lemma sound2_at: "sound (Some q) p \<Longrightarrow> sound2 m q \<Longrightarrow> sound2 m p"
  unfolding sound2_def by (rule sound_at)

lemma sound_dotted: "sound2 (dotted n v p) p"
proof (induction n v p rule: dotted.induct)
  case (2 n v p)
  show ?case
  proof (cases "ptok p = sPERIOD")
    case True
    have "sound2 (dotted n (take 127 (v @ ''.'' @ tok_id (get p))) (get (get p))) p" if "ptok (get p) = sIDENT"
      by (rule sound2_at [OF sound_get], rule sound2_at [OF sound_get]) (use 2 True that in auto)
    with True sound_get [of p] show ?thesis by (simp add: Let_def sound2_Some)
  qed (simp add: sound2_Some sound_same)
qed (simp add: sound2_def)

lemma sound_expressions:
  "sound (parse_factor n l p) p" "sound (parse_term n l p) p" "sound (term_loop n p) p"
  "sound (parse_simple_expression n l p) p" "sound (sum_loop n p) p" "sound (parse_expression n l p) p"
proof (induction n l p and n l p and n p and n l p and n p and n l p
    rule: parse_factor_parse_term_term_loop_parse_simple_expression_sum_loop_parse_expression.induct)
  case (2 n l p)
  note push = sound_then_get [OF sound_push]
  have idl: "sound (Some (add_object OpPushVar (name_object v True) (get p))) p" for v
    by (rule sound_at [OF sound_get sound_push_var]) simp
  have name: "sound (map_option (\<lambda>(v, p). add_object OpPushVar (name_object v False) p) (dotted n (tok_id p) (get p))) p"
    by (rule sound2_map [OF sound2_at [OF sound_get sound_dotted]]) (simp add: sound_push_var)
  have per: "sound (Some (let p = expect sIDENT (get p) in add_object OpPushVar (name_object (tok_id p) True) p)) p"
    unfolding Let_def by (rule sound_at [OF sound_at [OF sound_get sound_expect [of sIDENT]]]) (simp add: sound_push_var)
  have paren: "sound (map_option (\<lambda>p. if ptok p = sRPAREN then get p else err p) (parse_expression n False (get p))) p"
    if "ptok p = sLPAREN"
    by (rule sound_map [OF sound_get_then]) (use 2 that in \<open>simp_all add: sound_get sound_err\<close>)
  show ?case
    using 2 by (auto simp: Let_def split: option.split intro!: push name idl per [unfolded Let_def] paren sound_then_get [OF sound_err]
        sound_push_var sound_map [OF sound_get_then] sound_plain_op dest: op_ptr_operators)
next
  case (4 n l p)
  from 4 show ?case unfolding parse_term.simps by (rule sound_bind)
next
  case (6 n p)
  show ?case
  proof (cases "mul_op (ptok p)")
    case (Some x)
    have "sound (Option.bind (parse_factor n False (get p)) (\<lambda>p. term_loop n (interp_add x p))) (get p)"
      using 6(1) [OF Some] by (rule sound_bind)
        (rule sound_at [OF sound_plain_op [OF op_ptr_operators(1) [OF Some]] 6(2) [OF Some]])
    with Some show ?thesis by (simp add: sound_get_then)
  qed (simp add: sound_same)
next
  case (8 n l p)
  let ?q = "if ptok p = sPLUS \<or> ptok p = sMINUS then get p else p"
  have "sound (Option.bind (parse_term n l ?q) (sum_loop n)) ?q"
    using 8(1,2) [OF refl] by (rule sound_bind)
  then have "sound (map_option (\<lambda>r. if ptok p = sMINUS then interp_add OpNeg r else r)
      (Option.bind (parse_term n l ?q) (sum_loop n))) ?q"
    by (rule sound_map) (simp add: sound_plain_op sound_same)
  then show ?case by (cases "ptok p = sPLUS \<or> ptok p = sMINUS") (auto simp: Let_def sound_get_then)
next
  case (10 n p)
  show ?case
  proof (cases "sum_op (ptok p)")
    case (Some x)
    have "sound (Option.bind (parse_term n False (get p)) (\<lambda>p. sum_loop n (interp_add x p))) (get p)"
      using 10(1) [OF Some] by (rule sound_bind)
        (rule sound_at [OF sound_plain_op [OF op_ptr_operators(2) [OF Some]] 10(2) [OF Some]])
    with Some show ?thesis by (simp add: sound_get_then)
  qed (simp add: sound_same)
next
  case (12 n l p)
  have "sound (case rel_op (ptok q) of
         Some x \<Rightarrow> map_option (interp_add x) (parse_simple_expression n False (get q))
       | None \<Rightarrow> Some q) q" if q: "parse_simple_expression n l p = Some q" for q
  proof (cases "rel_op (ptok q)")
    case (Some x)
    have "sound (map_option (interp_add x) (parse_simple_expression n False (get q))) (get q)"
      using 12(2) [OF q Some] by (rule sound_map) (rule sound_plain_op [OF op_ptr_operators(3) [OF Some]])
    with Some show ?thesis by (simp add: sound_get_then)
  qed (simp add: sound_same)
  with 12(1) show ?case unfolding parse_expression.simps by (rule sound_bind)
qed (simp_all)

subsection \<open>Instructions, lists, names\<close>

lemma sound_then_instr: "sound (Some q) p \<Longrightarrow> sound (Some (add_instr i m md q)) p"
  unfolding add_instr_def by (erule sound_at) (simp add: sound_plain_op)

lemma sound_then_end: "sound (Some q) p \<Longrightarrow> sound (Some (end_instr i m md q)) p"
  by (simp add: end_instr_def sound_then_instr)

lemma sound_then_err: "sound (Some q) p \<Longrightarrow> sound (Some (err q)) p"
  by (erule sound_at) (rule sound_err)

lemma sound_then_op: "sound (Some q) p \<Longrightarrow> op_ptr x = None \<Longrightarrow> sound (Some (interp_add x q)) p"
  by (erule sound_at) (simp add: sound_plain_op)

lemma sound_then_object:
  "sound (Some q) p \<Longrightarrow> (\<And>n m. obj_ok n m x) \<Longrightarrow> (\<And>a. op_ptr (mk a) = Some a \<or> op_ptr (mk a) = None) \<Longrightarrow>
     sound (Some (add_object mk x q)) p"
  by (erule sound_at) (simp add: sound_add_object)

lemmas sound_then = sound_then_get sound_then_instr sound_then_end sound_then_err sound_same

lemma sound_bracket_end: "sound (Some (bracket_end i md la p)) p"
  by (simp add: bracket_end_def Let_def sound_then)

lemma sound_parse_instr: "sound (parse_instr n p) p"
proof -
  note e = sound_expressions(6)
  have hash: "sound (parse_hash n i md q) q" for i md q
  proof -
    have "sound (let p = get r; p = (if ptok p = sHASH then get p else p)
          in map_option (add_instr i BlockMove md) (parse_expression n False p)) r" for r
      unfolding Let_def
      by (rule sound_at [OF _ sound_map [OF e]]) (auto intro: sound_then)
    then show ?thesis
      unfolding parse_hash_def by (intro sound_bind [OF sound_get_then [OF e]] sound_if sound_then)
  qed
  have bracket: "sound (parse_bracket n i md q) q" for i md q
    unfolding parse_bracket_def by (rule sound_map [OF sound_get_then [OF e] sound_bracket_end])
  have three: "sound (if ptok r = sSTATESEP then Some (add_instr i BlockMove md r)
      else if ptok r = sCOMMA then map_option (end_instr i BitAbsoluteRelative md) (parse_expression n False (get r))
      else Some r) r" for i md r
    by (intro sound_if sound_then sound_map [OF sound_get_then [OF e]])
  have plain: "sound (parse_plain n i md l q) q" for i md l q
    unfolding parse_plain_def Let_def
    by (intro sound_bind [OF e] sound_if sound_then sound_get_then [OF sound_bind [OF e three]])
  obtain md l q where q: "instr_modifier (get p) = (md, l, q)" by (cases "instr_modifier (get p)")
  then have "sound (Some q) p"
    by (auto simp: instr_modifier_def Let_def sound_then split: if_splits option.splits)
  then show ?thesis
    unfolding parse_instr_def q Let_def prod.case
    by (rule sound_at) (intro sound_if sound_then hash bracket plain)
qed

lemma sound_list: "sound2 (list_loop n c p) p"
proof (induction n c p rule: list_loop.induct)
  case (2 n c p)
  let ?p = "if ptok p = sCOMMA then get p else p"
  have p: "sound (Some ?p) p" by (simp add: sound_then)
  have "sound (map_option snd (Option.bind (parse_expression n False ?p)
      (\<lambda>p. if ptok p = sCOMMA then list_loop n (c + 1) p else Some (c + 1, p)))) ?p" if "ptok ?p \<noteq> sSTATESEP"
  proof -
    have "sound (Option.bind (parse_expression n False ?p)
        (\<lambda>q. map_option snd (if ptok q = sCOMMA then list_loop n (c + 1) q else Some (c + 1, q)))) ?p"
      using 2 that by (intro sound_bind [OF sound_expressions(6)]) (auto simp: sound2_def sound_same Let_def)
    then show ?thesis by (simp add: map_option_bind comp_def)
  qed
  with p show ?case by (auto simp: sound2_def Let_def intro: sound_at)
qed (simp add: sound2_def)

lemma sound_counted: "(\<And>a. op_ptr (mk a) = Some a \<or> op_ptr (mk a) = None) \<Longrightarrow> sound (counted n mk p) p"
  unfolding counted_def parse_list_def
  by (rule sound2_map [OF sound_list]) (simp add: sound_then sound_then_object)

lemma obj_ok_ident [simp]:
  "obj_ok n m (x\<lparr>is_local := b\<rparr>) = obj_ok n m x" "obj_ok n m (x\<lparr>is_global := b\<rparr>) = obj_ok n m x"
  "obj_ok n m (x\<lparr>readonly := b\<rparr>) = obj_ok n m x"
  by (simp_all add: obj_ok_def)

lemma obj_ok_str: "obj_ok n m x \<Longrightarrow> obj_ok n m (x\<lparr>val := Str t\<rparr>)"
  by (simp add: obj_ok_def)

lemma object_new_ok: "map_ok (desc (object_new c f)) \<and> desc (object_new c f) = Null \<and> parent (object_new c f) = None"
  using obj_ok_new [of 0 0 c f] by (simp add: obj_ok_def object_new_def)

lemma map_fits_Null [simp]: "map_ok (Null :: ptr map_node)"
  using object_new_ok by metis

lemma sound_ident_def:
  assumes "parse_ident_def p = (x, q)" shows "sound (Some q) p" "obj_ok n m x"
  using assms obj_ok_new [of n m Const StringForm]
  by (auto intro!: obj_ok_str simp: parse_ident_def_def Let_def sound_then split: if_splits)

lemma sound_alloc:
  assumes "alloc x (asm p) = (v, s)" "\<And>n m. obj_ok n m x"
  shows "sound (Some (p\<lparr>asm := s\<rparr>)) p" "v < length (heap (asm (p\<lparr>asm := s\<rparr>)))"
  using assms safe_alloc [of "asm p" x] sound_asm [of p s] by (auto simp: alloc_def)

lemma sound_assignment:
  assumes "v < length (heap (asm p))" shows "sound (parse_assignment n v p) p"
proof -
  have "sound (map_option (interp_add (OpPopVar v)) (parse_expression n False (get p))) (get p)"
  proof (rule sound_map [OF sound_expressions(6)])
    fix q assume "grows (get p) q"
    then have "v < length (heap (asm q))" using assms by (simp add: grows_def get_def)
    then show "sound (Some (interp_add (OpPopVar v) q)) q" by (intro sound_interp_add) simp
  qed
  then show ?thesis by (simp add: parse_assignment_def sound_get_then sound_err)
qed

lemma sound_new_assignment:
  assumes "\<And>n m. obj_ok n m x"
  shows "sound (let (v, s) = alloc x (asm p) in parse_assignment n v (p\<lparr>asm := s\<rparr>)) p"
proof -
  obtain v s where a: "alloc x (asm p) = (v, s)" by (cases "alloc x (asm p)")
  note s = sound_alloc [OF a assms]
  show ?thesis unfolding a Let_def prod.case by (rule sound_at [OF s(1) sound_assignment [OF s(2)]])
qed

lemma sound_let: "sound (parse_let n c p) p"
proof -
  obtain x q where i: "parse_ident_def (get p) = (x, q)" by (cases "parse_ident_def (get p)")
  have q: "sound (Some q) p" using sound_ident_def(1) [OF i] by (rule sound_get_then)
  have "sound (let (v, s) = alloc (x\<lparr>readonly := c\<rparr>) (asm q) in parse_assignment n v (q\<lparr>asm := s\<rparr>)) q"
    by (rule sound_new_assignment) (simp add: sound_ident_def(2) [OF i])
  with q show ?thesis unfolding parse_let_def i by (simp add: Let_def sound_at)
qed

lemma sound_recursive_params: "sound (recursive_params n p) p"
proof (induction n p rule: recursive_params.induct)
  case (2 n p)
  let ?p = "if ptok p = sCOMMA then get p else p"
  have p: "sound (Some ?p) p" by (simp add: sound_then)
  have "sound (map_option (add_object OpPopVar (name_object (tok_id ?p) False)) (recursive_params n (get ?p))) ?p"
    if "ptok ?p = sIDENT"
    by (rule sound_map [OF sound_get_then]) (use 2 that in \<open>simp_all add: Let_def sound_then_object sound_same\<close>)
  with p show ?case by (auto simp: Let_def intro: sound_at)
qed simp

lemma safe_macros: "safe s (s\<lparr>macros := macros s @ [[]]\<rparr>)"
proof -
  have "heap_ok (s\<lparr>macros := macros s @ [[]]\<rparr>)" if "heap_ok s"
    using that by (auto simp: heap_ok_def ops_ok_def intro: obj_ok_mono)
  then show ?thesis by (auto simp: safe_def asm_ok_def stack_ok_def stack_view_def)
qed

lemma sound_macro_begin: "sound (interp_macro_begin nm p) p"
proof -
  let ?p = "p\<lparr>macro_def := True\<rparr>"
  let ?s = "(asm p)\<lparr>macros := macros (asm p) @ [[]]\<rparr>"
  let ?x = "(object_new Macro MacroForm)\<lparr>val := MacroPtr (length (macros (asm p)))\<rparr>"
  let ?t = "snd (alloc ?x ?s)"
  have t: "safe ?s ?t"
    using object_new_ok [of Macro MacroForm] by (intro safe_alloc) (simp add: obj_ok_def)
  have safe: "safe (asm p) u" if "scope_add_object nm (length (heap (asm p))) ?t = Some u" for u
    using safe_trans [OF safe_macros safe_trans [OF t safe_add_object [OF that]]] by (simp add: alloc_def)
  have "sound (interp_macro_begin nm p) ?p"
    unfolding interp_macro_begin_def using safe by (intro sound_on_asm) (simp add: alloc_def Let_def)
  moreover have "sound (Some ?p) p" by (intro sound_Some parse_ok_same) simp_all
  ultimately show ?thesis by (rule sound_at [rotated])
qed

lemma sound_macro_def: "sound (parse_macro_def n x p) p"
proof -
  have "sound (map_option (\<lambda>p. if ptok p = sBLOCKSTART then get p else p)
      (if ptok q \<noteq> sBLOCKSTART then recursive_params n q else Some q)) q" for q
    by (rule sound_map) (auto intro: sound_recursive_params sound_then)
  then show ?thesis
    by (auto simp: parse_macro_def_def intro!: sound_bind [OF sound_macro_begin] split: payload.split)
qed

lemma sound_macro_call: "sound (parse_macro_call n p) p"
proof -
  have rest: "sound (map_option (add_object OpMacroCall ((object_new Macro StringForm)\<lparr>val := Str nm\<rparr>))
      (on_asm (\<lambda>s. let (a, s) = alloc (object_new Const MacroForm) s in scope_add_object nm a s) q)) q" for nm q
  proof (rule sound_map)
    have "safe (asm q) t" if "scope_add_object nm (length (heap (asm q))) (snd (alloc (object_new Const MacroForm) (asm q))) = Some t" for t
      using safe_trans [OF safe_alloc safe_add_object [OF that]] by (simp add: alloc_def)
    then show "sound (on_asm (\<lambda>s. let (a, s) = alloc (object_new Const MacroForm) s in scope_add_object nm a s) q) q"
      by (intro sound_on_asm) (simp add: alloc_def Let_def)
  qed (simp add: sound_then_object sound_same)
  show ?thesis unfolding parse_macro_call_def Let_def
    by (rule sound2_bind, rule sound2_at [OF sound_get])
      (auto simp: parse_list_def sound_list intro!: rest [unfolded Let_def] sound_get_then [OF rest [unfolded Let_def]])
qed

subsection \<open>Directives\<close>

lemma sound_same_asm: "asm q = asm p \<Longrightarrow> code q = code p \<Longrightarrow> sound (Some q) p"
  by (rule sound_Some) (rule parse_ok_same)

lemma sound_proc_params: "sound2 (proc_params n ps p) p"
proof (induction n ps p rule: proc_params.induct)
  case (2 n ps p)
  show ?case
  proof (cases "ptok p \<noteq> sRPAREN \<and> ptok p \<noteq> sSTATESEP \<and> ptok p \<noteq> sEOF")
    case True
    define p1 where "p1 = (if ptok p = sVAR then get p else p)"
    obtain qs p2 where p2: "(if is_word (ptok p1)
        then (if length ps < 8 then ps @ [(type_name_to_ref (tok_id p1), ptok p = sVAR)] else ps, get p1) else (ps, p1)) = (qs, p2)"
      by (meson surj_pair)
    define p3 where "p3 = (if ptok p2 = sCOMMA then get p2 else p2)"
    have "sound (Some p1) p" by (simp add: p1_def sound_then)
    then have "sound (Some p2) p" using p2 by (auto simp: sound_then split: if_splits)
    then have p3: "sound (Some p3) p" by (simp add: p3_def sound_then)
    have "sound2 (proc_params n qs p3) p3"
      using 2 [OF True refl p1_def p2 [symmetric] refl p3_def] by simp
    moreover have "proc_params (Suc n) ps p = proc_params n qs p3"
      using True unfolding proc_params.simps Let_def p1_def [symmetric] p2 prod.case p3_def [symmetric] by simp
    ultimately show ?thesis using p3 by (simp add: sound2_at)
  next
    case False
    then show ?thesis by (auto simp: sound2_Some sound_then)
  qed
qed (simp add: sound2_def)

lemma sound_proc_sig: "sound (parse_proc_sig n p) p"
proof -
  let ?ret = "\<lambda>q. if ptok q = sCOLON then
       (let p = get q in if is_word (ptok p) then (type_name_to_ref (tok_id p), get p) else (- 9, p)) else (- 9, q)"
  have ret: "sound (Some (let (ret, q) = ?ret q in q\<lparr>sigs := f q ret\<rparr>)) q" for q and f :: "parse \<Rightarrow> u32 \<Rightarrow> proc_sig list"
  proof -
    obtain w r where r: "?ret q = (w, r)" by (meson surj_pair)
    then have "sound (Some r) q" by (auto simp: Let_def sound_then split: if_splits)
    moreover have "sound (Some (r\<lparr>sigs := f r w\<rparr>)) r" by (rule sound_same_asm) simp_all
    ultimately show ?thesis by (simp only: r) (simp add: sound_at)
  qed
  have par: "sound2 (if ptok q = sLPAREN then proc_params n [] (get q) else Some ([], q)) q" for q
    using sound2_at [OF sound_get sound_proc_params] by (simp add: sound2_Some sound_same)
  have main: "sound (map_option (\<lambda>(ps, q). let (ret, q) = ?ret q in
      q\<lparr>sigs := sigs q @ [\<lparr>sig_name = nm, params = ps, return_type = ret\<rparr>]\<rparr>)
      (if ptok q = sLPAREN then proc_params n [] (get q) else Some ([], q))) q" for q nm
    by (rule sound2_map [OF par]) (simp only: prod.case ret)
  show ?thesis unfolding parse_proc_sig_def Let_def
    by (rule sound_if, rule sound_err, rule sound_if, rule sound_None, rule sound_get_then, rule main [unfolded Let_def])
qed

lemma sound_include: "sound (Some (parse_include p)) p"
proof -
  have "sound (Some ((get p)\<lparr>scan := x\<rparr>)) p" for x
    by (rule sound_at [OF sound_get sound_same_asm]) simp_all
  then show ?thesis by (simp add: parse_include_def Let_def sound_then split: option.split)
qed

lemma safe_add_members: "m < length (heap s) \<Longrightarrow> safe s (add_members m es s)"
proof (induction m es s rule: add_members.induct)
  case (2 m nm v es s)
  let ?s = "snd (alloc (int_object (scast v)) s)"
  let ?t = "update m (\<lambda>x. x\<lparr>desc := map_set (desc x) (map (\<lambda>b. char_of (unat b)) nm) (length (heap s))\<rparr>) ?s"
  have "safe s ?s" by (rule safe_alloc) simp
  moreover have "safe ?s ?t" by (rule safe_store) simp
  moreover have "safe ?t (add_members m es ?t)" using 2 by (simp add: alloc_def)
  ultimately show ?case by (simp add: alloc_def) (meson safe_trans)
qed simp

lemma sound_import: "sound (parse_import n p) p"
proof -
  have mem: "sound (on_asm (\<lambda>s. let (m, s) = alloc (object_new Var NoTypeForm) s
      in map_option (add_members m es) (scope_add_object nm m s)) q) q" for nm es q
  proof (rule sound_on_asm)
    fix t
    let ?s = "snd (alloc (object_new Var NoTypeForm) (asm q))" and ?m = "length (heap (asm q))"
    assume "(let (m, s) = alloc (object_new Var NoTypeForm) (asm q) in map_option (add_members m es) (scope_add_object nm m s)) = Some t"
    then obtain u where u: "scope_add_object nm ?m ?s = Some u" "t = add_members ?m es u"
      by (auto simp: alloc_def)
    have s: "safe (asm q) ?s" by (rule safe_alloc) simp
    have a: "safe ?s u" using u(1) by (rule safe_add_object) simp
    have "safe u t" if "asm_ok (asm q)"
    proof -
      have "length (heap ?s) \<le> length (heap u)" using a s that by (simp add: safe_def)
      then show ?thesis unfolding u(2) by (intro safe_add_members) simp
    qed
    with s a show "safe (asm q) t" by (auto simp: safe_def)
  qed
  have "sound (import_module n nm p) p" for nm
  proof (cases "smb p nm")
    case (Some d)
    have "sound (Option.bind (as_import n (cstr nm) d (imps p)) (\<lambda>(is, es).
        on_asm (\<lambda>s. let (m, s) = alloc (object_new Var NoTypeForm) s
          in map_option (add_members m es) (scope_add_object nm m s)) (p\<lparr>imps := is\<rparr>))) p"
    proof (cases "as_import n (cstr nm) d (imps p)")
      case (Some r)
      have "sound (Some (p\<lparr>imps := fst r\<rparr>)) p" by (rule sound_same_asm) simp_all
      from sound_at [OF this mem] Some show ?thesis by (simp add: split_def)
    qed simp
    with Some show ?thesis by (simp add: import_module_def)
  qed (simp add: import_module_def sound_err)
  then show ?thesis unfolding parse_import_def by (auto intro!: sound_map sound_get sound_err)
qed

lemma sound_section: "sound (parse_section p) p"
proof (cases "ptok p = sSTRING")
  case True
  have n: "number_after_comma v q = (w, r) \<Longrightarrow> asm r = asm q \<and> code r = code q" for v w q r
    by (auto simp: number_after_comma_def Let_def get_def split: if_splits)
  obtain ty q where q: "number_after_comma SHT_PROGBITS (get p) = (ty, q)" by (meson surj_pair)
  obtain fl r where r: "number_after_comma SHF_EXECINSTR q = (fl, r)" by (meson surj_pair)
  have "asm r = asm p \<and> code r = code p" using n [OF q] n [OF r] by (simp add: get_def)
  with True show ?thesis
    by (cases "elf_section_create (Some (tok_id p)) fl ty (elf r)")
      (auto simp: parse_section_def q r Let_def intro!: sound_same_asm)
qed (simp add: parse_section_def sound_same)

lemma sound_plain_directive: "sound (plain_directive n t md p) p"
proof -
  have list: "sound (counted n mk p) p" if "mk \<in> {OpError, OpMessage, OpTitle, OpSubheading}" for mk
    using that by (intro sound_counted) auto
  have data: "sound (parse_data n m p) p" "sound (parse_text n m p) p" "sound (parse_fill n m p) p" for m
    unfolding parse_data_def parse_text_def parse_fill_def by (rule sound_counted, cases m; simp)+
  show ?thesis
    unfolding plain_directive_def parse_message_def parse_title_def parse_subheading_def
    by (intro sound_if sound_include sound_import sound_same sound_section data list sound_plain_op sound_err) simp_all
qed

lemma sound_open_block: "sound (open_block p) p"
proof -
  let ?s = "snd (alloc (object_new Var NoTypeForm) (asm p))" and ?a = "length (heap (asm p))"
  let ?p = "p\<lparr>asm := ?s\<rparr>"
  have s: "safe (asm p) ?s" by (rule safe_alloc) simp
  have push: "safe ?s (scope_push_object ?a u)" if u: "scope_add_object ''block_unique'' ?a ?s = Some u" for u
  proof -
    have a: "safe ?s u" using u by (rule safe_add_object) simp
    have "safe u (scope_push_object ?a u)" if "asm_ok ?s"
      using a that by (intro safe_scope_push) (auto simp: safe_def)
    with a show ?thesis by (auto simp: safe_def)
  qed
  have "sound (on_asm (\<lambda>s. map_option (scope_push_object ?a) (scope_add_object ''block_unique'' ?a s)) ?p) ?p"
    by (rule sound_on_asm) (auto intro: push)
  then have "sound (map_option (\<lambda>p. get (interp_add (OpScopeBegin ?a) p))
      (on_asm (\<lambda>s. map_option (scope_push_object ?a) (scope_add_object ''block_unique'' ?a s)) ?p)) ?p"
    by (rule sound_map) (auto simp: grows_def intro!: sound_then_get sound_interp_add)
  then show ?thesis
    using sound_asm [OF s] by (simp add: open_block_def alloc_def sound_at)
qed

lemma sound_close_block: "sound (Some (close_block p)) p"
  unfolding close_block_def
  by (intro sound_then_get sound_then_op sound_asm safe_scope_pop) simp

subsection \<open>Statements\<close>

lemma sound_directive_modifier: "directive_modifier p = (md, q) \<Longrightarrow> sound (Some q) p"
  by (auto simp: directive_modifier_def Let_def sound_then split: if_splits option.splits)

lemma sound_sym: "sound (Some (p\<lparr>scan := x\<rparr>)) p"
  by (rule sound_same_asm) simp_all

lemma sound_statements:
  "sound (parse_statement n p) p" "sound (parse_named n p) p" "sound (parse_directive n p) p"
  "sound (parse_if n p) p" "sound (else_arms n p) p" "sound (parse_block n p) p"
proof (induction n p and n p and n p and n p and n p and n p
    rule: parse_statement_parse_named_parse_directive_parse_if_else_arms_parse_block.induct)
  case (2 n p)
  show ?case
  proof (cases "is_macro p")
    case (Some m)
    then show ?thesis
      using 2 unfolding parse_statement.simps
      by (simp add: Some sound_then sound_parse_instr sound_macro_call sound_let sound_open_block sound_close_block)
  qed (use 2 in \<open>simp add: sound_then sound_parse_instr\<close>)
next
  case (4 n p)
  obtain x q where i: "parse_ident_def p = (x, q)" by (cases "parse_ident_def p")
  let ?x = "x\<lparr>is_local := ptok p = sPERIOD\<rparr>"
  have q: "sound (Some q) p" using i by (rule sound_ident_def(1))
  have x: "obj_ok n m ?x" for n m using sound_ident_def(2) [OF i] by simp
  have assign: "sound (let (v, s) = alloc ?x (asm q) in map_option get (parse_assignment n v (q\<lparr>asm := s\<rparr>))) q"
    using sound_map [OF sound_new_assignment [OF x, of q n] sound_get] by (simp add: Let_def split_def)
  have macro: "sound (map_option (\<lambda>p. get (interp_macro_end p)) (Option.bind (parse_macro_def n ?x (get q)) (parse_block n))) q"
    if "ptok q = sMACRO" "\<not> is_proc (ptok p = sPERIOD) ?x"
    by (rule sound_map [OF sound_get_then [OF sound_bind [OF sound_macro_def]]])
      (use 4(1) [OF refl refl i [symmetric] refl] that in
        \<open>auto simp: interp_macro_end_def intro!: sound_then_get sound_same_asm\<close>)
  have label: "sound (if is_instr (ptok r) then parse_instr n r else if is_directive (ptok r) then parse_directive n r else Some r) q"
    if r: "r = add_object OpLabel ?x q" and "ptok q \<noteq> sBECOMES" "ptok q \<noteq> sMACRO" "\<not> is_proc (ptok p = sPERIOD) ?x" for r
  proof (rule sound_at)
    show "sound (Some r) q" unfolding r by (rule sound_then_object [OF sound_same x]) simp
    show "sound (if is_instr (ptok r) then parse_instr n r else if is_directive (ptok r) then parse_directive n r else Some r) r"
      using 4(2) [OF refl refl i [symmetric] refl] that by (simp add: sound_parse_instr sound_same)
  qed
  have "sound (if is_proc (ptok p = sPERIOD) ?x then parse_proc_sig n q
      else if ptok q = sBECOMES then (let (v, s) = alloc ?x (asm q) in map_option get (parse_assignment n v (q\<lparr>asm := s\<rparr>)))
      else if ptok q = sMACRO then
        map_option (\<lambda>p. get (interp_macro_end p)) (Option.bind (parse_macro_def n ?x (get q)) (parse_block n))
      else (let r = add_object OpLabel ?x q in
         if is_instr (ptok r) then parse_instr n r else if is_directive (ptok r) then parse_directive n r else Some r)) q"
    unfolding Let_def [of "add_object OpLabel ?x q"]
    by (intro sound_if sound_proc_sig assign macro label refl)
  with q show ?case by (simp add: i Let_def sound_at)
next
  case (6 n p)
  obtain md q where d: "directive_modifier (get p) = (md, q)" by (cases "directive_modifier (get p)")
  have q: "sound (Some q) p" using sound_directive_modifier [OF d] by (rule sound_get_then)
  have "sound (map_option (\<lambda>p. p\<lparr>scan := (scan p)\<lparr>sym := sEND\<rparr>\<rparr>) (Option.bind (parse_if n (get q)) (parse_message n OpErrorIf))) q"
    if "ptok p = sERRORIF"
    by (rule sound_map [OF sound_get_then [OF sound_bind]])
      (use 6 [OF refl refl d [symmetric] that] in \<open>simp_all add: sound_sym parse_message_def sound_counted\<close>)
  with q sound_plain_directive show ?case by (simp add: d Let_def sound_at)
next
  case (8 n p)
  have "sound (map_option (interp_add OpScopeEnd)
      (Option.bind (parse_block n (get (interp_add OpIfBegin q))) (\<lambda>p. else_arms n (get p)))) q"
    if q: "parse_expression n False (get p) = Some q" "ptok q = sBLOCKSTART" for q
  proof (rule sound_at)
    show "sound (Some (get (interp_add OpIfBegin q))) q" by (intro sound_then_get sound_plain_op) simp
    show "sound (map_option (interp_add OpScopeEnd)
      (Option.bind (parse_block n (get (interp_add OpIfBegin q))) (\<lambda>p. else_arms n (get p)))) (get (interp_add OpIfBegin q))"
      using 8(1) [OF q] 8(2) [OF q]
      by (intro sound_map [OF sound_bind]) (auto intro: sound_get_then sound_plain_op)
  qed
  then show ?case unfolding parse_if.simps
    by (intro sound_bind [OF sound_get_then [OF sound_expressions(6)]]) (simp add: sound_err)
next
  case (10 n p)
  let ?p = "get (interp_add OpScopeEnd p)"
  have p: "sound (Some ?p) p" by (intro sound_then_get sound_plain_op) simp
  have begins: "sound (map_option get (parse_block n (get (interp_add x q)))) q"
    if "sound (parse_block n (get (interp_add x q))) (get (interp_add x q))" "op_ptr x = None" for x q
  proof (rule sound_map [OF sound_at [OF _ that(1)] sound_get])
    show "sound (Some (get (interp_add x q))) q" using that(2) by (intro sound_then_get sound_plain_op)
  qed
  let ?arm = "if ptok ?p = sIF then
        Option.bind (parse_expression n False (get ?p)) (\<lambda>p.
          if ptok p = sBLOCKSTART then map_option get (parse_block n (get (interp_add OpElseIfBegin p))) else Some p)
      else if ptok ?p = sBLOCKSTART then map_option get (parse_block n (get (interp_add OpElseBegin ?p)))
      else Some (err ?p)"
  show ?case
  proof (cases "ptok p = sELSE")
    case True
    have arm: "sound ?arm ?p"
    proof (rule sound_if)
      assume t: "ptok ?p = sIF"
      show "sound (Option.bind (parse_expression n False (get ?p)) (\<lambda>p.
          if ptok p = sBLOCKSTART then map_option get (parse_block n (get (interp_add OpElseIfBegin p))) else Some p)) ?p"
        by (rule sound_bind [OF sound_get_then [OF sound_expressions(6)]])
          (rule sound_if, rule begins, use 10(1) [OF True refl t] in \<open>simp_all add: sound_same\<close>)
    next
      assume "ptok ?p \<noteq> sIF"
      with 10(2) [OF True refl this]
      show "sound (if ptok ?p = sBLOCKSTART then map_option get (parse_block n (get (interp_add OpElseBegin ?p)))
          else Some (err ?p)) ?p"
        by (intro sound_if begins sound_err) simp_all
    qed
    have "sound (Option.bind ?arm (else_arms n)) ?p"
      using arm by (rule sound_bind) (rule 10(3) [OF True refl])
    with True p show ?thesis by (simp add: Let_def sound_at)
  qed (simp add: sound_same)
next
  case (12 n p)
  then show ?case unfolding parse_block.simps by (intro sound_bind) (auto intro: sound_same)
qed simp_all

lemma sound_file: "sound (parse_asm_file n p) p"
proof (induction n p rule: parse_asm_file.induct)
  case (2 n p)
  then show ?case unfolding parse_asm_file.simps
    by (intro sound_bind [OF sound_statements(1)]) (auto intro: sound_same)
qed simp


lemma parse_ok_start: "parse_ok (parse_start t)"
  using asm_ok_init [of "demo EM_816"]
  by (simp add: parse_ok_def parse_start_def ops_ok_def code_ok_def demo_def demo_section_def vec_ok_empty)


end
