(* ===== verification/Passes.thy ===== *)
theory Passes
  imports Wellformed ElfWrite
begin

text \<open>
  The passes of the assembler: \<open>interp_run\<close> (\<open>as-c/src/interp.c\<close>) runs the operations of every section
  once, \<open>as_compile\<close> (\<open>as-c/src/as.c\<close>) parses a source file, runs passes until two of them
  assemble the same number of bytes, and then the pass that counts; \<open>as_open_output\<close> and
  \<open>as_close_output\<close> are what comes before and after.

  Whether there are two such passes depends on the program. The result of a loop of passes is \<open>None\<close> when
  there are not, and \<open>Some None\<close> when a pass uses a null pointer or leaves an array.
\<close>

subsection \<open>One section\<close>

text \<open>
  What the code generator sees of a section: \<open>buf_reset\<close> releases the bytes of the pass before. Only
  the address and the bytes change while it is filled.
\<close>

definition load_section :: "esec \<Rightarrow> elf_section" where
  "load_section s = \<lparr>sh_type = h_type (shdr s), sh_flags = h_flags (shdr s), sh_addr = h_addr (shdr s), data = vec_empty\<rparr>"

definition store_section :: "elf_section \<Rightarrow> esec \<Rightarrow> esec" where
  "store_section x s = set_bytes (items (data x)) (s\<lparr>shdr := (shdr s)\<lparr>h_addr := sh_addr x\<rparr>\<rparr>)"

definition begin_section :: "elf_section \<Rightarrow> asm \<Rightarrow> asm" where
  "begin_section x s =
     s\<lparr>gen := codegen_setlongi False (codegen_setlonga False (codegen_addr (ucast (sh_addr x)) ((gen s)\<lparr>sec := x\<rparr>))),
       pc := 0, dpage := 0, dbreg := 0, pbreg := 0, stack := vec_empty, stack_pointer := 0\<rparr>"

text \<open>Sections without operations only become the current one.\<close>

definition run_section :: "nat \<Rightarrow> nat \<Rightarrow> parse \<Rightarrow> (u32 \<times> parse) option" where
  "run_section d i p =
     (let c = (elf p)\<lparr>current := Some i\<rparr> in
      if code p i = [] then Some (0, p\<lparr>elf := c\<rparr>)
      else map_option (\<lambda>(_, t).
             (of_nat (sh_size (sec (gen t))),
              p\<lparr>asm := t\<lparr>stack := vec_empty\<rparr>, macro_def := False,
                elf := upd_section i (store_section (sec (gen t))) c\<rparr>))
           (interp_interp d (code p i) start_cond (begin_section (load_section (sections c ! i)) (asm p))))"

fun run_sections :: "nat \<Rightarrow> nat list \<Rightarrow> u32 \<Rightarrow> parse \<Rightarrow> (u32 \<times> parse) option" where
  "run_sections d [] len p = Some (len, p)"
| "run_sections d (i # is) len p = Option.bind (run_section d i p) (\<lambda>(n, p). run_sections d is (len + n) p)"

text \<open>\<open>while (scope->parent != 0) scope = scope->parent\<close>\<close>

fun outermost :: "nat \<Rightarrow> asm \<Rightarrow> ptr \<Rightarrow> ptr option" where
  "outermost 0 s a = None"
| "outermost (Suc n) s a = (case parent (deref s a) of None \<Rightarrow> Some a | Some b \<Rightarrow> outermost n s b)"

definition interp_run :: "nat \<Rightarrow> parse \<Rightarrow> (u32 \<times> parse) option" where
  "interp_run d p =
     Option.bind (outermost (length (heap (asm p)) + 1) (asm p) (scope (asm p))) (\<lambda>a.
       run_sections d [0..<length (sections (elf p))] 0 (p\<lparr>asm := (asm p)\<lparr>scope := a\<rparr>\<rparr>))"

subsection \<open>The loop of passes\<close>

text \<open>\<open>_pass\<close> has eight bits; the code generator's copy of it is an \<open>int\<close>.\<close>

definition set_pass :: "u8 \<Rightarrow> parse \<Rightarrow> parse" where
  "set_pass k p = p\<lparr>asm := (asm p)\<lparr>pass := k, gen := (gen (asm p))\<lparr>current_pass := uint k\<rparr>\<rparr>\<rparr>"

definition next_pass :: "nat \<Rightarrow> parse \<Rightarrow> (u32 \<times> parse) option" where
  "next_pass d p = interp_run d (set_pass (pass (asm p) + 1) p)"

text \<open>\<open>while (code_len != last_code_len)\<close>, for any kind of pass.\<close>

partial_function (option) until_stable ::
    "('s \<Rightarrow> (u32 \<times> 's) option) \<Rightarrow> u32 \<Rightarrow> (u32 \<times> 's) option \<Rightarrow> 's option option" where
  "until_stable f prev r =
     (case r of
        None \<Rightarrow> Some None
      | Some (len, s) \<Rightarrow> if len = prev then Some (Some s) else until_stable f len (f s))"

declare until_stable.simps [code]

definition run_passes :: "nat \<Rightarrow> parse \<Rightarrow> parse option option" where
  "run_passes d p =
     map_option (\<lambda>r. Option.bind r (\<lambda>q. map_option snd (interp_run d (set_pass 0 q))))
       (until_stable (next_pass d) 0 (next_pass d p))"

subsection \<open>The symbol table\<close>

text \<open>
  \<open>int_val\<close> of a symbol that holds a string is the low half of a pointer; \<open>bits\<close> says what it reads.
\<close>

definition symbol_value :: "(obj \<Rightarrow> u32) \<Rightarrow> obj \<Rightarrow> u32" where
  "symbol_value bits x = (case int_val x of Some v \<Rightarrow> ucast v | None \<Rightarrow> bits x)"

fun as_write_symbols :: "(obj \<Rightarrow> u32) \<Rightarrow> asm \<Rightarrow> ptr map_node \<Rightarrow> elf_context \<Rightarrow> elf_context option" where
  "as_write_symbols bits s Null c = Some c"
| "as_write_symbols bits s (MapNode paint l k a r) c =
     Option.bind (as_write_symbols bits s l c) (\<lambda>c.
       Option.bind
         (let x = deref s a in
          if is_local x then Some c
          else elf_symbol_create k (symbol_value bits x) 0 (push_bit 4 (if is_global x then STB_GLOBAL else 0)) c)
         (as_write_symbols bits s r))"

subsection \<open>A source file\<close>

definition bf_closed :: "parse \<Rightarrow> parse" where
  "bf_closed p = p\<lparr>scan := (scan p)\<lparr>files := tl (files (scan p))\<rparr>\<rparr>"

text \<open>\<open>bf_open\<close>, then \<open>scanner_start\<close> and the first token.\<close>

definition open_source :: "int list \<Rightarrow> parse \<Rightarrow> parse" where
  "open_source content p = p\<lparr>scan := (scan p)\<lparr>files := bf_open content (files (scan p))\<rparr>\<rparr>"

definition start_parse :: "int list \<Rightarrow> parse \<Rightarrow> parse" where
  "start_parse content p =
     get (p\<lparr>scan := scanner_start ((scan p)\<lparr>files := bf_open content (files (scan p))\<rparr>)\<rparr>)"

definition new_source :: "parse \<Rightarrow> parse" where
  "new_source p = p\<lparr>asm := (asm p)\<lparr>pass := 1, error_count := 0\<rparr>\<rparr>"

definition as_compile :: "(obj \<Rightarrow> u32) \<Rightarrow> nat \<Rightarrow> nat \<Rightarrow> string \<Rightarrow> parse \<Rightarrow> parse option option" where
  "as_compile bits n d name p =
     (case fs p name of
        None \<Rightarrow> Some (Some (err (new_source p)))
      | Some content \<Rightarrow>
          case (if as_file_type name = FileAsmSrc then parse_asm_file n (start_parse content (new_source p))
                else Some (err (open_source content (new_source p)))) of
            None \<Rightarrow> None
          | Some q \<Rightarrow>
              if error_count (asm q) = 0
              then map_option (\<lambda>r. Option.bind r (\<lambda>t.
                       map_option (\<lambda>c. t\<lparr>elf := c\<rparr>)
                         (as_write_symbols bits (asm t) (desc (deref (asm t) (scope (asm t)))) (elf t))))
                     (run_passes d (bf_closed q))
              else Some (Some (bf_closed q)))"

subsection \<open>The output file\<close>

definition ET_DYN :: u16 where "ET_DYN = 3"

text \<open>The processor and the type of a new output file; \<open>None\<close> where no file is made.\<close>

fun output_kind :: "file_type \<Rightarrow> (u16 \<times> u16) option" where
  "output_kind FileExecutable = Some (EM_816, ET_EXEC)"
| "output_kind FileObject = Some (EM_816, ET_REL)"
| "output_kind FileLib = Some (EM_816, ET_EXEC)"
| "output_kind FileDylib = Some (EM_816, ET_DYN)"
| "output_kind File816 = Some (EM_816, ET_EXEC)"
| "output_kind FileNone = Some (EM_02, ET_EXEC)"
| "output_kind FileBinary = Some (EM_02, ET_EXEC)"
| "output_kind FileS19 = Some (EM_02, ET_EXEC)"
| "output_kind FileS28 = Some (EM_02, ET_EXEC)"
| "output_kind FileS37 = Some (EM_02, ET_EXEC)"
| "output_kind FileIntel = Some (EM_02, ET_EXEC)"
| "output_kind FileTIM = Some (EM_02, ET_EXEC)"
| "output_kind FileAsmSrc = None"
| "output_kind FileLinkMap = None"
| "output_kind FileCHeader = None"
| "output_kind FileOberonSrc = None"
| "output_kind FileUnknown = None"

definition define_bool :: "string \<Rightarrow> bool \<Rightarrow> asm \<Rightarrow> asm option" where
  "define_bool nm b s =
     (let (a, s) = alloc ((object_new Const BoolForm)\<lparr>val := payload.Num (truth b)\<rparr>) s in as_define_symbol nm a s)"

text \<open>The version, 0.0.1, is the string \<open>1\<close>.\<close>

definition create_builtin_symbols :: "asm \<Rightarrow> asm option" where
  "create_builtin_symbols s =
     (let (a, s) = alloc ((object_new Const StringForm)\<lparr>val := Str ''1''\<rparr>) s in
      Option.bind (scope_add_object ''__65AS__'' a s) (\<lambda>s.
      Option.bind (define_bool ''off'' False s) (\<lambda>s.
      Option.bind (define_bool ''on'' True s) (\<lambda>s.
      Option.bind (define_bool ''false'' False s) (\<lambda>s.
      Option.bind (define_bool ''true'' True s) (\<lambda>s.
      Option.bind (define_bool ''no'' False s) (define_bool ''yes'' True)))))))"

definition init_gen :: "u16 \<Rightarrow> elf_section \<Rightarrow> cg" where
  "init_gen machine x =
     \<lparr>addr = 0, longa = False, longi = False, reloc = [], current_pass = - 1, e_machine = machine, sec = x, log = []\<rparr>"

definition no_scan :: scan where
  "no_scan = \<lparr>files = [], ch = 0, col = 0, ident = [], ival = 0, sym = sNULL, overrun = False, line_overrun = False\<rparr>"

text \<open>
  \<open>as_init\<close>, then \<open>as_open_output\<close>: the state the source files are compiled in. The contents of the
  source and symbol files are \<open>src\<close> and \<open>smbs\<close>.
\<close>

definition as_open_output ::
    "(string \<Rightarrow> int list option) \<Rightarrow> (string \<Rightarrow> u8 list option) \<Rightarrow> string \<Rightarrow> parse option" where
  "as_open_output src smbs name =
     Option.bind (output_kind (as_file_type name)) (\<lambda>(machine, type).
     Option.bind (elf_create name machine) (\<lambda>c.
     Option.bind (create_standard_file 0 (c\<lparr>ehdr := (ehdr c)\<lparr>e_type := type\<rparr>\<rparr>)) (\<lambda>c.
     map_option (\<lambda>s.
         \<lparr>scan = no_scan, asm = s, elf = c, code = \<lambda>_. [], macro_def = False, sigs = [], imps = [],
          fs = src, smb = smbs\<rparr>)
       (create_builtin_symbols (as_init (init_gen machine (load_section (sections c ! the (current c)))))))))"

text \<open>The header fields the passes kept elsewhere.\<close>

definition final_elf :: "parse \<Rightarrow> elf_context" where
  "final_elf p =
     (elf p)\<lparr>ehdr := (ehdr (elf p))\<lparr>eh_machine := e_machine (gen (asm p)), e_entry := asm.e_entry (asm p)\<rparr>\<rparr>"

text \<open>
  The files written: none, one, or a module and its symbol file. \<open>old\<close> is what the file held before, to
  which a tape is appended. The writers of S-records and Intel hex are empty.
\<close>

definition as_close_output :: "file_type \<Rightarrow> u8 list \<Rightarrow> parse \<Rightarrow> u8 list list option" where
  "as_close_output kind old p =
     (let c = final_elf p in
      case kind of
        FileExecutable \<Rightarrow> Some [snd (elf_write_executable c)]
      | FileObject \<Rightarrow> Some [snd (elf_write_object c)]
      | FileTIM \<Rightarrow> map_option (\<lambda>(c, t). [map of_char t]) (elf_write_tim (map (\<lambda>b. char_of (unat b)) old) c)
      | FileBinary \<Rightarrow> Some [elf_write_binary c]
      | File816 \<Rightarrow>
          map_option (\<lambda>(c, m). case m of None \<Rightarrow> [] | Some m \<Rightarrow> [m, elf_write_smb (sigs p) c])
            (elf_write_816 (imps p) (reloc (gen (asm p))) c)
      | _ \<Rightarrow> Some [])"

subsection \<open>The program\<close>

fun compile_all :: "(obj \<Rightarrow> u32) \<Rightarrow> nat \<Rightarrow> nat \<Rightarrow> string list \<Rightarrow> parse \<Rightarrow> parse option option" where
  "compile_all bits n d [] p = Some (Some p)"
| "compile_all bits n d (nm # nms) p =
     (if error_count (asm p) \<noteq> 0 then Some (Some p)
      else case as_compile bits n d nm p of
             Some (Some q) \<Rightarrow> compile_all bits n d nms q
           | r \<Rightarrow> r)"

text \<open>
  \<open>main\<close> with one \<open>-o\<close> and some source files. Where there were errors, \<open>as_close_output\<close> is left out, and
  so the context is still open when \<open>as_cleanup\<close> calls \<open>codegen_close\<close>, which writes an executable.
\<close>

definition as_main ::
    "(obj \<Rightarrow> u32) \<Rightarrow> nat \<Rightarrow> nat \<Rightarrow> (string \<Rightarrow> int list option) \<Rightarrow> (string \<Rightarrow> u8 list option) \<Rightarrow> string \<Rightarrow> u8 list \<Rightarrow>
     string list \<Rightarrow> u8 list list option option" where
  "as_main bits n d src smbs out old names =
     (if names = [] then Some (Some [])
      else case as_open_output src smbs out of
        None \<Rightarrow> Some None
      | Some p \<Rightarrow>
          map_option (\<lambda>r. Option.bind r (\<lambda>q.
              if error_count (asm q) = 0 then as_close_output (as_file_type out) old q
              else Some [snd (elf_write_executable (final_elf q))]))
            (compile_all bits n d names p))"

subsection \<open>When the passes end\<close>

text \<open>The result of the pass \<open>k\<close> passes after \<open>r\<close>, and that the loop stops there.\<close>

primrec attempt :: "('s \<Rightarrow> (u32 \<times> 's) option) \<Rightarrow> (u32 \<times> 's) option \<Rightarrow> nat \<Rightarrow> (u32 \<times> 's) option" where
  "attempt f r 0 = r"
| "attempt f r (Suc k) = Option.bind (attempt f r k) (\<lambda>(_, s). f s)"

fun stops :: "('s \<Rightarrow> (u32 \<times> 's) option) \<Rightarrow> u32 \<Rightarrow> (u32 \<times> 's) option \<Rightarrow> nat \<Rightarrow> bool" where
  "stops f prev r 0 \<longleftrightarrow> r = None \<or> map_option fst r = Some prev"
| "stops f prev r (Suc k) \<longleftrightarrow>
     attempt f r (Suc k) = None \<or> map_option fst (attempt f r (Suc k)) = map_option fst (attempt f r k)"

lemma attempt_shift: "attempt f (Some (len, s)) (Suc k) = attempt f (f s) k"
  by (induction k) simp_all

lemma stops_shift: "stops f prev (Some (len, s)) (Suc k) \<longleftrightarrow> stops f len (f s) k"
proof (cases k)
  case 0
  then show ?thesis by (cases "f s") auto
next
  case (Suc j)
  have "stops f len (f s) (Suc j) \<longleftrightarrow>
      attempt f (f s) (Suc j) = None \<or> map_option fst (attempt f (f s) (Suc j)) = map_option fst (attempt f (f s) j)"
    by simp
  moreover have "stops f prev (Some (len, s)) (Suc (Suc j)) \<longleftrightarrow>
      attempt f (Some (len, s)) (Suc (Suc j)) = None \<or>
      map_option fst (attempt f (Some (len, s)) (Suc (Suc j))) = map_option fst (attempt f (Some (len, s)) (Suc j))"
    by (simp only: stops.simps)
  ultimately show ?thesis unfolding Suc attempt_shift by simp
qed

lemma until_stable_step:
  "until_stable f prev None = Some None"
  "until_stable f prev (Some (len, s)) = (if len = prev then Some (Some s) else until_stable f len (f s))"
  by (subst until_stable.simps, simp)+

lemma until_stable_ends:
  assumes "until_stable f prev r = Some x"
  shows "\<exists>k. stops f prev r k \<and> x = map_option snd (attempt f r k)"
  using assms
proof (induction rule: until_stable.raw_induct [rotated, consumes 1])
  case (1 rec f prev r x)
  show ?case
  proof (cases r)
    case None
    with 1 show ?thesis by (intro exI [of _ 0]) simp
  next
    case (Some y)
    then obtain len s where r: "r = Some (len, s)" by (cases y) auto
    show ?thesis
    proof (cases "len = prev")
      case True
      with 1 r show ?thesis by (intro exI [of _ 0]) simp
    next
      case False
      with 1(2) r have "rec f len (f s) = Some x" by simp
      from 1(1) [OF this] obtain k where "stops f len (f s) k" "x = map_option snd (attempt f (f s) k)" by blast
      then show ?thesis
        by (intro exI [of _ "Suc k"]) (simp only: r stops_shift attempt_shift)
    qed
  qed
qed

lemma until_stable_returns: "stops f prev r k \<Longrightarrow> until_stable f prev r \<noteq> None"
proof (induction k arbitrary: prev r)
  case 0
  then show ?case by (cases r) (auto simp: until_stable_step)
next
  case (Suc k)
  show ?case
  proof (cases r)
    case None
    then show ?thesis by (simp add: until_stable_step)
  next
    case (Some y)
    then obtain len s where r: "r = Some (len, s)" by (cases y) auto
    with Suc.prems have "stops f len (f s) k" by (simp only: stops_shift)
    from Suc.IH [OF this] r show ?thesis by (auto simp: until_stable_step)
  qed
qed

text \<open>
  Passes \<open>f\<close> that follow passes \<open>g\<close> on a smaller state: a step of \<open>g\<close> is one of \<open>f\<close> on related states, and
  assembles as much. Then the loop of \<open>f\<close> ends where that of \<open>g\<close> does, and only there.
\<close>

locale simulation =
  fixes f :: "'c \<Rightarrow> (u32 \<times> 'c) option" and g :: "'a \<Rightarrow> (u32 \<times> 'a) option" and R :: "'a \<Rightarrow> 'c \<Rightarrow> bool"
  assumes step: "R a c \<Longrightarrow> g a = Some (len, a') \<Longrightarrow> \<exists>c'. f c = Some (len, c') \<and> R a' c'"
begin

lemma attempt_follows:
  assumes "R a0 c0" "attempt g (Some (l0, a0)) k = Some (len, a)"
  shows "\<exists>c. attempt f (Some (l0, c0)) k = Some (len, c) \<and> R a c"
  using assms(2)
proof (induction k arbitrary: len a)
  case 0
  with assms(1) show ?case by simp
next
  case (Suc k)
  then obtain l b where b: "attempt g (Some (l0, a0)) k = Some (l, b)" "g b = Some (len, a)"
    by (auto simp: bind_eq_Some_conv)
  from Suc.IH [OF b(1)] obtain c where c: "attempt f (Some (l0, c0)) k = Some (l, c)" "R b c" by blast
  with step [OF c(2) b(2)] show ?case by auto
qed

lemma until_stable_follows:
  assumes "R a c" "until_stable g prev (Some (l0, a)) = Some (Some b)"
  shows "\<exists>e. until_stable f prev (Some (l0, c)) = Some (Some e) \<and> R b e"
proof -
  from until_stable_ends [OF assms(2)] obtain k where "stops g prev (Some (l0, a)) k" by blast
  then show ?thesis
    using assms(1,2)
  proof (induction k arbitrary: prev l0 a c)
    case 0
    then show ?case by (simp add: until_stable_step)
  next
    case (Suc k)
    show ?case
    proof (cases "l0 = prev")
      case True
      with Suc.prems show ?thesis by (simp add: until_stable_step)
    next
      case False
      with Suc.prems(3) have u: "until_stable g l0 (g a) = Some (Some b)" by (simp add: until_stable_step)
      then obtain l1 a1 where g: "g a = Some (l1, a1)" by (cases "g a") (auto simp: until_stable_step)
      from step [OF Suc.prems(2) g] obtain c1 where c: "f c = Some (l1, c1)" "R a1 c1" by blast
      have "stops g l0 (Some (l1, a1)) k" using Suc.prems(1) by (simp only: stops_shift g)
      from Suc.IH [OF this c(2)] u g c(1) False show ?thesis by (simp add: until_stable_step)
    qed
  qed
qed

lemma until_stable_hangs:
  assumes "R a c" "until_stable g prev (Some (l0, a)) = None"
  shows "until_stable f prev (Some (l0, c)) = None"
proof (rule ccontr)
  assume "until_stable f prev (Some (l0, c)) \<noteq> None"
  then obtain k where k: "stops f prev (Some (l0, c)) k" using until_stable_ends by fastforce
  have on: "\<not> stops g prev (Some (l0, a)) k" for k using assms(2) until_stable_returns by blast
  have some: "\<exists>len b. attempt g (Some (l0, a)) k = Some (len, b)" for k
    using on [of k] by (cases k) (simp_all only: stops.simps attempt.simps(1), auto simp del: attempt.simps)
  have "\<exists>len b e. attempt g (Some (l0, a)) k = Some (len, b) \<and> attempt f (Some (l0, c)) k = Some (len, e)" for k
  proof -
    from some [of k] obtain len b where "attempt g (Some (l0, a)) k = Some (len, b)" by blast
    with attempt_follows [of a c l0 k len b] assms(1) show ?thesis by blast
  qed
  then have same: "map_option fst (attempt f (Some (l0, c)) k) = map_option fst (attempt g (Some (l0, a)) k)"
    "attempt f (Some (l0, c)) k \<noteq> None" for k
    by (metis (no_types) fst_conv option.simps(9), metis option.distinct(1))
  have "stops g prev (Some (l0, a)) k"
  proof (cases k)
    case 0
    with k show ?thesis by simp
  next
    case (Suc j)
    with k same(2) [of k] have "map_option fst (attempt f (Some (l0, c)) (Suc j)) = map_option fst (attempt f (Some (l0, c)) j)"
      by (simp only: stops.simps) blast
    with Suc show ?thesis unfolding same(1) by (simp only: stops.simps) blast
  qed
  with on show False by blast
qed

end

end
