(* ===== verification/Assembling.thy ===== *)
theory Assembling
  imports Passes Selecting Symbols
begin

text \<open>
  What a pass over a source file computes. \<open>stmt_step\<close> gives a statement its meaning: the values the
  labels have for the statements that follow, in whichever pass they were set, and the bytes added to
  the section. Running the operations the parser made of a list of statements (\<open>pass_runs\<close>) is
  \<open>source_pass\<close>, the meaning of the list, on a state where \<open>models\<close> holds: the symbols in the outermost
  scope have the values of \<open>\<rho>\<close>. The statements are instructions, labels, data and empty lines, with any
  expressions over numbers and names.
\<close>

subsection \<open>Integers on the stack\<close>

text \<open>\<open>t\<close> is \<open>s\<close> with the integers \<open>vs\<close> pushed in this order, and new objects only.\<close>

definition leaves :: "asm \<Rightarrow> u64 list \<Rightarrow> asm \<Rightarrow> bool" where
  "leaves s vs t \<longleftrightarrow>
     stack_ok t \<and> t = s\<lparr>heap := heap t, stack := stack t, stack_pointer := stack_pointer t\<rparr> \<and>
     (\<exists>ps new. heap t = heap s @ new \<and> stack_view t = rev ps @ stack_view s \<and>
        list_all2 (\<lambda>p v. p < length (heap t) \<and> form (deref t p) = IntForm \<and> val (deref t p) = payload.Num v) ps vs)"

lemma leaves_refl: "stack_ok s \<Longrightarrow> leaves s [] s"
  by (simp add: leaves_def)

lemma leaves_trans:
  assumes "leaves s vs t" "leaves t ws u"
  shows "leaves s (vs @ ws) u"
proof -
  from assms(1) obtain ps new where t: "heap t = heap s @ new" "stack_view t = rev ps @ stack_view s"
    "list_all2 (\<lambda>p v. p < length (heap t) \<and> form (deref t p) = IntForm \<and> val (deref t p) = payload.Num v) ps vs"
    unfolding leaves_def by blast
  from assms(2) obtain qs new' where u: "heap u = heap t @ new'" "stack_view u = rev qs @ stack_view t"
    "list_all2 (\<lambda>p v. p < length (heap u) \<and> form (deref u p) = IntForm \<and> val (deref u p) = payload.Num v) qs ws"
    unfolding leaves_def by blast
  have "list_all2 (\<lambda>p v. p < length (heap u) \<and> form (deref u p) = IntForm \<and> val (deref u p) = payload.Num v) ps vs"
    using t(3) by (rule list_all2_mono) (auto simp: u(1) deref_def nth_append)
  then have "list_all2 (\<lambda>p v. p < length (heap u) \<and> form (deref u p) = IntForm \<and> val (deref u p) = payload.Num v)
      (ps @ qs) (vs @ ws)"
    using u(3) by (rule list_all2_appendI)
  moreover have "u = s\<lparr>heap := heap u, stack := stack u, stack_pointer := stack_pointer u\<rparr>"
    using assms unfolding leaves_def by (cases s; cases t; cases u) simp
  ultimately show ?thesis
    using assms(2) t(1,2) u(1,2) by (auto simp: leaves_def intro!: exI [of _ "ps @ qs"])
qed

lemma stack_pop_frame: "stack_pop t = Some (p, u) \<Longrightarrow> u = t\<lparr>stack := stack u, stack_pointer := stack_pointer u\<rparr>"
  by (auto simp: stack_pop_def Let_def split: if_splits option.splits)

lemma leaves_pop:
  assumes "leaves s (vs @ [v]) t"
  shows "\<exists>p u. stack_pop t = Some (p, u) \<and> leaves s vs u \<and> heap u = heap t \<and>
    form (deref u p) = IntForm \<and> val (deref u p) = payload.Num v"
proof -
  from assms obtain ps new where t: "stack_ok t" "t = s\<lparr>heap := heap t, stack := stack t, stack_pointer := stack_pointer t\<rparr>"
    "heap t = heap s @ new" "stack_view t = rev ps @ stack_view s"
    "list_all2 (\<lambda>p v. p < length (heap t) \<and> form (deref t p) = IntForm \<and> val (deref t p) = payload.Num v) ps (vs @ [v])"
    unfolding leaves_def by blast
  from t(5) obtain qs p where ps: "ps = qs @ [p]"
    "list_all2 (\<lambda>p v. p < length (heap t) \<and> form (deref t p) = IntForm \<and> val (deref t p) = payload.Num v) qs vs"
    "form (deref t p) = IntForm" "val (deref t p) = payload.Num v"
    by (auto simp: list_all2_append2 list_all2_Cons2)
  have "stack_view t = p # (rev qs @ stack_view s)" using t(4) ps(1) by simp
  from stack_pop_cons [OF t(1) this] obtain u where u: "stack_pop t = Some (p, u)" "stack_view u = rev qs @ stack_view s" "stack_ok u"
    by blast
  have h: "heap u = heap t" using stack_pop_keeps [OF u(1)] by simp
  then have d: "deref u = deref t" by (simp add: deref_def fun_eq_iff)
  have "u = s\<lparr>heap := heap u, stack := stack u, stack_pointer := stack_pointer u\<rparr>"
    using stack_pop_frame [OF u(1)] t(2) by (cases s; cases t; cases u) simp
  then have "leaves s vs u" using u t(3) ps(2) h d by (auto simp: leaves_def)
  with u(1) h d ps(3,4) show ?thesis by auto
qed

lemma leaves_push:
  assumes "leaves s vs t" "p < length (heap t)" "form (deref t p) = IntForm" "val (deref t p) = payload.Num v"
  shows "leaves s (vs @ [v]) (stack_push p t)"
proof -
  have "leaves t [v] (stack_push p t)"
  proof -
    have "stack_ok t" using assms(1) by (simp add: leaves_def)
    then have "stack_ok (stack_push p t)" "stack_view (stack_push p t) = p # stack_view t"
      by (simp_all add: stack_ok_push stack_view_push)
    moreover have "heap (stack_push p t) = heap t" "deref (stack_push p t) p = deref t p"
      by (simp_all add: stack_push_def deref_def Let_def)
    moreover have "stack_push p t = t\<lparr>stack := stack (stack_push p t), stack_pointer := stack_pointer (stack_push p t)\<rparr>"
      by (simp add: stack_push_def Let_def)
    ultimately show ?thesis using assms(2-4) by (auto simp: leaves_def intro!: exI [of _ "[p]"])
  qed
  with assms(1) show ?thesis by (rule leaves_trans)
qed

lemma leaves_push_new:
  assumes "leaves s vs t"
  shows "leaves s (vs @ [v]) (push_new (int_object v) t)"
proof -
  let ?t = "t\<lparr>heap := heap t @ [int_object v]\<rparr>"
  have "leaves t [] ?t"
    using assms by (auto simp: leaves_def stack_ok_def stack_view_def)
  from leaves_trans [OF assms this] have "leaves s vs ?t" by simp
  then have "leaves s (vs @ [v]) (stack_push (length (heap t)) ?t)"
    by (rule leaves_push) (simp_all add: deref_def int_object_def object_new_def)
  then show ?thesis by (simp add: push_new_def alloc_def)
qed

lemma op1_leaves:
  assumes "leaves s (vs @ [a]) t" "\<And>x. int_val x = Some a \<Longrightarrow> form x = IntForm \<Longrightarrow> f x = Some (int_object v)"
  shows "\<exists>u. stack_op1 f t = Some u \<and> leaves s (vs @ [v]) u"
proof -
  from leaves_pop [OF assms(1)] obtain p u where u: "stack_pop t = Some (p, u)" "leaves s vs u"
    "form (deref u p) = IntForm" "val (deref u p) = payload.Num a" by blast
  then show ?thesis
    using assms(2) [of "deref u p"] leaves_push_new [OF u(2), of v] by (auto simp: stack_op1_def int_val_def)
qed

lemma op2_leaves:
  assumes "leaves s (vs @ [a, b]) t"
    and "\<And>x y. int_val x = Some a \<Longrightarrow> form x = IntForm \<Longrightarrow> int_val y = Some b \<Longrightarrow> form y = IntForm \<Longrightarrow> f x y = Some (int_object v)"
  shows "\<exists>u. stack_op2 f t = Some u \<and> leaves s (vs @ [v]) u"
proof -
  have "leaves s ((vs @ [a]) @ [b]) t" using assms(1) by simp
  from leaves_pop [OF this] obtain q u where u: "stack_pop t = Some (q, u)" "leaves s (vs @ [a]) u"
    "form (deref u q) = IntForm" "val (deref u q) = payload.Num b" by blast
  from leaves_pop [OF u(2)] obtain p w where w: "stack_pop u = Some (p, w)" "leaves s vs w" "heap w = heap u"
    "form (deref w p) = IntForm" "val (deref w p) = payload.Num a" by blast
  have "deref w q = deref u q" using w(3) by (simp add: deref_def)
  with u w show ?thesis
    using assms(2) [of "deref w p" "deref w q"] leaves_push_new [OF w(2), of v] by (auto simp: stack_op2_def int_val_def)
qed

lemma exec_prefix_leaves:
  assumes "prefix_op t = Some x" "leaves s (vs @ [a]) u"
  shows "\<exists>w. exec_op x u = Some w \<and> leaves s (vs @ [meaning1 t a]) w"
  using assms(1)
  by (auto simp: prefix_op_def meaning1_def stack_op_defs object_ops lift1_def split: if_splits
      intro!: op1_leaves [OF assms(2)])

lemma exec_two_leaves:
  assumes "mul_op t = Some x \<or> sum_op t = Some x \<or> rel_op t = Some x" "meaning2 t a b = Some v"
    and "leaves s (vs @ [a, b]) u"
  shows "\<exists>w. exec_op x u = Some w \<and> leaves s (vs @ [v]) w"
  using assms(1,2)
  by (auto simp: mul_op_def sum_op_def rel_op_def meaning2_def stack_op_defs object_ops object_equal_def lift2_def int_val_def
      split: if_splits intro!: op2_leaves [OF assms(3)])

subsection \<open>Symbols\<close>

type_synonym env = "string \<Rightarrow> u64 option"

text \<open>Names that \<open>as_get_symbol\<close> looks up in the scopes.\<close>

definition ordinary :: "string \<Rightarrow> bool" where
  "ordinary nm \<longleftrightarrow> tokens nm = [nm] \<and> nm \<noteq> ''__FILE__'' \<and> nm \<noteq> ''__LINE__'' \<and> lk nm \<noteq> lk ''.'' \<and>
     list_all (\<lambda>k. \<not> same_nocase k nm)
       [''org'', ''addr'', ''pc'', ''longa'', ''longi'', ''cpu'', ''pass'', ''dbreg'', ''dpage'', ''pbreg'']"

definition names_ok :: "string set \<Rightarrow> bool" where
  "names_ok N \<longleftrightarrow> (\<forall>nm\<in>N. ordinary nm) \<and> inj_on lk N"

lemma ordinary_lk: "ordinary nm \<Longrightarrow> lk nm \<noteq> lk ''.''" "ordinary nm \<Longrightarrow> lk nm \<noteq> lk []"
proof -
  show "lk nm \<noteq> lk ''.''" if "ordinary nm" using that unfolding ordinary_def by blast
  show "lk nm \<noteq> lk []" if "ordinary nm"
  proof -
    have "tokens nm = [nm]" using that unfolding ordinary_def by blast
    then have "nm \<noteq> []" by (auto simp: tokens_def)
    then show ?thesis by (simp add: lk_def MAX_LABEL_def)
  qed
qed

text \<open>An undefined name reads as 0, the value of \<open>objectZero\<close>.\<close>

primrec value_in :: "env \<Rightarrow> expr \<Rightarrow> u64 option" where
  "value_in \<rho> (Num v) = Some (scast v)"
| "value_in \<rho> (Ident nm) = Some (case \<rho> nm of Some v \<Rightarrow> v | None \<Rightarrow> 0)"
| "value_in \<rho> (Pre t a) = map_option (meaning1 t) (value_in \<rho> a)"
| "value_in \<rho> (Mul t a b) = both (meaning2 t) (value_in \<rho> a) (value_in \<rho> b)"
| "value_in \<rho> (Sum t a b) = both (meaning2 t) (value_in \<rho> a) (value_in \<rho> b)"
| "value_in \<rho> (Neg a) = map_option uminus (value_in \<rho> a)"
| "value_in \<rho> (Rel t a b) = both (meaning2 t) (value_in \<rho> a) (value_in \<rho> b)"

primrec names_in :: "expr \<Rightarrow> string set" where
  "names_in (Num v) = {}"
| "names_in (Ident nm) = {nm}"
| "names_in (Pre t a) = names_in a"
| "names_in (Mul t a b) = names_in a \<union> names_in b"
| "names_in (Sum t a b) = names_in a \<union> names_in b"
| "names_in (Neg a) = names_in a"
| "names_in (Rel t a b) = names_in a \<union> names_in b"

text \<open>
  The symbols in \<open>N\<close> have the values of \<open>\<rho>\<close> in the outermost scope; \<open>hp\<close> is what the parser made, which
  stays but for the scope itself.
\<close>

definition symbol_at :: "asm \<Rightarrow> string \<Rightarrow> ptr option" where
  "symbol_at s nm = map_get (desc (deref s (scope s))) nm"

definition rooted :: "obj list \<Rightarrow> asm \<Rightarrow> bool" where
  "rooted hp s \<longleftrightarrow>
     0 < scope s \<and> scope s < length hp \<and> parent (deref s (scope s)) = None \<and> symbol_at s ''.'' = None \<and>
     symbol_at s [] = None \<and> map_ok (desc (deref s (scope s))) \<and> form (hp ! 0) = IntForm \<and> val (hp ! 0) = payload.Num 0 \<and>
     length hp \<le> length (heap s) \<and> (\<forall>j < length hp. j \<noteq> scope s \<longrightarrow> deref s j = hp ! j)"

definition agrees :: "obj list \<Rightarrow> string set \<Rightarrow> env \<Rightarrow> asm \<Rightarrow> bool" where
  "agrees hp N \<rho> s \<longleftrightarrow>
     (\<forall>nm\<in>N. case symbol_at s nm of
        None \<Rightarrow> \<rho> nm = None
      | Some a \<Rightarrow> length hp \<le> a \<and> a < length (heap s) \<and> form (deref s a) = IntForm \<and>
          (\<exists>v. val (deref s a) = payload.Num v \<and> \<rho> nm = Some v)) \<and>
     (\<forall>nm\<in>N. \<forall>nm'\<in>N. \<forall>a. symbol_at s nm = Some a \<longrightarrow> symbol_at s nm' = Some a \<longrightarrow> nm = nm')"

definition models :: "obj list \<Rightarrow> string set \<Rightarrow> env \<Rightarrow> asm \<Rightarrow> bool" where
  "models hp N \<rho> s \<longleftrightarrow> stack_ok s \<and> rooted hp s \<and> agrees hp N \<rho> s"

lemma leaves_fields:
  "leaves s vs t \<Longrightarrow> stack_ok t \<and> scope t = scope s \<and> gen t = gen s \<and> (\<exists>new. heap t = heap s @ new)"
  unfolding leaves_def by (cases s; cases t) auto

lemma deref_leaves: "leaves s vs t \<Longrightarrow> a < length (heap s) \<Longrightarrow> deref t a = deref s a"
  using leaves_fields [of s vs t] by (auto simp: deref_def nth_append)

lemma symbol_at_leaves: "leaves s vs t \<Longrightarrow> scope s < length (heap s) \<Longrightarrow> symbol_at t nm = symbol_at s nm"
  using leaves_fields [of s vs t] by (simp add: symbol_at_def deref_leaves)

lemma models_leaves:
  assumes "models hp N \<rho> s" "leaves s vs t"
  shows "models hp N \<rho> t"
proof -
  have sc: "scope s < length (heap s)" and len: "length hp \<le> length (heap s)"
    using assms(1) by (auto simp: models_def rooted_def)
  from leaves_fields [OF assms(2)] obtain new where t: "stack_ok t" "scope t = scope s" "heap t = heap s @ new" by blast
  have d: "deref t a = deref s a" if "a < length (heap s)" for a using deref_leaves [OF assms(2) that] .
  have r: "rooted hp t"
    using assms(1) sc len t d unfolding models_def rooted_def by (auto simp: symbol_at_leaves [OF assms(2)])
  have "agrees hp N \<rho> t"
    unfolding agrees_def
  proof (intro conjI)
    show "\<forall>nm\<in>N. \<forall>nm'\<in>N. \<forall>a. symbol_at t nm = Some a \<longrightarrow> symbol_at t nm' = Some a \<longrightarrow> nm = nm'"
      using assms(1) unfolding models_def agrees_def symbol_at_leaves [OF assms(2) sc] by blast
    show "\<forall>nm\<in>N. case symbol_at t nm of None \<Rightarrow> \<rho> nm = None
      | Some a \<Rightarrow> length hp \<le> a \<and> a < length (heap t) \<and> form (deref t a) = IntForm \<and>
          (\<exists>v. val (deref t a) = payload.Num v \<and> \<rho> nm = Some v)"
    proof
      fix nm assume "nm \<in> N"
      then have "case symbol_at s nm of None \<Rightarrow> \<rho> nm = None
        | Some a \<Rightarrow> length hp \<le> a \<and> a < length (heap s) \<and> form (deref s a) = IntForm \<and>
            (\<exists>v. val (deref s a) = payload.Num v \<and> \<rho> nm = Some v)"
        using assms(1) unfolding models_def agrees_def by blast
      then show "case symbol_at t nm of None \<Rightarrow> \<rho> nm = None
        | Some a \<Rightarrow> length hp \<le> a \<and> a < length (heap t) \<and> form (deref t a) = IntForm \<and>
            (\<exists>v. val (deref t a) = payload.Num v \<and> \<rho> nm = Some v)"
        using d t(3) by (auto simp: symbol_at_leaves [OF assms(2) sc] split: option.splits)
    qed
  qed
  with t(1) r show ?thesis by (simp add: models_def)
qed

text \<open>Constants of the program, made by the parser.\<close>

definition made :: "nat \<Rightarrow> obj list \<Rightarrow> asm \<Rightarrow> bool" where
  "made k xs s \<longleftrightarrow> k + length xs \<le> length (heap s) \<and> (\<forall>j < length xs. deref s (k + j) = xs ! j)"

lemma made_leaves: "made k xs s \<Longrightarrow> leaves s vs t \<Longrightarrow> made k xs t"
  using leaves_fields [of s vs t] by (auto simp: made_def deref_leaves)

lemma made_append: "made k (xs @ ys) s \<longleftrightarrow> made k xs s \<and> made (k + length xs) ys s"
proof
  assume m: "made k (xs @ ys) s"
  then have "deref s (k + length xs + j) = ys ! j" if "j < length ys" for j
    using that unfolding made_def by (auto dest: spec [of _ "length xs + j"] simp: add.assoc)
  with m show "made k xs s \<and> made (k + length xs) ys s"
    unfolding made_def by (auto simp: nth_append)
next
  assume m: "made k xs s \<and> made (k + length xs) ys s"
  have "deref s (k + j) = (xs @ ys) ! j" if "j < length (xs @ ys)" for j
  proof (cases "j < length xs")
    case False
    then have "j - length xs < length ys" using that by simp
    with m have "deref s (k + length xs + (j - length xs)) = ys ! (j - length xs)" unfolding made_def by blast
    moreover have "k + length xs + (j - length xs) = k + j" using False by simp
    ultimately show ?thesis using False by (simp add: nth_append)
  qed (use m in \<open>simp add: made_def nth_append\<close>)
  with m show "made k (xs @ ys) s" by (simp add: made_def)
qed

lemma find_rooted:
  assumes "rooted hp s"
  shows "scope_find_object nm s = Some (symbol_at s nm)"
  using assms by (auto simp: rooted_def symbol_at_def scope_find_object_def Let_def split: option.split)

lemma push_var_runs:
  assumes "models hp N \<rho> s" "names_ok N" "nm \<in> N" "made k [name_object nm False] s"
  shows "\<exists>t. stack_push_var k s = Some t \<and> leaves s ([] @ [case \<rho> nm of Some v \<Rightarrow> v | None \<Rightarrow> 0]) t"
proof -
  have nm: "ordinary nm" using assms(2,3) by (simp add: names_ok_def)
  have k: "deref s k = name_object nm False" using assms(4) by (auto simp: made_def)
  have s0: "leaves s [] s" using assms(1) by (simp add: models_def leaves_refl)
  have r: "rooted hp s" and ag: "agrees hp N \<rho> s" using assms(1) by (simp_all add: models_def)
  have "as_get_symbol nm s = Some (symbol_at s nm, s)"
    using nm find_rooted [OF r, of nm] by (simp add: as_get_symbol_def ordinary_def)
  then have push: "stack_push_var k s = Some (push_found (symbol_at s nm) s)"
    using nm by (simp add: stack_push_var_def k string_val_def ordinary_def Let_def) (simp add: name_object_def)
  have "0 < length hp" "0 \<noteq> scope s" using r by (auto simp: rooted_def)
  then have z: "deref s 0 = hp ! 0" "0 < length (heap s)" using r by (auto simp: rooted_def)
  show ?thesis
  proof (cases "symbol_at s nm")
    case None
    have "\<rho> nm = None" using ag assms(3) None by (fastforce simp: agrees_def)
    moreover have "leaves s ([] @ [0]) (stack_push 0 s)"
      using r z by (intro leaves_push [OF s0]) (auto simp: rooted_def)
    ultimately show ?thesis using push None by (simp add: push_found_def objectZero_def)
  next
    case (Some a)
    then obtain v where v: "a < length (heap s)" "form (deref s a) = IntForm" "val (deref s a) = payload.Num v" "\<rho> nm = Some v"
      using ag assms(3) unfolding agrees_def by (fastforce split: option.splits)
    then show ?thesis using push Some leaves_push [OF s0 v(1-3)] by (simp add: push_found_def)
  qed
qed

definition puts :: "op list \<Rightarrow> u64 list \<Rightarrow> asm \<Rightarrow> bool" where
  "puts xs vs s \<longleftrightarrow> (\<exists>t. run_ops xs s = Some t \<and> leaves s vs t)"

lemma puts_append:
  assumes "puts xs vs s" "\<And>t. leaves s vs t \<Longrightarrow> puts ys ws t"
  shows "puts (xs @ ys) (vs @ ws) s"
proof -
  from assms(1) obtain t where t: "run_ops xs s = Some t" "leaves s vs t" by (auto simp: puts_def)
  from assms(2) [OF t(2)] obtain u where u: "run_ops ys t = Some u" "leaves t ws u" by (auto simp: puts_def)
  with t leaves_trans [OF t(2) u(2)] show ?thesis by (simp add: puts_def run_ops_append)
qed

lemma puts_op:
  assumes "puts xs vs s" "\<And>t. leaves s vs t \<Longrightarrow> \<exists>u. exec_op x t = Some u \<and> leaves s ws u"
  shows "puts (xs @ [x]) ws s"
proof -
  from assms(1) obtain t where t: "run_ops xs s = Some t" "leaves s vs t" by (auto simp: puts_def)
  from assms(2) [OF t(2)] t(1) show ?thesis by (auto simp: puts_def run_ops_append)
qed

lemma puts_two:
  assumes v: "both (meaning2 t) (value_in \<rho> a) (value_in \<rho> b) = Some v"
    and op: "x \<noteq> None" "x = mul_op t \<or> x = sum_op t \<or> x = rel_op t"
    and s: "models hp N \<rho> s" "made k (consts_of a @ consts_of b) s"
    and a: "\<And>s k v. value_in \<rho> a = Some v \<Longrightarrow> models hp N \<rho> s \<Longrightarrow> made k (consts_of a) s \<Longrightarrow> puts (ops_of a k) [v] s"
    and b: "\<And>s k v. value_in \<rho> b = Some v \<Longrightarrow> models hp N \<rho> s \<Longrightarrow> made k (consts_of b) s \<Longrightarrow> puts (ops_of b k) [v] s"
  shows "puts (two_ops (ops_of a) a (ops_of b) x k) [v] s"
proof -
  from v obtain va vb where va: "value_in \<rho> a = Some va" and vb: "value_in \<rho> b = Some vb"
    and m: "meaning2 t va vb = Some v" by (auto simp: both_Some)
  from op(1) obtain y where "x = Some y" by auto
  with op(2) have y: "x = Some y" "mul_op t = Some y \<or> sum_op t = Some y \<or> rel_op t = Some y" by auto
  have "puts (ops_of a k @ ops_of b (k + length (consts_of a))) ([va] @ [vb]) s"
  proof (rule puts_append)
    show "puts (ops_of a k) [va] s" using a va s by (simp add: made_append)
    show "puts (ops_of b (k + length (consts_of a))) [vb] t" if "leaves s [va] t" for t
      using that b [OF vb models_leaves [OF s(1) that]] made_leaves [OF _ that] s(2) by (auto simp: made_append)
  qed
  then have "puts ((ops_of a k @ ops_of b (k + length (consts_of a))) @ [y]) [v] s"
    by (rule puts_op) (use exec_two_leaves [OF y(2) m, of s "[]"] in simp)
  then show ?thesis by (simp add: two_ops_def y(1))
qed

lemma expr_puts:
  "wf e \<Longrightarrow> value_in \<rho> e = Some v \<Longrightarrow> names_in e \<subseteq> N \<Longrightarrow> names_ok N \<Longrightarrow> models hp N \<rho> s \<Longrightarrow>
     made k (consts_of e) s \<Longrightarrow> puts (ops_of e k) [v] s"
proof (induction e arbitrary: k s v)
  case (Num n)
  then have k: "k < length (heap s)" "deref s k = int_object (scast n)" by (auto simp: made_def)
  have "leaves s [] s" using Num.prems by (simp add: models_def leaves_refl)
  with Num.prems k leaves_push [of s "[]" s k v] show ?case
    by (simp add: puts_def int_object_def object_new_def)
next
  case (Ident nm)
  with push_var_runs [of hp N \<rho> s nm k] show ?case by (auto simp: puts_def)
next
  case (Pre t a)
  then obtain a' x where a: "value_in \<rho> a = Some a'" "v = meaning1 t a'" "prefix_op t = Some x" by auto
  have "puts (ops_of a k) [a'] s" using Pre a by simp
  then have "puts (ops_of a k @ [x]) [v] s"
    by (rule puts_op) (use exec_prefix_leaves [OF a(3), of s "[]"] a(2) in simp)
  with a show ?case by simp
next
  case (Neg a)
  then obtain a' where a: "value_in \<rho> a = Some a'" "v = - a'" by auto
  have n: "\<exists>w. exec_op OpNeg u = Some w \<and> leaves s ([] @ [v]) w" if "leaves s ([] @ [a']) u" for u
    using a op1_leaves [OF that, of "lift1 (\<lambda>a. Some (- a))" v] by (simp add: stack_op_defs object_ops lift1_def)
  have "puts (ops_of a k) [a'] s" using Neg a by simp
  then have "puts (ops_of a k @ [OpNeg]) [v] s" by (rule puts_op) (use n in simp)
  then show ?case by simp
next
  case (Mul t a b)
  then show ?case by (auto intro!: puts_two [of t])
next
  case (Sum t a b)
  then show ?case by (auto intro!: puts_two [of t])
next
  case (Rel t a b)
  then show ?case by (auto intro!: puts_two [of t])
qed

lemma exprs_put:
  "list_all wf es \<Longrightarrow> those (map (value_in \<rho>) es) = Some vs \<Longrightarrow> \<Union> (names_in ` set es) \<subseteq> N \<Longrightarrow> names_ok N \<Longrightarrow>
     models hp N \<rho> s \<Longrightarrow> made k (concat (map consts_of es)) s \<Longrightarrow> puts (ops_list es k) vs s"
proof (induction es arbitrary: k s vs)
  case Nil
  then show ?case by (simp add: puts_def leaves_refl models_def)
next
  case (Cons e es)
  then obtain v ws where v: "value_in \<rho> e = Some v" "those (map (value_in \<rho>) es) = Some ws" "vs = [v] @ ws"
    by (auto split: option.splits)
  have m: "made k (consts_of e) s" "made (k + length (consts_of e)) (concat (map consts_of es)) s"
    using Cons.prems(6) by (simp_all add: made_append)
  have "puts (ops_of e k @ ops_list es (k + length (consts_of e))) ([v] @ ws) s"
  proof (rule puts_append)
    show "puts (ops_of e k) [v] s" using Cons.prems v m by (intro expr_puts) auto
    show "puts (ops_list es (k + length (consts_of e))) ws t" if "leaves s [v] t" for t
      using Cons.prems v m that by (intro Cons.IH) (auto intro: models_leaves made_leaves)
  qed
  with v show ?case by simp
qed

subsection \<open>Statements\<close>

text \<open>
  The meaning of a statement: what it does to the symbols and to the code generator. It has none when an
  expression has no value.
\<close>

definition arg :: "u64 list \<Rightarrow> nat \<Rightarrow> u32" where
  "arg vs n = (if n < length vs then ucast (rev vs ! n) else 0)"

definition values_in :: "env \<Rightarrow> expr list \<Rightarrow> u64 list option" where
  "values_in \<rho> es = those (map (value_in \<rho>) es)"

fun stmt_step :: "stmt \<Rightarrow> env \<times> cg \<Rightarrow> (env \<times> cg) option" where
  "stmt_step Blank (\<rho>, g) = Some (\<rho>, g)"
| "stmt_step (Instr i md x) (\<rho>, g) =
     map_option (\<lambda>vs. (\<rho>, codegen_gen \<lparr>opcode = i, mode = operand_mode x, modifier = md\<rparr> (arg vs 0) (arg vs 1) (arg vs 2) g))
       (values_in \<rho> (operand_exprs x))"
| "stmt_step (Label loc nm) (\<rho>, g) = (if loc then None else Some (\<rho>(nm \<mapsto> addr g), g))"
| "stmt_step (Data t es) (\<rho>, g) =
     (if t = sWORD then map_option (\<lambda>vs. (\<rho>, fold (\<lambda>w. codegen_word (ucast w)) vs g)) (values_in \<rho> es)
      else if t \<in> {sBYTE, sDATA, sDOUBLE}
      then map_option (\<lambda>vs. (\<rho>, fold put_byte (map ucast vs) g)) (values_in \<rho> es)
      else None)"
| "stmt_step _ st = None"

fun stmt_names :: "stmt \<Rightarrow> string set" where
  "stmt_names (Instr i md x) = \<Union> (names_in ` set (operand_exprs x))"
| "stmt_names (Label loc nm) = {nm}"
| "stmt_names (Data t es) = \<Union> (names_in ` set es)"
| "stmt_names _ = {}"

text \<open>What a statement keeps of the assembler's state.\<close>

definition keeps :: "asm \<Rightarrow> asm \<Rightarrow> bool" where
  "keeps s t \<longleftrightarrow>
     t = s\<lparr>heap := heap t, stack := stack t, stack_pointer := stack_pointer t, gen := gen t, current_label := current_label t\<rparr> \<and>
     stack_view t = stack_view s"

lemma keeps_refl: "keeps s s"
  by (simp add: keeps_def)

lemma keeps_trans: "keeps s t \<Longrightarrow> keeps t u \<Longrightarrow> keeps s u"
  unfolding keeps_def by (cases s; cases t; cases u) simp

lemma keeps_leaves: "leaves s [] t \<Longrightarrow> keeps s t"
  unfolding keeps_def leaves_def by (cases s; cases t) auto

lemma keeps_set_gen: "keeps s (set_gen f s)"
  by (simp add: keeps_def set_gen_def stack_view_def)

lemma models_set_gen: "models hp N \<rho> (set_gen f s) = models hp N \<rho> s"
proof -
  have d: "deref (set_gen f s) = deref s" by (simp add: set_gen_def deref_def fun_eq_iff)
  have h: "heap (set_gen f s) = heap s" "scope (set_gen f s) = scope s" "stack_ok (set_gen f s) = stack_ok s"
    by (simp_all add: set_gen_def stack_ok_def)
  have y: "symbol_at (set_gen f s) nm = symbol_at s nm" for nm unfolding symbol_at_def d h ..
  show ?thesis unfolding models_def rooted_def agrees_def d h y ..
qed

lemma leaves_delete:
  "leaves s vs t \<Longrightarrow> \<exists>u. stack_delete (length vs) t = Some u \<and> leaves s [] u"
proof (induction vs arbitrary: t rule: rev_induct)
  case (snoc v vs)
  from leaves_pop [OF snoc.prems] obtain p u where "stack_pop t = Some (p, u)" "leaves s vs u" by blast
  with snoc.IH [of u] show ?case by auto
qed simp

lemma leaves_set_gen: "leaves s vs t \<Longrightarrow> leaves (set_gen f s) vs (set_gen f t)"
proof -
  assume l: "leaves s vs t"
  have d: "deref (set_gen f t) = deref t" by (simp add: set_gen_def deref_def fun_eq_iff)
  have "gen t = gen s" using leaves_fields [OF l] by simp
  with l show ?thesis
    unfolding leaves_def d by (cases s; cases t) (simp add: set_gen_def stack_view_def stack_ok_def)
qed

lemma leaves_pushed: "leaves s vs t \<Longrightarrow> Symbols.pushed vs (stack_view s) t"
  unfolding leaves_def Symbols.pushed_def by (auto elim: list_all2_mono)

lemma emits:
  assumes "leaves s vs t" "length vs = codegen_params i" "length vs \<le> 3"
  shows "\<exists>u. emit_instr i t = Some (set_gen (codegen_gen i (arg vs 0) (arg vs 1) (arg vs 2)) u) \<and> leaves s [] u"
proof -
  have int: "pop_operand True operand_value t = Some (ucast v, u)" "pop_operand True (\<lambda>v. map_option ucast (int_val v)) t = Some (ucast v, u)"
    if "stack_pop t = Some (p, u)" "form (deref u p) = IntForm" "val (deref u p) = payload.Num v" for t p u v
    using that by (simp_all add: pop_operand_def operand_value_def int_val_def)
  have none: "pop_operand False f t = Some (0, t)" for f t by (simp add: pop_operand_def)
  consider "vs = []" | a where "vs = [a]" | a b where "vs = [] @ [a] @ [b]" | a b c where "vs = [] @ [a] @ [b] @ [c]"
  proof -
    have "vs = [] \<or> (\<exists>a. vs = [a]) \<or> (\<exists>a b. vs = [a, b]) \<or> (\<exists>a b c. vs = [a, b, c])"
      using assms(3) by (auto simp: le_Suc_eq length_Suc_conv numeral_3_eq_3)
    with that show ?thesis by auto
  qed
  then show ?thesis
  proof cases
    case 1
    with assms show ?thesis by (auto simp: emit_instr_def Let_def none arg_def)
  next
    case (2 a)
    with leaves_pop [of s "[]" a t] assms show ?thesis
      by (auto simp: emit_instr_def Let_def none arg_def int)
  next
    case (3 a b)
    then have "leaves s ([a] @ [b]) t" using assms(1) by simp
    from leaves_pop [OF this] obtain p u where u: "stack_pop t = Some (p, u)" "leaves s ([] @ [a]) u"
      "form (deref u p) = IntForm" "val (deref u p) = payload.Num b" by auto
    from leaves_pop [OF u(2)] obtain q w where w: "stack_pop u = Some (q, w)" "leaves s [] w"
      "form (deref w q) = IntForm" "val (deref w q) = payload.Num a" by auto
    from 3 assms(2) int [OF u(1,3,4)] int [OF w(1,3,4)] w(2) show ?thesis
      by (auto simp: emit_instr_def Let_def none arg_def)
  next
    case (4 a b c)
    then have "leaves s ([a, b] @ [c]) t" using assms(1) by simp
    from leaves_pop [OF this] obtain p u where u: "stack_pop t = Some (p, u)" "leaves s ([a] @ [b]) u"
      "form (deref u p) = IntForm" "val (deref u p) = payload.Num c" by auto
    from leaves_pop [OF u(2)] obtain q w where w: "stack_pop u = Some (q, w)" "leaves s ([] @ [a]) w"
      "form (deref w q) = IntForm" "val (deref w q) = payload.Num b" by auto
    from leaves_pop [OF w(2)] obtain r z where z: "stack_pop w = Some (r, z)" "leaves s [] z"
      "form (deref z r) = IntForm" "val (deref z r) = payload.Num a" by auto
    from 4 assms(2) int [OF u(1,3,4)] int [OF w(1,3,4)] int [OF z(1,3,4)] z(2) show ?thesis
      by (auto simp: emit_instr_def Let_def none arg_def)
  qed
qed

lemma params_of_operand: "codegen_params \<lparr>opcode = i, mode = operand_mode x, modifier = md\<rparr> = length (operand_exprs x)"
  by (cases x) (simp_all add: codegen_params_def)

lemma operands_at_most: "length (operand_exprs x) \<le> 3"
  by (cases x) simp_all

lemma count_of_int: "deref s c = int_object (of_nat n) \<Longrightarrow> n < 2 ^ 31 \<Longrightarrow> count_of c s = Some n"
proof -
  assume d: "deref s c = int_object (of_nat n)" and n: "n < 2 ^ 31"
  have u: "unat (of_nat n :: u64) = n" using n by (simp add: unat_of_nat take_bit_nat_eq_self)
  have "uint (of_nat n :: u64) = int n" using n by (simp add: uint_nat u)
  then have "sint (of_nat n :: u64) = int n" using n by (simp add: sint_uint signed_take_bit_int_eq_self)
  with u d show ?thesis by (simp add: count_of_def)
qed

lemma those_length: "those xs = Some ys \<Longrightarrow> length ys = length xs"
  by (induction xs arbitrary: ys) (auto split: option.splits)

lemma made_models:
  assumes "models hp N \<rho> s" "k + length xs \<le> length hp" "scope s < k" "\<And>j. j < length xs \<Longrightarrow> hp ! (k + j) = xs ! j"
  shows "made k xs s"
  using assms by (auto simp: models_def rooted_def made_def)

lemma instr_step:
  assumes "stmt_ok (Instr i md x)" "values_in \<rho> (operand_exprs x) = Some vs" "stmt_names (Instr i md x) \<subseteq> N" "names_ok N"
    and "models hp N \<rho> s" "made k (objs_of (Instr i md x)) s"
  shows "\<exists>t. run_ops (ops_stmt (Instr i md x) k) s = Some t \<and> models hp N \<rho> t \<and> keeps s t \<and>
    gen t = codegen_gen \<lparr>opcode = i, mode = operand_mode x, modifier = md\<rparr> (arg vs 0) (arg vs 1) (arg vs 2) (gen s)"
proof -
  let ?i = "\<lparr>opcode = i, mode = operand_mode x, modifier = md\<rparr>"
  let ?f = "codegen_gen ?i (arg vs 0) (arg vs 1) (arg vs 2)"
  have "puts (ops_list (operand_exprs x) k) vs s"
    using assms by (intro exprs_put [of _ \<rho> vs N hp]) (auto simp: values_in_def operand_ok_def)
  then obtain t where t: "run_ops (ops_list (operand_exprs x) k) s = Some t" "leaves s vs t" by (auto simp: puts_def)
  have "length vs = length (operand_exprs x)"
    using assms(2) by (auto simp: values_in_def dest!: those_length)
  then have l: "length vs = codegen_params ?i" "length vs \<le> 3" using params_of_operand operands_at_most by simp_all
  from emits [OF t(2) l] obtain u where u: "emit_instr ?i t = Some (set_gen ?f u)" "leaves s [] u" by blast
  have "models hp N \<rho> u" using assms(5) u(2) by (rule models_leaves)
  moreover have "keeps s (set_gen ?f u)" using keeps_leaves [OF u(2)] keeps_set_gen by (rule keeps_trans)
  moreover have "gen (set_gen ?f u) = ?f (gen s)" using leaves_fields [OF u(2)] by (simp add: set_gen_def)
  ultimately show ?thesis using t(1) u(1) by (auto simp: run_ops_append models_set_gen)
qed

lemma leaves_data:
  assumes "leaves s vs t" "deref t c = int_object (of_nat (length vs))" "length vs < 2 ^ 31" "vs \<noteq> []"
  shows "\<exists>u. stack_byte c t = Some u \<and> leaves (set_gen (fold put_byte (map ucast vs)) s) [] u"
    and "\<exists>u. stack_word c t = Some u \<and> leaves (set_gen (fold (\<lambda>w. codegen_word (ucast w)) vs) s) [] u"
proof -
  have n: "count_of c t = Some (length vs)" using assms(2,3) by (rule count_of_int)
  from pushed_entries [OF leaves_pushed [OF assms(1)]] obtain ts where
    ts: "top_entries (length vs) t = Some ts" "list_all2 (\<lambda>v n. form v = IntForm \<and> val v = payload.Num n) ts vs" by blast
  have "those (map data_byte ts) = Some (map (\<lambda>v. [ucast v]) vs)"
    using ts(2) by (rule map_entries) (simp add: data_byte_def int_val_def)
  moreover have "those (map int_val ts) = Some (map (\<lambda>v. v) vs)"
    using ts(2) by (rule map_entries) (simp add: int_val_def)
  moreover have "concat (map (\<lambda>v. [ucast v]) vs) = map ucast vs" by (induction vs) simp_all
  ultimately show "\<exists>u. stack_byte c t = Some u \<and> leaves (set_gen (fold put_byte (map ucast vs)) s) [] u"
    "\<exists>u. stack_word c t = Some u \<and> leaves (set_gen (fold (\<lambda>w. codegen_word (ucast w)) vs) s) [] u"
    using n ts(1) assms(4) leaves_delete [OF leaves_set_gen [OF assms(1)]]
    by (simp_all add: stack_byte_def stack_word_def put_bytes_def)
qed

lemma data_step:
  assumes "stmt_ok (Data t es)" "stmt_step (Data t es) (\<rho>, gen s) = Some (\<rho>', g)" "stmt_names (Data t es) \<subseteq> N" "names_ok N"
    and "models hp N \<rho> s" "made k (objs_of (Data t es)) s"
  shows "\<exists>u. run_ops (ops_stmt (Data t es) k) s = Some u \<and> models hp N \<rho> u \<and> keeps s u \<and> gen u = g \<and> \<rho>' = \<rho>"
proof -
  let ?c = "k + length (concat (map consts_of es))"
  have t: "t \<in> {sWORD, sBYTE, sDATA, sDOUBLE}" using assms(2) by (auto split: if_splits)
  obtain vs where vs: "values_in \<rho> es = Some vs" using assms(2) by (auto split: if_splits)
  have m: "made k (concat (map consts_of es)) s" "made ?c [int_object (of_nat (length es))] s"
    using assms(6) by (simp_all add: made_append)
  have "puts (ops_list es k) vs s"
    using assms vs m by (intro exprs_put [of _ \<rho> vs N hp]) (auto simp: values_in_def)
  then obtain w where w: "run_ops (ops_list es k) s = Some w" "leaves s vs w" by (auto simp: puts_def)
  have len: "length vs = length es" using vs by (auto simp: values_in_def dest!: those_length)
  have "made ?c [int_object (of_nat (length es))] w" using m(2) w(2) by (rule made_leaves)
  then have c: "deref w ?c = int_object (of_nat (length vs))" by (simp add: made_def len)
  have ne: "length vs < 2 ^ 31" "vs \<noteq> []" using assms(1) len by auto
  have done_with: "\<exists>u. run_ops (ops_stmt (Data t es) k) s = Some u \<and> models hp N \<rho> u \<and> keeps s u \<and> gen u = f (gen s)"
    if u: "exec_op (the (list_op t) ?c) w = Some u" "leaves (set_gen f s) [] u" for f u
  proof -
    have "models hp N \<rho> u" using models_leaves [OF _ u(2)] assms(5) by (simp add: models_set_gen)
    moreover have "keeps s u" using keeps_set_gen keeps_leaves [OF u(2)] by (rule keeps_trans)
    moreover have "gen u = f (gen s)" using leaves_fields [OF u(2)] by (simp add: set_gen_def)
    ultimately show ?thesis using w(1) u(1) by (simp add: run_ops_append)
  qed
  show ?thesis
  proof (cases "t = sWORD")
    case True
    have "the (list_op sWORD) ?c = OpWord ?c" by code_simp
    moreover from leaves_data(2) [OF w(2) c ne] obtain u where
      "stack_word ?c w = Some u" "leaves (set_gen (fold (\<lambda>w. codegen_word (ucast w)) vs) s) [] u" by blast
    ultimately show ?thesis
      using done_with [of u "fold (\<lambda>w. codegen_word (ucast w)) vs"] assms(2) vs True by auto
  next
    case False
    have "the (list_op sBYTE) ?c = OpByte ?c" "the (list_op sDATA) ?c = OpByte ?c" "the (list_op sDOUBLE) ?c = OpByte ?c"
      by code_simp+
    then have "the (list_op t) ?c = OpByte ?c" using t False by auto
    moreover from leaves_data(1) [OF w(2) c ne] obtain u where
      "stack_byte ?c w = Some u" "leaves (set_gen (fold put_byte (map ucast vs)) s) [] u" by blast
    ultimately show ?thesis
      using done_with [of u "fold put_byte (map ucast vs)"] assms(2) vs False t by auto
  qed
qed

lemma put_object:
  assumes "a < length (heap s)" "a \<noteq> scope s" "length hp \<le> a" "models hp N \<rho> s" "form (f (deref s a)) = IntForm" "nm \<in> N"
    and "symbol_at s nm = Some a" "val (f (deref s a)) = payload.Num v"
  shows "models hp N (\<rho>(nm \<mapsto> v)) (update a f s)"
proof -
  let ?t = "update a f s"
  have d: "deref ?t b = (if b = a then f (deref s a) else deref s b)" for b using assms(1) by (auto simp: deref_update)
  have h: "length (heap ?t) = length (heap s)" "scope ?t = scope s" "stack_ok ?t = stack_ok s"
    by (simp_all add: update_def stack_ok_def)
  have y: "symbol_at ?t k = symbol_at s k" for k using assms(2) by (simp add: symbol_at_def d h)
  have r: "rooted hp ?t" using assms(2-4) unfolding rooted_def y d h models_def by auto
  have one: "symbol_at s k = Some a \<Longrightarrow> k \<in> N \<Longrightarrow> k = nm" for k
    using assms(4,6,7) unfolding models_def agrees_def by blast
  have "agrees hp N (\<rho>(nm \<mapsto> v)) ?t"
    unfolding agrees_def y h
  proof (intro conjI ballI)
    show "\<forall>a. symbol_at s k = Some a \<longrightarrow> symbol_at s k' = Some a \<longrightarrow> k = k'" if "k \<in> N" "k' \<in> N" for k k'
      using assms(4) that unfolding models_def agrees_def by blast
    fix k assume k: "k \<in> N"
    have old: "case symbol_at s k of None \<Rightarrow> \<rho> k = None
      | Some a \<Rightarrow> length hp \<le> a \<and> a < length (heap s) \<and> form (deref s a) = IntForm \<and>
          (\<exists>v. val (deref s a) = payload.Num v \<and> \<rho> k = Some v)"
      using assms(4) k unfolding models_def agrees_def by blast
    show "case symbol_at s k of None \<Rightarrow> (\<rho>(nm \<mapsto> v)) k = None
      | Some a \<Rightarrow> length hp \<le> a \<and> a < length (heap s) \<and> form (deref ?t a) = IntForm \<and>
          (\<exists>u. val (deref ?t a) = payload.Num u \<and> (\<rho>(nm \<mapsto> v)) k = Some u)"
    proof (cases "k = nm")
      case True
      then show ?thesis using assms(1,3,5,7,8) by (simp add: d)
    next
      case False
      then have "symbol_at s k \<noteq> Some a" using one k by blast
      with old False show ?thesis by (cases "symbol_at s k") (simp_all add: d)
    qed
  qed
  with r assms(4) h show ?thesis by (simp add: models_def)
qed

lemma new_object:
  assumes "models hp N \<rho> s" "symbol_at s nm = None" "nm \<in> N" "names_ok N" "form x = IntForm" "val x = payload.Num v"
    and t: "t = update (length (heap s)) f (update (scope s) (\<lambda>y. y\<lparr>desc := map_set (desc y) nm (length (heap s))\<rparr>)
          (s\<lparr>heap := heap s @ [x]\<rparr>))"
    and f: "\<And>y. form (f y) = form y \<and> val (f y) = val y"
  shows "models hp N (\<rho>(nm \<mapsto> v)) t \<and> symbol_at t nm = Some (length (heap s))"
proof -
  let ?n = "length (heap s)"
  have r: "rooted hp s" and ag: "agrees hp N \<rho> s" and st: "stack_ok s" using assms(1) by (simp_all add: models_def)
  then have sc: "scope s < ?n" "0 < scope s" "length hp \<le> ?n" "scope s < length hp" by (auto simp: rooted_def)
  have d: "deref t b = (if b = ?n then f x else if b = scope s then (deref s b)\<lparr>desc := map_set (desc (deref s b)) nm ?n\<rparr>
      else deref s b)" if "b \<le> ?n" for b
    using that sc unfolding t by (auto simp: deref_update) (auto simp: deref_def nth_append update_def)
  have h: "length (heap t) = ?n + 1" "scope t = scope s" "stack_ok t = stack_ok s"
    by (simp_all add: t update_def stack_ok_def)
  have ok: "map_ok (desc (deref s (scope s)))" using r by (simp add: rooted_def)
  have y: "symbol_at t k = (if lk k = lk nm then Some ?n else symbol_at s k)" for k
    using sc ok by (auto simp: symbol_at_def h d map_get_set)
  have dot: "lk nm \<noteq> lk ''.''" "lk nm \<noteq> lk []"
    using assms(3,4) ordinary_lk by (simp_all add: names_ok_def)
  have yN: "symbol_at t k = (if k = nm then Some ?n else symbol_at s k)" if "k \<in> N" for k
    using y [of k] assms(3,4) that by (auto simp: names_ok_def inj_on_def)
  have rt: "rooted hp t"
    unfolding rooted_def h
  proof (intro conjI allI impI)
    show "symbol_at t ''.'' = None" "symbol_at t [] = None"
      using r y [of "''.''"] y [of "[]"] dot by (simp_all add: rooted_def)
    show "map_ok (desc (deref t (scope s)))" "parent (deref t (scope s)) = None"
      using r sc ok by (simp_all add: d map_ok_set rooted_def)
    show "form (hp ! 0) = IntForm" "val (hp ! 0) = payload.Num 0" using r by (simp_all add: rooted_def)
    show "deref t j = hp ! j" if "j < length hp" "j \<noteq> scope s" for j
      using r sc that d [of j] by (simp add: rooted_def)
  qed (use sc in simp_all)
  have old: "symbol_at s k = Some a \<Longrightarrow> a < ?n" if "k \<in> N" for k a
    using ag that unfolding agrees_def by (fastforce split: option.splits)
  have "agrees hp N (\<rho>(nm \<mapsto> v)) t"
    unfolding agrees_def h
  proof (intro conjI ballI)
    show "\<forall>a. symbol_at t k = Some a \<longrightarrow> symbol_at t k' = Some a \<longrightarrow> k = k'" if k: "k \<in> N" "k' \<in> N" for k k'
    proof -
      have "symbol_at s k = Some a \<longrightarrow> symbol_at s k' = Some a \<longrightarrow> k = k'" for a
        using ag k unfolding agrees_def by blast
      then show ?thesis
        unfolding yN [OF k(1)] yN [OF k(2)] using old [OF k(1)] old [OF k(2)] by (metis less_irrefl option.inject)
    qed
    fix k assume k: "k \<in> N"
    have o: "case symbol_at s k of None \<Rightarrow> \<rho> k = None
      | Some a \<Rightarrow> length hp \<le> a \<and> a < length (heap s) \<and> form (deref s a) = IntForm \<and>
          (\<exists>v. val (deref s a) = payload.Num v \<and> \<rho> k = Some v)"
      using ag k unfolding agrees_def by blast
    show "case symbol_at t k of None \<Rightarrow> (\<rho>(nm \<mapsto> v)) k = None
      | Some a \<Rightarrow> length hp \<le> a \<and> a < ?n + 1 \<and> form (deref t a) = IntForm \<and>
          (\<exists>u. val (deref t a) = payload.Num u \<and> (\<rho>(nm \<mapsto> v)) k = Some u)"
    proof (cases "k = nm")
      case True
      then show ?thesis using sc assms(5,6) f unfolding yN [OF k] by (simp add: d)
    next
      case False
      with o old [OF k] sc show ?thesis unfolding yN [OF k] by (cases "symbol_at s k") (auto simp: d)
    qed
  qed
  with rt st h y [of nm] show ?thesis by (simp add: models_def)
qed

lemma models_current_label: "models hp N \<rho> (s\<lparr>current_label := l\<rparr>) = models hp N \<rho> s"
proof -
  have d: "deref (s\<lparr>current_label := l\<rparr>) = deref s" by (simp add: deref_def fun_eq_iff)
  have h: "heap (s\<lparr>current_label := l\<rparr>) = heap s" "scope (s\<lparr>current_label := l\<rparr>) = scope s"
    "stack_ok (s\<lparr>current_label := l\<rparr>) = stack_ok s"
    by (simp_all add: stack_ok_def)
  have y: "symbol_at (s\<lparr>current_label := l\<rparr>) nm = symbol_at s nm" for nm unfolding symbol_at_def d h ..
  show ?thesis unfolding models_def rooted_def agrees_def d h y ..
qed

lemma keeps_update: "keeps s t \<Longrightarrow> keeps s (update a f t)"
  unfolding keeps_def update_def stack_view_def by (cases s; cases t) simp

lemma label_step:
  assumes "models hp N \<rho> s" "names_ok N" "nm \<in> N" "made k [name_object nm False] s"
  shows "\<exists>t. set_label k s = Some t \<and> models hp N (\<rho>(nm \<mapsto> addr (gen s))) t \<and> keeps s t \<and> gen t = gen s"
proof -
  let ?s = "s\<lparr>current_label := Some k\<rparr>"
  let ?put = "\<lambda>y. if form y = ProcForm then y\<lparr>oaddr := ucast (addr (gen s))\<rparr> else y\<lparr>val := payload.Num (addr (gen s))\<rparr>"
  have k: "deref s k = name_object nm False" using assms(4) by (auto simp: made_def)
  have d: "deref ?s = deref s" by (simp add: deref_def fun_eq_iff)
  have y: "symbol_at ?s n = symbol_at s n" for n by (simp add: symbol_at_def d)
  have m: "models hp N \<rho> ?s" using assms(1) by (simp add: models_current_label)
  then have find: "scope_find_object nm ?s = Some (symbol_at s nm)"
    using find_rooted [of hp ?s nm] by (simp add: models_def y)
  have name: "is_local (name_object nm False) = False" "string_val (name_object nm False) = Some nm"
    "is_global (name_object nm False) = False"
    by (simp_all add: name_object_def string_val_def object_new_def)
  have keep: "keeps s ?s" by (simp add: keeps_def stack_view_def)
  have lab: "set_label k s = set_label_impl k ?s" by (simp add: set_label_def k name)
  have sc: "0 < scope s" "scope s < length hp" "length hp \<le> length (heap s)" "scope s < length (heap s)"
    using assms(1) by (auto simp: models_def rooted_def)
  show ?thesis
  proof (cases "symbol_at s nm")
    case (Some a)
    have a: "length hp \<le> a" "a < length (heap s)" "form (deref s a) = IntForm"
      using assms(1,3) Some unfolding models_def agrees_def by (fastforce split: option.splits)+
    have "set_label k s = Some (update a ?put ?s)"
      by (simp add: lab set_label_impl_def d k name find Some codegen_here_def Let_def cong: if_cong)
    moreover have "models hp N (\<rho>(nm \<mapsto> addr (gen s))) (update a ?put ?s)"
      using a sc m assms(3) Some by (intro put_object) (auto simp: d y)
    moreover have "keeps s (update a ?put ?s)" using keep by (rule keeps_update)
    ultimately show ?thesis by (auto simp: update_def)
  next
    case None
    let ?n = "length (heap s)"
    let ?x = "(object_new Const IntForm)\<lparr>is_global := False\<rparr>"
    let ?f = "\<lambda>y. y\<lparr>parent := Some (scope s), level := current_level s\<rparr>"
    let ?t = "update ?n ?f (update (scope s) (\<lambda>y. y\<lparr>desc := map_set (desc y) nm ?n\<rparr>) (?s\<lparr>heap := heap s @ [?x]\<rparr>))"
    have dn: "deref (?s\<lparr>heap := heap s @ [?x]\<rparr>) (scope s) = deref s (scope s)"
      "deref (?s\<lparr>heap := heap s @ [?x]\<rparr>) ?n = ?x"
      using sc by (simp_all add: deref_def nth_append)
    have new: "scope_add_object nm ?n (?s\<lparr>heap := heap s @ [?x]\<rparr>) = Some ?t"
      using None by (simp add: scope_add_object_def dn symbol_at_def) (simp add: object_new_def)
    have t: "models hp N (\<rho>(nm \<mapsto> 0)) ?t \<and> symbol_at ?t nm = Some ?n"
      using new_object [OF m _ assms(3,2), of ?x 0 ?t ?f] None by (simp add: y object_new_def)
    have "set_label k s = Some (update ?n ?put ?t)"
      using new
      by (simp add: lab set_label_impl_def d k name find None alloc_def codegen_here_def Let_def cong: if_cong)
        (simp add: update_def)
    moreover have "models hp N (\<rho>(nm \<mapsto> 0, nm \<mapsto> addr (gen s))) (update ?n ?put ?t)"
    proof (rule put_object)
      have "deref ?t ?n = ?f ?x" using sc dn by (simp add: deref_update)
      then show "form (?put (deref ?t ?n)) = IntForm" "val (?put (deref ?t ?n)) = payload.Num (addr (gen s))"
        by (simp_all add: object_new_def)
    qed (use t sc assms(3) in \<open>simp_all add: update_def\<close>)
    moreover have "keeps s (update ?n ?put ?t)"
    proof -
      have "keeps s (?s\<lparr>heap := heap s @ [?x]\<rparr>)" by (simp add: keeps_def stack_view_def)
      then show ?thesis by (intro keeps_update)
    qed
    ultimately show ?thesis by (auto simp: update_def)
  qed
qed

lemma stmt_runs:
  assumes "stmt_ok x" "stmt_step x (\<rho>, gen s) = Some (\<rho>', g)" "stmt_names x \<subseteq> N" "names_ok N"
    and "models hp N \<rho> s" "made k (objs_of x) s"
  shows "\<exists>t. run_ops (ops_stmt x k) s = Some t \<and> models hp N \<rho>' t \<and> keeps s t \<and> gen t = g"
proof (cases x)
  case Blank
  with assms show ?thesis by (simp add: keeps_refl)
next
  case (Instr i md y)
  with assms instr_step [of i md y \<rho> _ N hp s k] show ?thesis by auto
next
  case (Label loc nm)
  with assms label_step [of hp N \<rho> s nm k] show ?thesis by (auto split: if_splits)
next
  case (Data t es)
  with assms data_step [of t es \<rho> s \<rho>' g N hp k] show ?thesis by blast
qed (use assms in simp_all)

subsection \<open>Programs\<close>

fun prog_step :: "stmt list \<Rightarrow> env \<times> cg \<Rightarrow> (env \<times> cg) option" where
  "prog_step [] st = Some st"
| "prog_step (x # xs) st = Option.bind (stmt_step x st) (prog_step xs)"

definition prog_names :: "stmt list \<Rightarrow> string set" where
  "prog_names xs = \<Union> (stmt_names ` set xs)"

text \<open>The objects of the program stand in what the parser made, after the outermost scope.\<close>

definition placed :: "nat \<Rightarrow> obj list \<Rightarrow> obj list \<Rightarrow> bool" where
  "placed k xs hp \<longleftrightarrow> k + length xs \<le> length hp \<and> (\<forall>j < length xs. hp ! (k + j) = xs ! j)"

lemma placed_append: "placed k (xs @ ys) hp \<Longrightarrow> placed k xs hp \<and> placed (k + length xs) ys hp"
proof -
  assume p: "placed k (xs @ ys) hp"
  have "hp ! (k + length xs + j) = ys ! j" if "j < length ys" for j
    using p that unfolding placed_def by (auto dest: spec [of _ "length xs + j"] simp: add.assoc)
  with p show ?thesis unfolding placed_def by (auto simp: nth_append)
qed

lemma placed_made: "models hp N \<rho> s \<Longrightarrow> placed k xs hp \<Longrightarrow> scope s < k \<Longrightarrow> made k xs s"
  unfolding placed_def by (intro made_models) auto

lemma keeps_scope: "keeps s t \<Longrightarrow> scope t = scope s \<and> error_count t = error_count s \<and> pass t = pass s"
  unfolding keeps_def by (cases s; cases t) simp

lemma prog_runs:
  "stmts_ok xs \<Longrightarrow> prog_step xs (\<rho>, gen s) = Some (\<rho>', g) \<Longrightarrow> prog_names xs \<subseteq> N \<Longrightarrow> names_ok N \<Longrightarrow>
     models hp N \<rho> s \<Longrightarrow> placed k (objs_all xs) hp \<Longrightarrow> scope s < k \<Longrightarrow>
     \<exists>t. run_ops (ops_stmts xs k) s = Some t \<and> models hp N \<rho>' t \<and> keeps s t \<and> gen t = g"
proof (induction xs arbitrary: k \<rho> s)
  case Nil
  then show ?case by (simp add: keeps_refl)
next
  case (Cons x xs)
  from Cons.prems(2) obtain \<rho>1 g1 where st: "stmt_step x (\<rho>, gen s) = Some (\<rho>1, g1)" "prog_step xs (\<rho>1, g1) = Some (\<rho>', g)"
    by (auto simp: bind_eq_Some_conv)
  have pl: "placed k (objs_of x) hp" "placed (k + length (objs_of x)) (objs_all xs) hp"
    using placed_append [of k "objs_of x" "objs_all xs" hp] Cons.prems(6) by simp_all
  have "stmt_names x \<subseteq> N" "prog_names xs \<subseteq> N" using Cons.prems(3) by (auto simp: prog_names_def)
  with Cons.prems st(1) placed_made [OF Cons.prems(5) pl(1) Cons.prems(7)] obtain t where
    t: "run_ops (ops_stmt x k) s = Some t" "models hp N \<rho>1 t" "keeps s t" "gen t = g1"
    using stmt_runs [of x \<rho> s \<rho>1 g1 N hp k] by auto
  from Cons.IH [of \<rho>1 t "k + length (objs_of x)"] Cons.prems st(2) t pl(2) \<open>prog_names xs \<subseteq> N\<close> keeps_scope [OF t(3)]
  obtain u where "run_ops (ops_stmts xs (k + length (objs_of x))) t = Some u" "models hp N \<rho>' u" "keeps t u" "gen u = g" by auto
  with t(1,3) keeps_trans show ?case by (auto simp: run_ops_append)
qed

lemma steps_flat: "prog_step xs st = Some st' \<Longrightarrow> list_all flat xs"
proof (induction xs arbitrary: st)
  case (Cons x xs)
  then show ?case by (cases x; cases st) (auto simp: bind_eq_Some_conv)
qed simp

text \<open>The type and flags of the section stay.\<close>

definition sec_kind :: "cg \<Rightarrow> u32 \<times> u32" where
  "sec_kind g = (sh_type (sec g), sh_flags (sec g))"

lemma sec_kind_byte [simp]: "sec_kind (o_byte b g) = sec_kind g" "sec_kind (fold o_byte bs g) = sec_kind g"
  by (simp add: sec_kind_def, induction bs arbitrary: g) (simp_all add: sec_kind_def)

lemma sec_kind_gen: "sec_kind (codegen_gen i v1 v2 v3 g) = sec_kind g"
  unfolding codegen_gen_fold by (simp add: sec_kind_def [of "gen_note i v1 g"]) (simp add: sec_kind_def)

lemma sec_kind_data: "sec_kind (fold put_byte bs g) = sec_kind g" "sec_kind (fold (\<lambda>w. codegen_word (ucast w)) vs g) = sec_kind g"
  by (induction bs arbitrary: g, simp_all add: put_byte_def codegen_byte_def)
    (induction vs arbitrary: g, simp_all add: codegen_word_def)

lemma sec_kind_step: "stmt_step x (\<rho>, g) = Some (\<rho>', g') \<Longrightarrow> sec_kind g' = sec_kind g"
  by (cases x) (auto simp: sec_kind_gen sec_kind_data split: if_splits)

lemma sec_kind_steps: "prog_step xs (\<rho>, g) = Some (\<rho>', g') \<Longrightarrow> sec_kind g' = sec_kind g"
  by (induction xs arbitrary: \<rho> g) (auto simp: bind_eq_Some_conv dest: sec_kind_step)

subsection \<open>One pass\<close>

text \<open>The code generator at the start of a pass, and a pass over the program; \<open>n\<close> is its number.\<close>

definition pass_start :: "u8 \<Rightarrow> cg \<Rightarrow> cg" where
  "pass_start n g =
     codegen_setlongi False (codegen_setlonga False (codegen_addr (ucast (sh_addr (sec g)))
       (g\<lparr>current_pass := uint n, sec := (sec g)\<lparr>data := vec_empty\<rparr>\<rparr>)))"

definition source_pass :: "stmt list \<Rightarrow> u8 \<times> env \<times> cg \<Rightarrow> (u32 \<times> u8 \<times> env \<times> cg) option" where
  "source_pass xs = (\<lambda>(n, \<rho>, g).
     map_option (\<lambda>(\<rho>', g'). (of_nat (sh_size (sec g')), n, \<rho>', g')) (prog_step xs (\<rho>, pass_start n g)))"

definition section_kind :: "esec \<Rightarrow> u32 \<times> u32" where
  "section_kind s = (h_type (shdr s), h_flags (shdr s))"

lemma section_kind_simps [simp]:
  "section_kind (set_bytes d s) = section_kind s" "section_kind (store_section x s) = section_kind s"
  by (simp_all add: section_kind_def set_bytes_def store_section_def)

text \<open>What filling the sections \<open>J\<close> leaves of a context.\<close>

definition frame :: "nat set \<Rightarrow> elf_context \<Rightarrow> elf_context \<Rightarrow> bool" where
  "frame J c c' \<longleftrightarrow> ehdr c' = ehdr c \<and> length (sections c') = length (sections c) \<and> shstrtab c' = shstrtab c \<and>
     symtab c' = symtab c \<and> map section_kind (sections c') = map section_kind (sections c) \<and>
     (\<forall>j. j \<notin> J \<longrightarrow> sections c' ! j = sections c ! j)"

lemma frame_refl: "frame J c c"
  by (simp add: frame_def)

lemma frame_trans: "frame J c c1 \<Longrightarrow> frame L c1 c2 \<Longrightarrow> frame (J \<union> L) c c2"
  by (simp add: frame_def)

lemma frame_upd:
  assumes "i \<in> J" "\<And>s. section_kind (f s) = section_kind s" shows "frame J c (upd_section i f c)"
proof -
  have "map section_kind ((sections c)[i := f (sections c ! i)]) = map section_kind (sections c)"
    using assms(2) by (cases "i < length (sections c)") (simp_all add: map_update list_update_same_conv list_update_beyond)
  with assms(1) show ?thesis unfolding frame_def by (simp add: upd_section_def) (metis nth_list_update_neq)
qed

text \<open>Section \<open>i\<close> has the contents \<open>d\<close>.\<close>

definition holds :: "nat \<Rightarrow> u8 list \<Rightarrow> elf_context \<Rightarrow> bool" where
  "holds i d c \<longleftrightarrow> bytes (sections c ! i) = d \<and> h_size (shdr (sections c ! i)) = of_nat (length d)"

text \<open>
  The parser's state \<open>p\<close> with the program \<open>xs\<close> in section \<open>i\<close>, between passes; \<open>c0\<close> is the context the
  first pass began with.
\<close>

definition ready :: "stmt list \<Rightarrow> nat \<Rightarrow> nat \<Rightarrow> obj list \<Rightarrow> string set \<Rightarrow> elf_context \<Rightarrow> u8 \<times> env \<times> cg \<Rightarrow> parse \<Rightarrow> bool" where
  "ready xs i k hp N c0 = (\<lambda>(n, \<rho>, g) p.
     code p = (\<lambda>_. [])(i := ops_stmts xs k) \<and> ops_stmts xs k \<noteq> [] \<and> i < length (sections (elf p)) \<and>
     frame {i} c0 (elf p) \<and> models hp N \<rho> (asm p) \<and>
     scope (asm p) < k \<and> pass (asm p) = n \<and> error_count (asm p) = 0 \<and>
     (gen (asm p))\<lparr>sec := sec g\<rparr> = g \<and> load_section (sections (elf p) ! i) = (sec g)\<lparr>data := vec_empty\<rparr>)"

lemma run_idle:
  "\<forall>j \<in> set js. code p j = [] \<Longrightarrow> \<exists>c. run_sections d js len p = Some (len, p\<lparr>elf := (elf p)\<lparr>current := c\<rparr>\<rparr>)"
proof (induction js arbitrary: p len)
  case Nil
  have "p = p\<lparr>elf := (elf p)\<lparr>current := current (elf p)\<rparr>\<rparr>" by simp
  then show ?case by (metis run_sections.simps(1))
next
  case (Cons j js)
  from Cons.IH [of "p\<lparr>elf := (elf p)\<lparr>current := Some j\<rparr>\<rparr>" len] Cons.prems show ?case
    by (auto simp: run_section_def)
qed

lemma run_sections_append:
  "run_sections d (js @ ks) len p = Option.bind (run_sections d js len p) (\<lambda>(len, p). run_sections d ks len p)"
  by (induction js arbitrary: len p) (auto split: bind_splits)

lemma models_cong:
  assumes "models hp N \<rho> s" "heap t = heap s" "scope t = scope s" "stack_ok t"
  shows "models hp N \<rho> t"
proof -
  have d: "deref t = deref s" using assms(2) by (simp add: deref_def fun_eq_iff)
  have y: "symbol_at t nm = symbol_at s nm" for nm unfolding symbol_at_def d assms(3) ..
  show ?thesis using assms(1,4) unfolding models_def rooted_def agrees_def d y assms(2,3) by blast
qed

lemma empty_stack: "stack_ok t \<Longrightarrow> stack_view t = [] \<Longrightarrow> stack_pointer t = 0"
  by (auto simp: stack_ok_def stack_view_def dest: arg_cong [where f = length])

lemma begin_facts:
  "heap (begin_section x s) = heap s" "scope (begin_section x s) = scope s" "pass (begin_section x s) = pass s"
  "error_count (begin_section x s) = error_count s" "stack_ok (begin_section x s)" "stack_view (begin_section x s) = []"
  by (simp_all add: begin_section_def stack_ok_def stack_view_def vec_ok_empty) (simp_all add: vec_empty_def)

lemma pass_runs:
  assumes r: "ready xs i k hp N c0 (n0, \<rho>, g) p" and st: "source_pass xs (n, \<rho>, g) = Some (len, a)"
    and ok: "stmts_ok xs" "prog_names xs \<subseteq> N" "names_ok N" "placed k (objs_all xs) hp"
  shows "\<exists>q. interp_run d (set_pass n p) = Some (len, q) \<and> ready xs i k hp N c0 a q \<and>
    holds i (items (data (sec (snd (snd a))))) (elf q)"
proof -
  from st obtain \<rho>' g' where g': "prog_step xs (\<rho>, pass_start n g) = Some (\<rho>', g')" "a = (n, \<rho>', g')"
    "len = of_nat (sh_size (sec g'))"
    by (auto simp: source_pass_def)
  let ?x = "(sec g)\<lparr>data := vec_empty\<rparr>"
  let ?s = "begin_section ?x (asm (set_pass n p))"
  have code: "code p = (\<lambda>_. [])(i := ops_stmts xs k)" "ops_stmts xs k \<noteq> []" and i: "i < length (sections (elf p))"
    and m: "models hp N \<rho> (asm p)" and sc: "scope (asm p) < k" and e: "error_count (asm p) = 0"
    and fr: "frame {i} c0 (elf p)"
    and gg: "(gen (asm p))\<lparr>sec := sec g\<rparr> = g" and ld: "load_section (sections (elf p) ! i) = ?x"
    using r by (auto simp: ready_def)
  have pf: "code (set_pass n p) = code p" "elf (set_pass n p) = elf p" "heap (asm (set_pass n p)) = heap (asm p)"
    "scope (asm (set_pass n p)) = scope (asm p)" "pass (asm (set_pass n p)) = n"
    "error_count (asm (set_pass n p)) = error_count (asm p)"
    by (simp_all add: set_pass_def)
  have s: "models hp N \<rho> ?s"
    using models_cong [OF m, of ?s] by (simp add: begin_facts pf)
  have gs: "gen ?s = pass_start n g"
  proof -
    have "g\<lparr>current_pass := uint n, sec := ?x\<rparr> = (gen (asm p))\<lparr>current_pass := uint n, sec := ?x\<rparr>"
      using gg by (cases g; cases "gen (asm p)") simp
    then show ?thesis by (simp add: begin_section_def pass_start_def set_pass_def)
  qed
  have "scope ?s < k" using sc by (simp add: begin_facts pf)
  from prog_runs [OF ok(1) _ ok(2,3) s ok(4) this] g'(1) gs obtain t where
    t: "run_ops (ops_stmts xs k) ?s = Some t" "models hp N \<rho>' t" "keeps ?s t" "gen t = g'" by auto
  have st_t: "stack_pointer t = 0"
    using t(2,3) empty_stack [of t] by (simp add: keeps_def begin_facts models_def)
  have active: "active start_cond" by (simp add: active_def start_cond_def)
  have run: "interp_interp d (ops_stmts xs k) start_cond ?s = Some (ran (ops_stmts xs k) start_cond, t)"
    using t(1) interp_plain [OF active plain_flats [OF ok(1) steps_flat [OF g'(1)]]] by simp
  let ?t = "t\<lparr>stack := vec_empty\<rparr>"
  have mt: "models hp N \<rho>' ?t"
    using models_cong [OF t(2), of ?t] st_t by (simp add: stack_ok_def vec_ok_empty) (simp add: vec_empty_def)
  have root: "outermost (length (heap (asm p)) + 1) (asm (set_pass n p)) (scope (asm p)) = Some (scope (asm p))"
  proof -
    have "parent (deref (asm (set_pass n p)) (scope (asm p))) = None"
      using m by (simp add: models_def rooted_def deref_def pf)
    then show ?thesis by simp
  qed
  have split: "[0..<length (sections (elf p))] = [0..<i] @ i # [Suc i..<length (sections (elf p))]"
    using i upt_add_eq_append [of 0 i "length (sections (elf p)) - i"] by (simp add: upt_conv_Cons)
  have same: "(set_pass n p)\<lparr>asm := (asm (set_pass n p))\<lparr>scope := scope (asm p)\<rparr>\<rparr> = set_pass n p"
    by (simp add: set_pass_def)
  have idle: "code p j = []" if "j \<noteq> i" for j using code that by simp
  from run_idle [of "[0..<i]" "set_pass n p" d 0] obtain c where
    c: "run_sections d [0..<i] 0 (set_pass n p) = Some (0, (set_pass n p)\<lparr>elf := (elf p)\<lparr>current := c\<rparr>\<rparr>)"
    using idle by (auto simp: pf)
  let ?q = "(set_pass n p)\<lparr>asm := ?t, macro_def := False,
      elf := upd_section i (store_section (sec g')) ((elf p)\<lparr>current := Some i\<rparr>)\<rparr>"
  have "run_section d i ((set_pass n p)\<lparr>elf := (elf p)\<lparr>current := c\<rparr>\<rparr>) = Some (of_nat (sh_size (sec g')), ?q)"
    using code ld run t(4) by (simp add: run_section_def pf)
  moreover from run_idle [of "[Suc i..<length (sections (elf p))]" ?q d len] obtain c' where
    "run_sections d [Suc i..<length (sections (elf p))] len ?q = Some (len, ?q\<lparr>elf := (elf ?q)\<lparr>current := c'\<rparr>\<rparr>)"
    using idle by (auto simp: pf)
  ultimately have "interp_run d (set_pass n p) = Some (len, ?q\<lparr>elf := (elf ?q)\<lparr>current := c'\<rparr>\<rparr>)"
    using c root g'(3) by (simp add: interp_run_def pf same split run_sections_append)
  moreover have "ready xs i k hp N c0 a (?q\<lparr>elf := (elf ?q)\<lparr>current := c'\<rparr>\<rparr>)"
  proof -
    have kind: "sec_kind g' = (h_type (shdr (sections (elf p) ! i)), h_flags (shdr (sections (elf p) ! i)))"
      using sec_kind_steps [OF g'(1)] ld by (cases "sec g") (simp add: sec_kind_def pass_start_def load_section_def codegen_setlongi_def codegen_setlonga_def codegen_addr_def)
    then have "load_section (store_section (sec g') (sections (elf p) ! i)) = (sec g')\<lparr>data := vec_empty\<rparr>"
      by (cases "sec g'") (simp add: load_section_def store_section_def set_bytes_def sec_kind_def)
    then show ?thesis
      using code i fr mt sc e t(4) keeps_scope [OF t(3)] frame_trans [OF fr frame_upd [of i "{i}" "store_section (sec g')" "elf p"]]
      by (simp add: ready_def g'(2) pf begin_facts upd_section_def frame_def)
  qed
  moreover have "holds i (items (data (sec (snd (snd a))))) (elf (?q\<lparr>elf := (elf ?q)\<lparr>current := c'\<rparr>\<rparr>))"
    using i by (simp add: holds_def g'(2) pf upd_section_def store_section_def set_bytes_def)
  ultimately show ?thesis by blast
qed

end
