(* ===== verification/Compiling.thy ===== *)
theory Compiling
  imports Assembling
begin

text \<open>
  What compiling a source file computes. A pass of the assembler follows a pass over the meanings of
  the statements (\<open>next_follows\<close>), and so the loop of passes ends exactly when \<open>source_passes\<close> does, with the
  same bytes (\<open>passes_follow\<close>); making the symbol table afterwards leaves them (\<open>write_symbols_returns\<close>).
  \<open>source_compiles\<close> and \<open>source_hangs\<close> put the parser before it: they are about \<open>as_compile\<close>, in any state where
  a source file can be compiled (\<open>clean\<close>).
\<close>

subsection \<open>All passes\<close>

definition source_next :: "stmt list \<Rightarrow> u8 \<times> env \<times> cg \<Rightarrow> (u32 \<times> u8 \<times> env \<times> cg) option" where
  "source_next xs = (\<lambda>(n, \<rho>, g). source_pass xs (n + 1, \<rho>, g))"

definition source_passes :: "stmt list \<Rightarrow> env \<times> cg \<Rightarrow> (env \<times> cg) option option" where
  "source_passes xs = (\<lambda>(\<rho>, g).
     map_option (\<lambda>r. Option.bind r (\<lambda>(n, \<rho>, g). map_option (snd \<circ> snd) (source_pass xs (0, \<rho>, g))))
       (until_stable (source_next xs) 0 (source_next xs (1, \<rho>, g))))"

definition program_ok :: "stmt list \<Rightarrow> nat \<Rightarrow> obj list \<Rightarrow> string set \<Rightarrow> bool" where
  "program_ok xs k hp N \<longleftrightarrow> stmts_ok xs \<and> prog_names xs \<subseteq> N \<and> names_ok N \<and> placed k (objs_all xs) hp"

lemma next_follows:
  assumes "program_ok xs k hp N" "ready xs i k hp N c0 a p" "source_next xs a = Some (len, a')"
  shows "\<exists>q. next_pass d p = Some (len, q) \<and> ready xs i k hp N c0 a' q"
proof -
  obtain n \<rho> g where a: "a = (n, \<rho>, g)" by (cases a) auto
  have "pass (asm p) = n" using assms(2) by (simp add: a ready_def)
  moreover have "source_pass xs (n + 1, \<rho>, g) = Some (len, a')" using assms(3) by (simp add: a source_next_def)
  ultimately show ?thesis
    using pass_runs [of xs i k hp N c0 n \<rho> g p "n + 1" len a' d] assms(1,2)
    by (auto simp: a next_pass_def program_ok_def)
qed

text \<open>A pass of the assembler follows a pass over the meanings of the statements.\<close>

interpretation passes: simulation "next_pass d" "source_next xs"
    "\<lambda>a p. program_ok xs k hp N \<and> ready xs i k hp N c0 a p" for d xs k hp N i c0
  by unfold_locales (auto dest: next_follows)

lemma passes_follow:
  assumes ok: "program_ok xs k hp N" and r: "ready xs i k hp N c0 (1, \<rho>, g) p"
  shows "source_passes xs (\<rho>, g) = Some (Some (\<rho>', g')) \<Longrightarrow>
      \<exists>q. run_passes d p = Some (Some q) \<and> ready xs i k hp N c0 (0, \<rho>', g') q \<and> holds i (items (data (sec g'))) (elf q)"
    and "source_passes xs (\<rho>, g) = None \<Longrightarrow> run_passes d p = None"
proof -
  note follows = next_follows [OF ok, of i c0, where d = d]
  show "\<exists>q. run_passes d p = Some (Some q) \<and> ready xs i k hp N c0 (0, \<rho>', g') q \<and> holds i (items (data (sec g'))) (elf q)"
    if s: "source_passes xs (\<rho>, g) = Some (Some (\<rho>', g'))"
  proof -
    from s obtain b where u: "until_stable (source_next xs) 0 (source_next xs (1, \<rho>, g)) = Some (Some b)"
      and f: "case b of (n, \<rho>, g) \<Rightarrow> \<exists>len n'. source_pass xs (0, \<rho>, g) = Some (len, n', \<rho>', g')"
      by (auto simp: source_passes_def bind_eq_Some_conv)
    then obtain len a where a: "source_next xs (1, \<rho>, g) = Some (len, a)"
      by (cases "source_next xs (1, \<rho>, g)") (auto simp: until_stable_step)
    from follows [OF r a] obtain p1 where p1: "next_pass d p = Some (len, p1)" "ready xs i k hp N c0 a p1" by blast
    have "\<exists>q. until_stable (next_pass d) 0 (Some (len, p1)) = Some (Some q) \<and> ready xs i k hp N c0 b q"
      using passes.until_stable_follows [of xs k hp N i c0 a p1 0 len b d] ok p1(2) u a by auto
    then obtain q where q: "until_stable (next_pass d) 0 (Some (len, p1)) = Some (Some q)" "ready xs i k hp N c0 b q" by blast
    obtain n1 \<rho>1 g1 where b: "b = (n1, \<rho>1, g1)" by (cases b) auto
    with f obtain l n' where l: "source_pass xs (0, \<rho>1, g1) = Some (l, n', \<rho>', g')" by auto
    then have "n' = 0" by (auto simp: source_pass_def)
    with pass_runs [of xs i k hp N c0 n1 \<rho>1 g1 q 0 l "(n', \<rho>', g')" d] q(2) l ok b obtain t where
      "interp_run d (set_pass 0 q) = Some (l, t)" "ready xs i k hp N c0 (0, \<rho>', g') t"
      "holds i (items (data (sec g'))) (elf t)" by (auto simp: program_ok_def)
    with q(1) p1(1) show ?thesis by (simp add: run_passes_def)
  qed
  show "run_passes d p = None" if s: "source_passes xs (\<rho>, g) = None"
  proof -
    from s have u: "until_stable (source_next xs) 0 (source_next xs (1, \<rho>, g)) = None"
      by (simp add: source_passes_def)
    then obtain len a where a: "source_next xs (1, \<rho>, g) = Some (len, a)"
      by (cases "source_next xs (1, \<rho>, g)") (auto simp: until_stable_step)
    from follows [OF r a] obtain p1 where p1: "next_pass d p = Some (len, p1)" "ready xs i k hp N c0 a p1" by blast
    have "until_stable (next_pass d) 0 (Some (len, p1)) = None"
      using passes.until_stable_hangs [of xs k hp N i c0 a p1 0 len d] ok p1(2) u a by auto
    with p1(1) show ?thesis by (simp add: run_passes_def)
  qed
qed

subsection \<open>The symbol table\<close>

text \<open>What making symbols leaves of a context: everything but the two tables.\<close>

definition kept :: "elf_context \<Rightarrow> elf_context \<Rightarrow> bool" where
  "kept c c' \<longleftrightarrow> frame {shstrtab c, symtab c} c c'"

lemma kept_refl: "kept c c"
  by (simp add: kept_def frame_refl)

lemma kept_trans: "kept c c1 \<Longrightarrow> kept c1 c2 \<Longrightarrow> kept c c2"
  by (simp add: kept_def frame_def)

lemma kept_upd: "i = shstrtab c \<or> i = symtab c \<Longrightarrow> kept c (upd_section i (\<lambda>s. set_bytes (f s) s) c)"
  unfolding kept_def by (rule frame_upd) auto

lemma elf_symbol_returns:
  assumes "nm \<noteq> []"
  shows "\<exists>c'. elf_symbol_create nm v sz info c = Some c' \<and> kept c c'"
proof -
  have "cstr nm \<noteq> []" using assms by (simp add: cstr_def)
  then have "elf_string_create (bytes (sections c ! shstrtab c)) (cstr nm) \<noteq> None"
    using locate_from_returns by (simp add: elf_string_create_def elf_string_locate_def)
  then obtain off dat where "elf_string_create (bytes (sections c ! shstrtab c)) (cstr nm) = Some (off, dat)" by fastforce
  then have s: "string_create_in (shstrtab c) nm c = Some (of_nat off, upd_section (shstrtab c) (set_bytes dat) c)"
    by (simp add: string_create_in_def)
  let ?c = "upd_section (shstrtab c) (set_bytes dat) c"
  have "kept c ?c" using kept_upd [of "shstrtab c" c "\<lambda>_. dat"] by simp
  moreover have "kept ?c (upd_section (symtab ?c) (\<lambda>s. set_bytes (f s) s) ?c)" for f by (rule kept_upd) simp
  ultimately have "kept c (upd_section (symtab ?c) (\<lambda>s. set_bytes (f s) s) ?c)" for f by (rule kept_trans)
  then show ?thesis unfolding elf_symbol_create_def s by simp
qed

lemma write_symbols_returns:
  "\<forall>(k, a) \<in> set (entries m). k \<noteq> [] \<Longrightarrow> \<exists>c'. as_write_symbols bits s m c = Some c' \<and> kept c c'"
proof (induction m arbitrary: c)
  case Null
  then show ?case by (simp add: kept_refl)
next
  case (MapNode paint l k a r)
  have keys: "\<forall>(k, a) \<in> set (entries l). k \<noteq> []" "\<forall>(k, a) \<in> set (entries r). k \<noteq> []" "k \<noteq> []"
    using MapNode.prems by auto
  from MapNode.IH(1) [OF keys(1), of c] obtain c1 where c1: "as_write_symbols bits s l c = Some c1" "kept c c1" by blast
  let ?make = "let x = deref s a in if is_local x then Some c1
      else elf_symbol_create k (symbol_value bits x) 0 (push_bit 4 (if is_global x then STB_GLOBAL else 0)) c1"
  obtain c2 where c2: "?make = Some c2" "kept c1 c2"
  proof (cases "is_local (deref s a)")
    case True
    with that [of c1] show ?thesis by (simp add: kept_refl)
  next
    case False
    from elf_symbol_returns [OF keys(3), of "symbol_value bits (deref s a)" 0
        "push_bit 4 (if is_global (deref s a) then STB_GLOBAL else 0)" c1]
    obtain c2 where "elf_symbol_create k (symbol_value bits (deref s a)) 0
        (push_bit 4 (if is_global (deref s a) then STB_GLOBAL else 0)) c1 = Some c2" "kept c1 c2" by blast
    with False that show ?thesis by (simp add: Let_def)
  qed
  from MapNode.IH(2) [OF keys(2), of c2] obtain c3 where c3: "as_write_symbols bits s r c2 = Some c3" "kept c2 c3" by blast
  have "kept c c3" using kept_trans [OF kept_trans [OF c1(2) c2(2)] c3(2)] .
  with c1(1) c2(1) c3(1) show ?case by simp
qed

lemma no_empty_key:
  assumes "map_ok m" "map_get m [] = None" "(k, a) \<in> set (entries m)"
  shows "k \<noteq> []"
proof
  assume "k = []"
  with assms(3) have "lk [] \<in> fst ` set (assoc m)" by (force simp: assoc_def)
  then have "meaning m (lk []) \<noteq> None" by (simp add: meaning_def map_of_eq_None_iff)
  with assms(1,2) show False by (simp add: map_ok_def map_get_meaning)
qed

subsection \<open>A source file\<close>

text \<open>
  The state a source file is compiled in: section \<open>i\<close>, not one of the two tables, is the current one, no
  operations have been added, and the outermost scope is that of the built-in symbols, with none in \<open>N\<close>.
\<close>

definition clean :: "nat \<Rightarrow> string set \<Rightarrow> parse \<Rightarrow> bool" where
  "clean i N p \<longleftrightarrow>
     filling i p \<and> at_top p \<and> code p = (\<lambda>_. []) \<and> i < length (sections (elf p)) \<and>
     i \<noteq> shstrtab (elf p) \<and> i \<noteq> symtab (elf p) \<and> stack_ok (asm p) \<and> 0 < scope (asm p) \<and>
     form (deref (asm p) 0) = IntForm \<and> val (deref (asm p) 0) = payload.Num 0 \<and>
     map_ok (desc (deref (asm p) (scope (asm p)))) \<and> symbol_at (asm p) [] = None \<and>
     (\<forall>nm\<in>N. symbol_at (asm p) nm = None)"

definition start_gen :: "nat \<Rightarrow> parse \<Rightarrow> cg" where
  "start_gen i p = (gen (asm p))\<lparr>sec := load_section (sections (elf p) ! i)\<rparr>"

lemma ops_stmts_Nil: "ops_stmts xs k = [] \<longleftrightarrow> set xs \<subseteq> {Blank}"
proof -
  have "ops_stmt x k = [] \<longleftrightarrow> x = Blank" for x k by (cases x) (simp_all add: Let_def)
  then show ?thesis by (induction xs arbitrary: k) auto
qed

lemma source_ready:
  assumes c: "clean i N p" and ne: "\<not> set xs \<subseteq> {Blank}"
    and q: "q = appended i (objs_all xs) (ops_stmts xs (length (heap (asm p)))) (adv m (start_parse content (new_source p)))"
  shows "ready xs i (length (heap (asm p))) (heap (asm p) @ objs_all xs) N (elf p) (1, Map.empty, start_gen i p) (bf_closed q) \<and>
    placed (length (heap (asm p))) (objs_all xs) (heap (asm p) @ objs_all xs)"
proof -
  have sc: "scope (asm p) < length (heap (asm p))" and par: "parent (deref (asm p) (scope (asm p))) = None"
    and dot: "symbol_at (asm p) ''.'' = None" and h: "0 < length (heap (asm p))"
    using c by (auto simp: clean_def at_top_def top_scope_def deref_def symbol_at_def)
  have q': "asm (bf_closed q) = (asm p)\<lparr>pass := 1, error_count := 0, heap := heap (asm p) @ objs_all xs\<rparr>"
    "elf (bf_closed q) = elf p" "code (bf_closed q) = (\<lambda>_. [])(i := ops_stmts xs (length (heap (asm p))))"
    using c by (simp_all add: q appended_def bf_closed_def adv_def start_parse_def get_def new_source_def clean_def)
  have d: "deref (asm (bf_closed q)) j = (heap (asm p) @ objs_all xs) ! j" for j by (simp add: deref_def q')
  have y: "symbol_at (asm (bf_closed q)) nm = symbol_at (asm p) nm" for nm
    using sc by (simp add: symbol_at_def d) (simp add: q' nth_append deref_def)
  have "models (heap (asm p) @ objs_all xs) N Map.empty (asm (bf_closed q))"
    using c sc par dot h unfolding models_def rooted_def agrees_def y d clean_def
    by (simp add: q' nth_append deref_def stack_ok_def)
  then show ?thesis
    using c sc ne by (auto simp: ready_def q' clean_def frame_refl start_gen_def load_section_def placed_def ops_stmts_Nil)
qed

text \<open>\<open>name\<close> is a source file of the statements \<open>xs\<close>, and \<open>p\<close> the state before it is compiled.\<close>

definition source_file :: "stmt list \<Rightarrow> nat \<Rightarrow> string set \<Rightarrow> string \<Rightarrow> parse \<Rightarrow> bool" where
  "source_file xs i N name p \<longleftrightarrow>
     clean i N p \<and> as_file_type name = FileAsmSrc \<and> \<not> set xs \<subseteq> {Blank} \<and> stmts_ok xs \<and> names_ok N \<and> prog_names xs \<subseteq> N \<and>
     (\<exists>content rest. fs p name = Some content \<and>
        feeds (show_stmts xs @ Sym sEOF # rest) (scan (start_parse content (new_source p))))"

definition with_symbols :: "(obj \<Rightarrow> u32) \<Rightarrow> parse option option \<Rightarrow> parse option option" where
  "with_symbols bits = map_option (\<lambda>r. Option.bind r (\<lambda>t.
     map_option (\<lambda>c. t\<lparr>elf := c\<rparr>) (as_write_symbols bits (asm t) (desc (deref (asm t) (scope (asm t)))) (elf t))))"

lemma source_starts:
  assumes "source_file xs i N name p"
  shows "\<exists>M q k hp. program_ok xs k hp N \<and> ready xs i k hp N (elf p) (1, Map.empty, start_gen i p) q \<and>
    (\<forall>n \<ge> M. \<forall>d bits. as_compile bits n d name p = with_symbols bits (run_passes d q))"
proof -
  from assms obtain content rest where src: "fs p name = Some content"
    and f: "feeds (show_stmts xs @ Sym sEOF # rest) (scan (start_parse content (new_source p)))"
    and c: "clean i N p" and ty: "as_file_type name = FileAsmSrc" and ne: "\<not> set xs \<subseteq> {Blank}"
    and ok: "stmts_ok xs" "names_ok N" "prog_names xs \<subseteq> N"
    unfolding source_file_def by blast
  then have "xs \<noteq> []" by auto
  let ?p = "start_parse content (new_source p)" and ?k = "length (heap (asm p))"
  let ?q = "appended i (objs_all xs) (ops_stmts xs ?k) (adv (length (show_stmts xs)) ?p)"
  have same: "heap (asm ?p) = heap (asm p)" "scope (asm ?p) = scope (asm p)" "elf ?p = elf p"
    "macro_def ?p = macro_def p" "error_count (asm ?p) = 0"
    by (simp_all add: start_parse_def get_def new_source_def)
  have "at_top ?p" using c by (simp add: clean_def at_top_def same)
  from source_runs [OF ok(1) \<open>xs \<noteq> []\<close> this _ f] obtain M where
    M: "\<forall>n \<ge> M. parse_asm_file n ?p = Some (gen_stmts xs (adv (length (show_stmts xs)) ?p))" by blast
  have "filling i (adv (length (show_stmts xs)) ?p)" using c by (simp add: clean_def filling_def adv_def same)
  from gen_stmt_appended(2) [OF this] have "gen_stmts xs (adv (length (show_stmts xs)) ?p) = ?q"
    by (simp add: adv_def same)
  moreover have "error_count (asm ?q) = 0" by (simp add: appended_def adv_def same)
  ultimately have "as_compile bits n d name p = with_symbols bits (run_passes d (bf_closed ?q))" if "M \<le> n" for n d bits
    using M that src ty by (simp add: as_compile_def with_symbols_def)
  with source_ready [OF c ne, of ?q "length (show_stmts xs)" content] ok show ?thesis
    unfolding program_ok_def by blast
qed

definition read_symbol :: "parse \<Rightarrow> string \<Rightarrow> payload option" where
  "read_symbol p nm = map_option (\<lambda>a. val (deref (asm p) a)) (symbol_at (asm p) nm)"

lemma models_read:
  assumes "models hp N \<rho> (asm p)" "nm \<in> N" shows "read_symbol p nm = map_option payload.Num (\<rho> nm)"
  using assms by (fastforce simp: models_def agrees_def read_symbol_def split: option.splits)

lemma source_compiles:
  assumes src: "source_file xs i N name p"
    and r: "source_passes xs (Map.empty, start_gen i p) = Some (Some (\<rho>, g))"
  shows "\<exists>M. \<forall>n \<ge> M. \<exists>q. as_compile bits n d name p = Some (Some q) \<and> holds i (items (data (sec g))) (elf q) \<and>
    frame {i, shstrtab (elf p), symtab (elf p)} (elf p) (elf q) \<and>
    error_count (asm q) = 0 \<and> (\<forall>nm \<in> N. read_symbol q nm = map_option payload.Num (\<rho> nm))"
proof -
  from source_starts [OF src] obtain M q k hp where ok: "program_ok xs k hp N"
    and q: "ready xs i k hp N (elf p) (1, Map.empty, start_gen i p) q"
    and M: "\<forall>n \<ge> M. \<forall>d bits. as_compile bits n d name p = with_symbols bits (run_passes d q)" by blast
  from passes_follow(1) [OF ok q r, of d] obtain t where t: "run_passes d q = Some (Some t)"
    "ready xs i k hp N (elf p) (0, \<rho>, g) t" "holds i (items (data (sec g))) (elf t)" by blast
  let ?m = "desc (deref (asm t) (scope (asm t)))"
  have m: "models hp N \<rho> (asm t)" and e: "error_count (asm t) = 0" and fr: "frame {i} (elf p) (elf t)"
    using t(2) by (simp_all add: ready_def)
  have i: "i \<noteq> shstrtab (elf t)" "i \<noteq> symtab (elf t)"
    using src fr by (auto simp: source_file_def clean_def frame_def)
  from m have "rooted hp (asm t)" by (simp add: models_def)
  then have "map_ok ?m" "map_get ?m [] = None" unfolding rooted_def symbol_at_def by blast+
  then have "k \<noteq> []" if "(k, a) \<in> set (entries ?m)" for k a using that by (rule no_empty_key)
  then have "\<forall>(k, a) \<in> set (entries ?m). k \<noteq> []" by auto
  from write_symbols_returns [OF this] obtain c where
    c: "as_write_symbols bits (asm t) ?m (elf t) = Some c" "kept (elf t) c" by blast
  let ?t = "t\<lparr>elf := c\<rparr>"
  have "frame {shstrtab (elf p), symtab (elf p)} (elf t) (elf ?t)"
    using c(2) fr unfolding kept_def by (simp add: frame_def)
  with frame_trans [OF fr this] have "frame {i, shstrtab (elf p), symtab (elf p)} (elf p) (elf ?t)" by (simp add: insert_commute)
  moreover have "holds i (items (data (sec g))) (elf ?t)"
    using c(2) i t(3) by (simp add: holds_def kept_def frame_def)
  moreover have "\<forall>nm \<in> N. read_symbol ?t nm = map_option payload.Num (\<rho> nm)"
    using models_read [OF m] by (simp add: read_symbol_def)
  moreover have "error_count (asm ?t) = 0" using e by simp
  moreover have "as_compile bits n d name p = Some (Some ?t)" if "M \<le> n" for n
    using M that t(1) c(1) by (simp add: with_symbols_def)
  ultimately show ?thesis by (intro exI [of _ M] allI impI exI [of _ ?t] conjI) blast+
qed

lemma source_hangs:
  assumes src: "source_file xs i N name p"
    and r: "source_passes xs (Map.empty, start_gen i p) = None"
  shows "\<exists>M. \<forall>n \<ge> M. as_compile bits n d name p = None"
proof -
  from source_starts [OF src] obtain M q k hp where ok: "program_ok xs k hp N"
    and q: "ready xs i k hp N (elf p) (1, Map.empty, start_gen i p) q"
    and M: "\<forall>n \<ge> M. \<forall>d bits. as_compile bits n d name p = with_symbols bits (run_passes d q)" by blast
  from passes_follow(2) [OF ok q r] M have "as_compile bits n d name p = None" if "M \<le> n" for n
    using that by (simp add: with_symbols_def)
  then show ?thesis by blast
qed

end
