(* ===== verification/Building.thy ===== *)
theory Building
  imports Compiling
begin

text \<open>
  The whole assembler on one source file. \<open>open_output\<close>: the state \<open>as_open_output\<close> makes is one in which a
  source file can be compiled. With what compiling computes and what is written of the sections, \<open>main\<close>
  is a function of the statements of the source; and there is a source on which it does not end.
\<close>

subsection \<open>A new output file\<close>

text \<open>A new file's text section is empty and at address 0; nothing else is code.\<close>

definition text_section :: elf_section where
  "text_section = \<lparr>sh_type = SHT_PROGBITS, sh_flags = SHF_ALLOC OR SHF_EXECINSTR, sh_addr = 0, data = vec_empty\<rparr>"

lemma output_elf:
  "map_option (\<lambda>c. (shstrtab c, symtab c, current c, length (sections c), load_section (sections c ! 8),
       map sec_code (sections c), e_shnum (ehdr c)))
     (Option.bind (elf_create name machine) (\<lambda>c. create_standard_file 0 (c\<lparr>ehdr := (ehdr c)\<lparr>e_type := ty\<rparr>\<rparr>))) =
   Some (0, 1, Some 8, 9, text_section, replicate 8 False @ [True], 9)"
  by code_simp

definition builtins :: "string list" where
  "builtins = [''__65AS__'', ''false'', ''no'', ''off'', ''on'', ''true'', ''yes'']"

lemma builtin_names:
  "map_option (\<lambda>s. (map fst (entries (desc (deref s 1))),
       list_all (\<lambda>(k, a). a < length (heap s) \<and> omode (deref s a) \<noteq> Macro) (entries (desc (deref s 1)))))
     (create_builtin_symbols (as_init g)) =
   Some (builtins, True)"
  by code_simp

lemma builtin_state:
  "map_option (\<lambda>s. (scope s, 1 < length (heap s), parent (deref s 1), form (deref s 0), val (deref s 0), stack s, stack_pointer s,
       error_count s))
     (create_builtin_symbols (as_init g)) =
   Some (1, True, None, IntForm, payload.Num 0, vec_empty, 0, 0)"
  by code_simp

lemma builtin_map: "map_option (\<lambda>s. ordered (desc (deref s 1)) \<and> rb (desc (deref s 1))) (create_builtin_symbols (as_init g)) = Some True"
  by code_simp

lemma builtin_gen: "map_option gen (create_builtin_symbols (as_init g)) = Some g"
  by code_simp

lemma open_output:
  assumes k: "output_kind (as_file_type out) = Some (m, ty)" and N: "\<forall>nm\<in>N. lk nm \<notin> lk ` set builtins \<union> {lk ''.'', lk []}"
  shows "\<exists>p. as_open_output src smbs out = Some p \<and> clean 8 N p \<and> start_gen 8 p = init_gen m text_section \<and>
    fs p = src \<and> scan p = no_scan \<and> error_count (asm p) = 0 \<and> shstrtab (elf p) = 0 \<and> symtab (elf p) = 1 \<and>
    map sec_code (sections (elf p)) = replicate 8 False @ [True] \<and> e_shnum (ehdr (elf p)) = 9"
proof -
  obtain c where c: "Option.bind (elf_create out m) (\<lambda>c. create_standard_file 0 (c\<lparr>ehdr := (ehdr c)\<lparr>e_type := ty\<rparr>\<rparr>)) = Some c"
    "shstrtab c = 0" "symtab c = 1" "current c = Some 8" "length (sections c) = 9" "load_section (sections c ! 8) = text_section"
    "map sec_code (sections c) = replicate 8 False @ [True]" "e_shnum (ehdr c) = 9"
    using output_elf [of out m ty] by auto
  let ?g = "init_gen m text_section"
  obtain s where s: "create_builtin_symbols (as_init ?g) = Some s"
    "scope s = 1" "1 < length (heap s)" "parent (deref s 1) = None" "form (deref s 0) = IntForm" "val (deref s 0) = payload.Num 0"
    "stack s = vec_empty" "stack_pointer s = 0" "error_count s = 0"
    using builtin_state [of ?g] by auto
  let ?m = "desc (deref s 1)"
  have ok: "map_ok ?m" "map fst (entries ?m) = builtins" "gen s = ?g"
    "list_all (\<lambda>(k, a). a < length (heap s) \<and> omode (deref s a) \<noteq> Macro) (entries ?m)"
    using s(1) builtin_map [of ?g] builtin_names [of ?g] builtin_gen [of ?g] by (simp_all add: map_ok_def)
  have none: "map_get ?m nm = None" if "lk nm \<notin> lk ` set builtins" for nm
  proof -
    have "fst ` set (assoc ?m) = lk ` set builtins"
      unfolding ok(2) [symmetric] by (force simp: assoc_def)
    with that have "meaning ?m (lk nm) = None" by (simp add: meaning_def map_of_eq_None_iff)
    with ok(1) show ?thesis by (simp add: map_ok_def map_get_meaning)
  qed
  have "lk ''.'' \<notin> lk ` set builtins \<and> lk [] \<notin> lk ` set builtins" by code_simp
  then have dots: "map_get ?m ''.'' = None" "map_get ?m [] = None" using none by blast+
  let ?p = "\<lparr>scan = no_scan, asm = s, elf = c, code = \<lambda>_. [], macro_def = False, sigs = [], imps = [], fs = src, smb = smbs\<rparr>"
  have "as_open_output src smbs out = Some ?p"
    using k c(1,4,6) s(1) by (auto simp: as_open_output_def bind_eq_Some_conv)
  moreover have "at_top ?p" using s ok(4) dots by (simp add: at_top_def top_scope_def deref_def [symmetric])
  moreover have "stack_ok s" using s(7,8) by (simp add: stack_ok_def vec_ok_empty) (simp add: vec_empty_def)
  then have "clean 8 N ?p" using c s ok(1) dots none N \<open>at_top ?p\<close> by (simp add: clean_def filling_def symbol_at_def)
  moreover have "start_gen 8 ?p = ?g" using ok(3) c(6) by (simp add: start_gen_def init_gen_def)
  ultimately show ?thesis using c s(9) by (intro exI [of _ ?p]) simp
qed

subsection \<open>From a source to a file\<close>

definition source_scan :: "int list \<Rightarrow> scan" where
  "source_scan content = scanner_get (scanner_start (no_scan\<lparr>files := bf_open content []\<rparr>))"

text \<open>
  \<open>content\<close> is the text of the statements \<open>xs\<close>. Their names are not those of built-in symbols.
\<close>

definition source_text :: "stmt list \<Rightarrow> int list \<Rightarrow> bool" where
  "source_text xs content \<longleftrightarrow>
     \<not> set xs \<subseteq> {Blank} \<and> stmts_ok xs \<and> names_ok (prog_names xs) \<and>
     (\<forall>nm \<in> prog_names xs. lk nm \<notin> lk ` set builtins) \<and>
     (\<exists>rest. feeds (show_stmts xs @ Sym sEOF # rest) (source_scan content))"

lemma text_opens:
  assumes "source_text xs content" "output_kind (as_file_type out) = Some (m, ty)"
    and "as_file_type name = FileAsmSrc" "src name = Some content"
  shows "\<exists>p. as_open_output src smbs out = Some p \<and> source_file xs 8 (prog_names xs) name p \<and>
    start_gen 8 p = init_gen m text_section \<and> error_count (asm p) = 0 \<and> shstrtab (elf p) = 0 \<and> symtab (elf p) = 1 \<and>
    map sec_code (sections (elf p)) = replicate 8 False @ [True] \<and> e_shnum (ehdr (elf p)) = 9"
proof -
  have "\<forall>nm \<in> prog_names xs. lk nm \<notin> lk ` set builtins \<union> {lk ''.'', lk []}"
    using assms(1) ordinary_lk by (auto simp: source_text_def names_ok_def)
  from open_output [OF assms(2) this, of src smbs] obtain p where
    p: "as_open_output src smbs out = Some p" "clean 8 (prog_names xs) p" "start_gen 8 p = init_gen m text_section"
      "fs p = src" "scan p = no_scan" "error_count (asm p) = 0" "shstrtab (elf p) = 0" "symtab (elf p) = 1"
      "map sec_code (sections (elf p)) = replicate 8 False @ [True]" "e_shnum (ehdr (elf p)) = 9" by blast
  have "scan (start_parse content (new_source p)) = source_scan content"
    using p(5) by (simp add: start_parse_def get_def new_source_def source_scan_def) (simp add: no_scan_def)
  with p assms have "source_file xs 8 (prog_names xs) name p" by (auto simp: source_file_def source_text_def)
  with p show ?thesis by blast
qed

lemma binary_contents:
  assumes "frame {8, 0, 1} c c'" "map sec_code (sections c) = replicate 8 False @ [True]" "e_shnum (ehdr c) = 9"
    and "holds 8 ds c'" "length ds < 2 ^ 32"
  shows "elf_write_binary (c'\<lparr>ehdr := (ehdr c')\<lparr>eh_machine := m, e_entry := e\<rparr>\<rparr>) = ds"
proof -
  have "sec_code = (\<lambda>(t, fl). t AND SHT_PROGBITS \<noteq> 0 \<and> fl AND SHF_EXECINSTR \<noteq> 0) \<circ> section_kind"
    by (simp add: fun_eq_iff sec_code_def sec_text_def section_kind_def)
  moreover have "map section_kind (sections c') = map section_kind (sections c)" using assms(1) by (simp add: frame_def)
  ultimately have "map sec_code (sections c') = map sec_code (sections c)" by (metis (no_types) map_map)
  with assms(2) have "map sec_code (sections c') = replicate 8 False @ [True]" by simp
  then obtain ss s where ss: "sections c' = ss @ [s]" "map sec_code ss = replicate 8 False" "sec_code s"
    by (cases "sections c'" rule: rev_cases) auto
  then have len: "length ss = 8" by (metis length_map length_replicate)
  have "filter sec_code ss = []"
  proof -
    have "set (map sec_code ss) = {False}" unfolding ss(2) by simp
    then show ?thesis by (auto simp: filter_empty_conv)
  qed
  moreover have "bytes s = ds" "h_size (shdr s) = of_nat (length ds)"
    using assms(4) ss(1) len by (simp_all add: holds_def nth_append)
  moreover have "e_shnum (ehdr c') = 9" using assms(1,3) by (simp add: frame_def)
  ultimately show ?thesis
    using ss(1,3) len assms(5) by (simp add: elf_write_binary_def written_def unat_of_nat)
qed

text \<open>
  C1. The assembler is the meaning of its source: \<open>main\<close> with a binary output file and one source file, the
  text of a list of instructions, labels, data and empty lines, writes exactly the bytes that the meaning of the
  list computes, when its passes come to rest: each pass runs the statements in order with the values the
  labels were given last, until two passes assemble the same number of bytes, and once more. No bound
  on the number of statements, the size of the expressions or the number of passes is assumed.
\<close>

theorem source_to_binary:
  assumes xs: "source_text xs content" and ty: "as_file_type out = FileBinary" "as_file_type name = FileAsmSrc"
    and src: "src name = Some content"
    and r: "source_passes xs (Map.empty, init_gen EM_02 text_section) = Some (Some (\<rho>, g))"
    and small: "length (items (data (sec g))) < 2 ^ 32"
  shows "\<exists>M. \<forall>n \<ge> M. as_main bits n d src smbs out old [name] = Some (Some [items (data (sec g))])"
proof -
  from text_opens [OF xs _ ty(2), of out EM_02 ET_EXEC src smbs] ty src obtain p where
    p: "as_open_output src smbs out = Some p" "source_file xs 8 (prog_names xs) name p"
      "start_gen 8 p = init_gen EM_02 text_section" "error_count (asm p) = 0" "shstrtab (elf p) = 0" "symtab (elf p) = 1"
      "map sec_code (sections (elf p)) = replicate 8 False @ [True]" "e_shnum (ehdr (elf p)) = 9" by auto
  from source_compiles [OF p(2), of \<rho> g bits d] r p(3) obtain M where
    M: "\<forall>n \<ge> M. \<exists>q. as_compile bits n d name p = Some (Some q) \<and> holds 8 (items (data (sec g))) (elf q) \<and>
      frame {8, shstrtab (elf p), symtab (elf p)} (elf p) (elf q) \<and> error_count (asm q) = 0 \<and>
      (\<forall>nm \<in> prog_names xs. read_symbol q nm = map_option payload.Num (\<rho> nm))" by auto
  have "as_main bits n d src smbs out old [name] = Some (Some [items (data (sec g))])" if "M \<le> n" for n
  proof -
    from M that obtain q where q: "as_compile bits n d name p = Some (Some q)" "holds 8 (items (data (sec g))) (elf q)"
      "frame {8, 0, 1} (elf p) (elf q)" "error_count (asm q) = 0" using p(5,6) by auto
    from binary_contents [OF q(3) p(7,8) q(2) small] p(1,4) q(1,4) ty(1) show ?thesis
      by (simp add: as_main_def as_close_output_def final_elf_def)
  qed
  then show ?thesis by blast
qed


text \<open>A forward reference: the first pass reads it as 0, and the second finds the label where it stays.\<close>

definition forward :: "stmt list" where
  "forward = [Data sBYTE [Sum sPLUS (Num 1) (Ident ''there'')], Label False ''there'']"

definition forward_text :: string where
  "forward_text = ''byte 1+there
there:
''"

lemma forward_feeds: "feeds (show_stmts forward @ Sym sEOF # []) (source_scan (map of_char forward_text))"
  by code_simp

lemma forward_ok: "stmts_ok forward"
  by (simp add: forward_def list_op_def sum_op_def)

lemma forward_names: "names_ok (prog_names forward) \<and> (\<forall>nm \<in> prog_names forward. lk nm \<notin> lk ` set builtins)"
proof -
  have n: "prog_names forward = {''there''}" by (simp add: prog_names_def forward_def)
  have "ordinary ''there''" "lk ''there'' \<notin> lk ` set builtins" by code_simp+
  then show ?thesis unfolding n by (simp add: names_ok_def)
qed

lemma forward_passes:
  "map_option (map_option (\<lambda>(\<rho>, g). items (data (sec g)))) (source_passes forward (Map.empty, init_gen EM_02 text_section)) = Some (Some [2])"
  by code_simp
lemma source_to_binary_witness:
  "\<exists>M. \<forall>n \<ge> M. as_main (\<lambda>_. 0) n 0 (\<lambda>nm. if nm = ''a.s'' then Some (map of_char forward_text) else None) (\<lambda>_. None)
     ''a.bin'' [] [''a.s''] = Some (Some [[2]])"
proof -
  from forward_passes obtain \<rho> g where p: "source_passes forward (Map.empty, init_gen EM_02 text_section) = Some (Some (\<rho>, g))"
    "items (data (sec g)) = [2]"
    by (cases "source_passes forward (Map.empty, init_gen EM_02 text_section)") (auto split: option.splits)
  have t: "source_text forward (map of_char forward_text)"
    using forward_feeds forward_ok forward_names by (auto simp: source_text_def) (auto simp: forward_def)
  have f: "as_file_type ''a.bin'' = FileBinary" "as_file_type ''a.s'' = FileAsmSrc" by code_simp+
  from source_to_binary [OF t f _ p(1), of "\<lambda>nm. if nm = ''a.s'' then Some (map of_char forward_text) else None"] p(2)
  show ?thesis by simp
qed

subsection \<open>Passes that do not come to rest\<close>

text \<open>
  The operand shrinks when the label after it moves away, and the label comes nearer when the operand
  shrinks: passes of two and of three bytes alternate.
\<close>

definition swing_i :: instr where
  "swing_i = \<lparr>opcode = sLDA, mode = Absolute, modifier = MNone\<rparr>"

definition swing :: "stmt list" where
  "swing = [Label False ''here'',
     Instr sLDA MNone (Mem (Sum sMINUS (Num 258) (Sum sMINUS (Ident ''there'') (Ident ''here'')))),
     Label False ''there'']"

lemma swing_selected: "selected EM_816 swing_i v = (if is_dp v then Emit (OB 165) else Emit (OW 173))"
proof -
  have s: "selected EM_816 swing_i 0 = Emit (OB 165)" "selected EM_816 swing_i 255 = Emit (OB 165)"
     "selected EM_816 swing_i 256 = Emit (OW 173)" "selected EM_816 swing_i 70000 = Emit (OW 173)"
    "is_dp 0" "is_dp 255" "\<not> is_dp 256" "\<not> is_dp 70000" "\<not> is_long_data 0" "\<not> is_long_data 255"
    "\<not> is_long_data 256" "is_long_data 70000"
    by code_simp+
  define w :: u32 where "w = (if v = 0 then 0 else if is_dp v then 255 else if is_long_data v then 70000 else 256)"
  have "\<not> (is_dp v \<and> is_long_data v)" by (auto simp: is_dp_def is_long_data_def word_sless_alt)
  then have "is_dp v = is_dp w" "is_long_data v = is_long_data w" "v = 0 \<longleftrightarrow> w = 0"
    using s by (auto simp: w_def)
  then have "selected EM_816 swing_i v = selected EM_816 swing_i w" by (rule selected_same_class)
  also have "\<dots> = (if is_dp v then Emit (OB 165) else Emit (OW 173))" using s by (auto simp: w_def)
  finally show ?thesis .
qed

lemma swing_bytes: "e_machine g = EM_816 \<Longrightarrow> length (gen_bytes swing_i v 0 0 g) = (if is_dp v then 2 else 3)"
  by (simp add: gen_bytes_def swing_selected)


text \<open>The value the symbol \<open>there\<close> has before a pass, and the operand.\<close>

definition swing_value :: "env \<times> cg \<Rightarrow> u32" where
  "swing_value = (\<lambda>(\<rho>, g). ucast (258 - ((case \<rho> ''there'' of Some v \<Rightarrow> v | None \<Rightarrow> 0) - ucast (sh_addr (sec g)) :: u64)))"

definition swing_ok :: "cg \<Rightarrow> bool" where
  "swing_ok g \<longleftrightarrow> e_machine g = EM_816 \<and> \<not> section_is_bss (sec g)"

lemma kind_bss: "sec_kind g = sec_kind h \<Longrightarrow> section_is_bss (sec g) = section_is_bss (sec h)"
  by (simp add: sec_kind_def section_is_bss_def)

lemma pass_start_facts:
  "e_machine (pass_start n g) = e_machine g" "addr (pass_start n g) = ucast (sh_addr (sec g))"
  "sh_addr (sec (pass_start n g)) = sh_addr (sec g)" "code_of (pass_start n g) = []"
  "sec_kind (pass_start n g) = sec_kind g" "vec_ok (data (sec (pass_start n g)))"
  by (simp_all add: pass_start_def codegen_setlongi_def codegen_setlonga_def codegen_addr_def sec_kind_def
      code_of_def vec_ok_empty ucast_up_ucast_id is_up) (simp_all add: vec_empty_def)

lemma swing_pass:
  assumes "swing_ok g"
  shows "\<exists>\<rho>' g'. source_pass swing (n, \<rho>, g) = Some (of_nat (if is_dp (swing_value (\<rho>, g)) then 2 else 3), n, \<rho>', g') \<and>
    swing_ok g' \<and> sh_addr (sec g') = sh_addr (sec g) \<and>
    \<rho>' ''there'' = Some (ucast (sh_addr (sec g)) + (if is_dp (swing_value (\<rho>, g)) then 2 else 3))"
proof -
  let ?g = "pass_start n g" and ?v = "swing_value (\<rho>, g)"
  let ?h = "codegen_gen swing_i ?v 0 0 ?g"
  have bss: "\<not> section_is_bss (sec ?g)" "storing ?g"
    using assms kind_bss [OF pass_start_facts(5), of n g] by (simp_all add: swing_ok_def storing_def pass_start_facts)
  have m: "e_machine ?g = EM_816" using assms by (simp add: pass_start_facts swing_ok_def)
  have "length (code_of ?h) = (if is_dp ?v then 2 else 3)"
    using code_codegen_gen [OF bss(2)] swing_bytes [OF m] by (simp add: pass_start_facts)
  then have "sh_size (sec ?h) = (if is_dp ?v then 2 else 3)" by (simp only: sh_size_def code_of_def)
  moreover have "addr ?h = ucast (sh_addr (sec g)) + (if is_dp ?v then 2 else 3)"
    using swing_bytes [OF m, of ?v] by (simp add: addr_codegen_gen pass_start_facts)
  moreover have "prog_step swing (\<rho>, ?g) = Some (\<rho>(''here'' \<mapsto> addr ?g, ''there'' \<mapsto> addr ?h), ?h)"
    by (simp add: swing_def values_in_def meaning2_def both_def arg_def swing_value_def swing_i_def pass_start_facts
        mul_op_def sum_op_def rel_op_def)
  moreover have "swing_ok ?h" "sh_addr (sec ?h) = sh_addr (sec g)"
    using m kind_bss [OF sec_kind_gen, of swing_i ?v 0 0 ?g] bss(1)
    by (simp_all add: swing_ok_def codegen_gen_fold pass_start_facts)
  ultimately show ?thesis by (auto simp: source_pass_def)
qed

lemma swing_next:
  assumes "swing_ok g" "\<rho> ''there'' = Some (ucast (sh_addr (sec g)) + of_nat m)" "m = 2 \<or> m = 3"
  shows "\<exists>\<rho>' g'. source_next swing (n, \<rho>, g) = Some (of_nat (5 - m), n + 1, \<rho>', g') \<and> swing_ok g' \<and>
    \<rho>' ''there'' = Some (ucast (sh_addr (sec g')) + of_nat (5 - m))"
proof -
  have "swing_value (\<rho>, g) = 258 - of_nat m" using assms(2,3) by (auto simp: swing_value_def)
  moreover have "is_dp 255" "\<not> is_dp 256" by code_simp+
  ultimately have "(if is_dp (swing_value (\<rho>, g)) then 2 else 3) = (5 - m :: nat)"
    "(if is_dp (swing_value (\<rho>, g)) then 2 else 3) = (of_nat (5 - m) :: u64)" using assms(3) by auto
  with swing_pass [OF assms(1), of "n + 1" \<rho>] show ?thesis by (auto simp: source_next_def)
qed

lemma swing_attempt:
  assumes "swing_ok g" "\<rho> ''there'' = Some (ucast (sh_addr (sec g)) + of_nat m)" "m = 2 \<or> m = 3"
  shows "\<exists>n' \<rho>' g' m'. attempt (source_next swing) (Some (of_nat m, n, \<rho>, g)) k = Some (of_nat m', n', \<rho>', g') \<and>
    swing_ok g' \<and> \<rho>' ''there'' = Some (ucast (sh_addr (sec g')) + of_nat m') \<and> m' = (if even k then m else 5 - m)"
proof (induction k)
  case 0
  with assms show ?case by auto
next
  case (Suc k)
  then obtain n' \<rho>' g' m' where s: "attempt (source_next swing) (Some (of_nat m, n, \<rho>, g)) k = Some (of_nat m', n', \<rho>', g')"
    "swing_ok g'" "\<rho>' ''there'' = Some (ucast (sh_addr (sec g')) + of_nat m')" "m' = (if even k then m else 5 - m)" by blast
  with swing_next [of g' \<rho>' m' n'] assms(3) show ?case by (auto split: if_splits)
qed


lemma swing_passes:
  assumes "swing_ok g" shows "source_passes swing (\<rho>, g) = None"
proof -
  define m :: nat where "m = (if is_dp (swing_value (\<rho>, g)) then 2 else 3)"
  have m: "m = 2 \<or> m = 3" by (simp add: m_def)
  from swing_pass [OF assms, of "1 + 1" \<rho>] obtain \<rho>' g' where first: "source_next swing (1, \<rho>, g) = Some (of_nat m, 2, \<rho>', g')"
    and g': "swing_ok g'" "\<rho>' ''there'' = Some (ucast (sh_addr (sec g')) + of_nat m)"
    by (auto simp: source_next_def m_def)
  have differ: "of_nat m \<noteq> (0 :: u32)" "of_nat m \<noteq> (of_nat (5 - m) :: u32)" using m by auto
  have on: "\<not> stops (source_next swing) 0 (Some (of_nat m, 2, \<rho>', g')) k" for k
  proof (cases k)
    case 0
    with differ show ?thesis by simp
  next
    case (Suc j)
    have sizes: "map_option fst (attempt (source_next swing) (Some (of_nat m, 2, \<rho>', g')) k) =
        Some (of_nat (if even k then m else 5 - m))" for k
      using swing_attempt [of g' \<rho>' m 2 k] g' m by auto
    from sizes [of "Suc j"] sizes [of j] differ Suc show ?thesis
      by (simp only: stops.simps) (auto simp del: attempt.simps split: if_splits)
  qed
  then have "until_stable (source_next swing) 0 (Some (of_nat m, 2, \<rho>', g')) = None"
    using until_stable_ends [of "source_next swing" 0 "Some (of_nat m, 2, \<rho>', g')"]
    by (cases "until_stable (source_next swing) 0 (Some (of_nat m, 2, \<rho>', g'))") auto
  with first show ?thesis by (simp add: source_passes_def)
qed


definition swing_text :: string where
  "swing_text = ''here:
lda 258-(there-here)
there:
''"

text \<open>
  C11. The assembler does not end on every source: with the text of \<open>swing\<close>, any contents of other files and
  an output file for the 65C816, no two passes after each other assemble the same number of bytes. The
  loop of \<open>as_compile\<close> has no bound and compares only these numbers.
\<close>

theorem assembling_never_ends:
  assumes xs: "source_text swing content" and ty: "output_kind (as_file_type out) = Some (EM_816, ty)" "as_file_type name = FileAsmSrc"
    and src: "src name = Some content"
  shows "\<exists>M. \<forall>n \<ge> M. as_main bits n d src smbs out old [name] = None"
proof -
  from text_opens [OF xs ty, of src smbs] src obtain p where
    p: "as_open_output src smbs out = Some p" "source_file swing 8 (prog_names swing) name p"
      "start_gen 8 p = init_gen EM_816 text_section" "error_count (asm p) = 0" by blast
  have "swing_ok (init_gen EM_816 text_section)" by code_simp
  from source_hangs [OF p(2), of bits d] swing_passes [OF this] p(3) obtain M where
    "\<forall>n \<ge> M. as_compile bits n d name p = None" by auto
  with p(1,4) have "as_main bits n d src smbs out old [name] = None" if "M \<le> n" for n
    using that by (simp add: as_main_def)
  then show ?thesis by blast
qed

lemma swing_feeds: "feeds (show_stmts swing @ Sym sEOF # []) (source_scan (map of_char swing_text))"
  by code_simp

lemma swing_stmts: "stmts_ok swing"
  by code_simp

lemma swing_names: "names_ok (prog_names swing) \<and> (\<forall>nm \<in> prog_names swing. lk nm \<notin> lk ` set builtins)"
proof -
  have n: "prog_names swing = {''here'', ''there''}" by (auto simp: prog_names_def swing_def)
  have "ordinary ''there''" "ordinary ''here''" "lk ''there'' \<notin> lk ` set builtins" "lk ''here'' \<notin> lk ` set builtins"
    "lk ''here'' \<noteq> lk ''there''" by code_simp+
  then show ?thesis unfolding n by (simp add: names_ok_def)
qed

lemma assembling_never_ends_witness:
  "\<exists>M. \<forall>n \<ge> M. as_main (\<lambda>_. 0) n 0 (\<lambda>nm. if nm = ''a.s'' then Some (map of_char swing_text) else None) (\<lambda>_. None)
     ''prog'' [] [''a.s''] = None"
proof -
  have t: "source_text swing (map of_char swing_text)"
    using swing_feeds swing_stmts swing_names by (auto simp: source_text_def) (auto simp: swing_def)
  have f: "output_kind (as_file_type ''prog'') = Some (EM_816, ET_EXEC)" "as_file_type ''a.s'' = FileAsmSrc" by code_simp+
  from assembling_never_ends [OF t f, of "\<lambda>nm. if nm = ''a.s'' then Some (map of_char swing_text) else None"]
  show ?thesis by simp
qed

end
