(* ===== verification/Spec2Isabelle.thy ===== *)
theory Spec2Isabelle
  imports Encoding Dis816 SymMap Interp Execution Conditional Symbols BufferedFile Scanner Scanning
    Elf Sections ElfWrite Module816 SymbolFile Parser Parsing Evaluation Returning Programs Sources Selecting Wellformed
    Passes Assembling Compiling Building
begin

text \<open>
  65Tools: the assembler for the processors of the 6502 family, its ELF, binary, tape and Oberon module
  files, and the disassemblers that read them back.

  \<^bold>\<open>The program.\<close> \<open>main\<close> (\<open>as-c/src/as.c\<close>) opens an output file, which makes an ELF context with the
  standard sections and the built-in symbols, and compiles the source files. \<open>as_compile\<close> opens a file
  (\<open>shared/src/buffered_file.c\<close>); the scanner (\<open>as-c/src/scanner.c\<close>) reads its characters and the parser
  (\<open>as-c/src/parser.c\<close>) its symbols. The parser assembles nothing: it appends operations to the current
  section. \<open>interp_run\<close> (\<open>as-c/src/interp.c\<close>) then runs the operations of each section on a stack of
  objects (\<open>as-c/src/value.c\<close>), with the symbols in red-black trees, and calls the code generator
  (\<open>shared/src/codegen.c\<close> and \<open>shared/src/gen_*.c\<close>), which writes bytes into the section. It runs them
  again until two passes assemble the same number of bytes, and once more; then the context is written
  (\<open>shared/src/elf_file.c\<close>). Modules and their symbol files are read back by \<open>oc/src/disasm.c\<close> and by the
  \<open>import\<close> directive, code by \<open>objdump/src/dis.c\<close>.

  \<^bold>\<open>Data and code generation.\<close>
  \<^item> \<open>Prelude\<close>: the C integers as words and the conversions the code relies on; helper lemmas.
  \<^item> \<open>Vec\<close>: \<open>buf_add\<close> and \<open>list_add\<close>, arrays with their capacity; the locale \<open>growable\<close>.
  \<^item> \<open>Cpu\<close>: tokens, addressing modes, modifiers and instructions (\<open>as_tokens.h\<close>, \<open>cpu.h\<close>, \<open>cpu.c\<close>).
  \<^item> \<open>Codegen\<close>: the globals of \<open>codegen.c\<close> as the record \<open>cg\<close>, the emitters and the access to bytes.
  \<^item> \<open>Emit\<close>, \<open>Gen_02\<close>, \<open>Gen_C02\<close>, \<open>Gen_RC02\<close>, \<open>Gen_RC19\<close>, \<open>Gen_816\<close>: each \<open>gen_*\<close> function is the table of its
    nested switches, one entry for a \<open>case\<close>, and \<open>run_table\<close> performs the call found.
  \<^item> \<open>Emission\<close>, \<open>Encoder\<close>, \<open>Encoding\<close>: \<open>codegen_gen\<close>; that it is recording and then writing \<open>gen_bytes\<close>; bytes and
    addresses advance together, branches reach their targets, older processors are included in newer ones.
  \<^item> \<open>Dis816\<close>: the tables and \<open>dis\<close> of \<open>objdump\<close>, and on which opcodes they invert the encoder.

  \<^bold>\<open>Running operations.\<close>
  \<^item> \<open>SymMap\<close>: the map of \<open>value.c\<close>. Its parent pointers are a path of frames from the new node to the root;
    the tree refines a finite map and stays balanced (locale \<open>sym_table\<close>).
  \<^item> \<open>Objects\<close>, \<open>Scope\<close>: objects in a store (\<open>heap\<close>, a list indexed by pointers; 0 is \<open>objectZero\<close>), the
    arithmetic on them, and the record \<open>asm\<close> of the globals of \<open>as.c\<close>, \<open>interp.c\<close> and \<open>value.c\<close>.
  \<^item> \<open>Interp\<close>: the operations; a null pointer or an access outside an array is \<open>None\<close>.
  \<^item> \<open>Execution\<close>, \<open>Conditional\<close>, \<open>Symbols\<close>: the stack is one (locale \<open>lifo\<close>), no operation leaves a dangling
    pointer, which branches run, and what labels and assignments hold.

  \<^bold>\<open>From text to operations.\<close>
  \<^item> \<open>BufferedFile\<close>, \<open>Scanner\<close>, \<open>Scanning\<close>: characters and symbols; arrays that the scanner leaves set a flag.
  \<^item> \<open>Parser\<close>: the record \<open>parse\<close> is everything a function of \<open>parser.c\<close> reads or changes; \<open>fs\<close> and \<open>smb\<close> give
    the contents of the files that \<open>include\<close> and \<open>import\<close> name.
  \<^item> \<open>Parsing\<close>, \<open>Programs\<close>, \<open>Sources\<close>: syntax trees of expressions, instructions and statements, their printing, and
    that the parser makes of the print exactly the operations of the tree (locale \<open>statement_loop\<close>, of
    which \<open>parse_block\<close> and \<open>parse_asm_file\<close> are the interpretations).
  \<^item> \<open>Evaluation\<close>, \<open>Selecting\<close>: the operations run: the value of an expression, the branch of a conditional.
  \<^item> \<open>Returning\<close>: which parts of the parser end on every input, and inputs on which it does not.
  \<^item> \<open>Wellformed\<close>: \<open>parse_ok\<close>, kept by every function of the parser on every input.

  \<^bold>\<open>Files.\<close>
  \<^item> \<open>Elf\<close>, \<open>Sections\<close>: the ELF context, string table (locale \<open>string_store\<close>), sections, symbols and relocations.
  \<^item> \<open>ElfWrite\<close>: executables, objects, binaries and paper tape, and the reader \<open>elf_read\<close>.
  \<^item> \<open>Module816\<close>, \<open>SymbolFile\<close>: the Oberon module and its symbol file with both readers.

  \<^bold>\<open>The whole.\<close>
  \<^item> \<open>Passes\<close>: \<open>interp_run\<close>, the loop of passes, \<open>as_compile\<close>, the output files and \<open>main\<close> (\<open>as_main\<close>). The
    locale \<open>simulation\<close> is one loop of passes following another.
  \<^item> \<open>Assembling\<close>: a meaning of statements, \<open>stmt_step\<close>, without operations, stack or store: it changes the
    values of the names and the code generator. Running the operations of a program is this meaning.
  \<^item> \<open>Compiling\<close>: so are all passes, and compiling a file. \<open>Building\<close>: and the bytes \<open>main\<close> writes.

  \<^bold>\<open>Fuel.\<close> The functions of the parser call each other in one recursion that need not end, so they take
  a number and return \<open>None\<close> when it is used up. A theorem about what they return says that every
  number from some \<open>N\<close> on gives the result; that they do not return, that every number gives \<open>None\<close>.
  \<open>interp_interp\<close> and \<open>interp_run\<close> take a bound on the nesting of macro calls, which C bounds by its stack.
  The loop of passes is a \<open>partial_function\<close>, with \<open>None\<close> for a loop that does not end. Everything else is total:
  the scanner ends because every call reads a character or is at the end of the file.

  \<^bold>\<open>Not modelled.\<close> The Oberon compiler (\<open>oc/src/OR*.c\<close>) but for the two file formats it shares with the
  assembler, the emulator (\<open>em16\<close>, C++), the linker's test program (\<open>ln\<close>), \<open>readelf\<close>, the drivers and the older
  copies of shared files in \<open>objdump\<close>, and the tools in Oberon: other programs. Of the assembler: the options
  of the command line, listings (a section that has only listing lines counts as empty), messages and
  memory management, which do not change what is assembled; no memory is ever exhausted. Floating
  point values are not computed.
  The statements with a meaning in \<open>Assembling\<close> are instructions, labels, bytes, words and
  empty lines; conditionals have theirs in \<open>Conditional\<close> and \<open>Selecting\<close>, and assignments in \<open>Symbols\<close>.
\<close>

end
